(* ===== verification/Prelude.thy ===== *)
theory Prelude
  imports Main "HOL-Library.Word"
begin

text \<open>
  Shared vocabulary of the development: the machine integer types of the kernel
  (x86_64, so \<open>usize\<close> is 64 bits wide), byte strings and slices, little-endian
  encodings, the outcomes of Rust code (a value, an \<open>Err\<close>, a panic, or never
  returning), and the generic lemmas on them that the components use.

  The Makefile builds the kernel with the \<open>dev\<close> profile (\<open>cargo build\<close>,
  \<open>cargo run\<close>), so unchecked arithmetic that overflows panics; wrapping, checked
  and saturating operations of the source are written as such.
\<close>

unbundle bit_operations_syntax

section \<open>Machine integers and byte strings\<close>

type_synonym u8 = "8 word"
type_synonym u16 = "16 word"
type_synonym u32 = "32 word"
type_synonym u64 = "64 word"
type_synonym bytes = "u8 list"

text \<open>\<open>usize\<close> values that index or measure a buffer are naturals below this bound.\<close>

abbreviation usize_bound :: nat where
  "usize_bound \<equiv> 18446744073709551616"

abbreviation isize_bound :: nat where
  "isize_bound \<equiv> 9223372036854775808"

abbreviation u32_bound :: nat where
  "u32_bound \<equiv> 4294967296"

text \<open>The bytes of an ASCII literal (Rust's \<open>b"..."\<close>, or \<open>as_bytes\<close> of a \<open>&str\<close>).\<close>

definition str :: "string \<Rightarrow> bytes" where
  "str s = map of_char s"

definition checked_add_usize :: "nat \<Rightarrow> nat \<Rightarrow> nat option" where
  "checked_add_usize a b = (if a + b < usize_bound then Some (a + b) else None)"

definition checked_mul_usize :: "nat \<Rightarrow> nat \<Rightarrow> nat option" where
  "checked_mul_usize a b = (if a * b < usize_bound then Some (a * b) else None)"

definition saturating_add_usize :: "nat \<Rightarrow> nat \<Rightarrow> nat" where
  "saturating_add_usize a b = min (a + b) (usize_bound - 1)"

definition checked_sub_u64 :: "u64 \<Rightarrow> u64 \<Rightarrow> u64 option" where
  "checked_sub_u64 a b = (if b \<le> a then Some (a - b) else None)"

definition checked_add_u64 :: "u64 \<Rightarrow> u64 \<Rightarrow> u64 option" where
  "checked_add_u64 a b = (if unat a + unat b < usize_bound then Some (a + b) else None)"

definition saturating_add_u64 :: "u64 \<Rightarrow> u64 \<Rightarrow> u64" where
  "saturating_add_u64 a b = (if unat a + unat b < usize_bound then a + b else - 1)"

text \<open>Signed 64-bit addition with the overflow check of a debug build.\<close>

definition checked_add_i64 :: "u64 \<Rightarrow> u64 \<Rightarrow> u64 option" where
  "checked_add_i64 a b =
     (let s = sint a + sint b in
      if - 9223372036854775808 \<le> s \<and> s < 9223372036854775808 then Some (a + b) else None)"

definition saturating_add_i64 :: "u64 \<Rightarrow> u64 \<Rightarrow> u64" where
  "saturating_add_i64 a b =
     (let s = sint a + sint b in
      if s < - 9223372036854775808 then 0x8000000000000000
      else if 9223372036854775808 \<le> s then 0x7FFFFFFFFFFFFFFF else a + b)"

lemma checked_add_u64_unat:
  "checked_add_u64 a b = Some c \<Longrightarrow> unat c = unat a + unat b"
  by (auto simp: checked_add_u64_def unat_word_ariths split: if_splits)

lemma checked_sub_u64_unat:
  "checked_sub_u64 a b = Some c \<Longrightarrow> unat c = unat a - unat b \<and> unat b \<le> unat a"
  by (auto simp: checked_sub_u64_def unat_sub word_le_nat_alt split: if_splits)

lemma saturating_add_u64_unat:
  "unat (saturating_add_u64 a b) = min (unat a + unat b) (usize_bound - 1)"
proof (cases "unat a + unat b < usize_bound")
  case True
  then show ?thesis by (simp add: saturating_add_u64_def unat_word_ariths)
next
  case False
  have "unat (- 1 :: u64) = usize_bound - 1"
    by (simp add: unsigned_minus_1_eq_mask mask_eq_exp_minus_1)
  with False show ?thesis by (simp add: saturating_add_u64_def)
qed

lemma unat_of_nat_u64 [simp]: "n < usize_bound \<Longrightarrow> unat (of_nat n :: u64) = n"
  by (simp add: unat_of_nat)

lemma unat_u64_bound [simp]: "unat (w :: u64) < usize_bound"
  using unsigned_less [of w, where ?'a = nat] by simp

lemma unat_u32_bound [simp]: "unat (w :: u32) < 4294967296"
  using unsigned_less [of w, where ?'a = nat] by simp

lemma unat_u16_bound [simp]: "unat (w :: u16) < 65536"
  using unsigned_less [of w, where ?'a = nat] by simp

lemma unat_u8_bound [simp]: "unat (w :: u8) < 256"
  using unsigned_less [of w, where ?'a = nat] by simp

text \<open>A property of bytes, checked on each of the 256.\<close>

lemma u8_exhaust: "(\<forall>i \<in> set [0..<256]. P (of_nat i)) \<Longrightarrow> P (m :: u8)"
proof -
  assume a: "\<forall>i \<in> set [0..<256]. P (of_nat i)"
  have "unat m \<in> set [0..<256]" by (simp del: upt_rec_numeral)
  with a have "P (of_nat (unat m))" by blast
  then show "P m" by simp
qed

text \<open>Clearing the low \<open>n\<close> bits rounds down.\<close>

lemma unat_align:
  assumes "n < 64"
  shows "unat ((w :: u64) AND NOT (mask n)) = unat w div 2 ^ n * 2 ^ n"
proof -
  have "w AND NOT (mask n) = push_bit n (drop_bit n w)"
    by (rule bit_word_eqI) (auto simp: bit_simps)
  then have "unat (w AND NOT (mask n)) = take_bit 64 (push_bit n (drop_bit n (unat w)))"
    by (simp add: unsigned_push_bit_eq unat_drop_bit_eq)
  also have "\<dots> = unat w div 2 ^ n * 2 ^ n mod 2 ^ 64"
    by (simp add: take_bit_eq_mod push_bit_eq_mult drop_bit_eq_div)
  also have "\<dots> = unat w div 2 ^ n * 2 ^ n"
  proof (rule mod_less)
    have "unat w div 2 ^ n * 2 ^ n \<le> unat w" by (rule div_times_less_eq_dividend)
    also have "unat w < 2 ^ 64" using unat_u64_bound [of w] by simp
    finally show "unat w div 2 ^ n * 2 ^ n < 2 ^ 64" .
  qed
  finally show ?thesis .
qed

lemma unat_neg_u64: "0 < unat (w :: u64) \<Longrightarrow> unat (- w) = usize_bound - unat w"
proof -
  assume w: "0 < unat w"
  have "unat (0 - w) = unat (0 :: u64) + usize_bound - unat w"
    using w by (simp only: unat_sub_if_size) (simp add: word_size)
  then show ?thesis by simp
qed

lemma sint_nonneg_iff: "0 \<le> sint (w :: u64) \<longleftrightarrow> unat w < isize_bound"
proof -
  have "0 \<le> sint w \<longleftrightarrow> \<not> bit (uint w) 63"
    by (simp add: sint_uint signed_take_bit_nonnegative_iff)
  also have "\<dots> \<longleftrightarrow> even (uint w div 2 ^ 63)"
    by (simp only: bit_iff_odd) simp
  also have "\<dots> \<longleftrightarrow> uint w < 9223372036854775808"
  proof (cases "uint w < 9223372036854775808")
    case True
    then have "uint w div 2 ^ 63 = 0" by (simp add: div_pos_pos_trivial)
    with True show ?thesis by simp
  next
    case False
    have "uint w < 2 ^ 64" using uint_lt2p [of w] by simp
    with False have "uint w div 2 ^ 63 = 1" by (simp add: div_pos_geq)
    with False show ?thesis by simp
  qed
  also have "\<dots> \<longleftrightarrow> unat w < isize_bound"
    by (simp only: uint_nat) linarith
  finally show ?thesis .
qed

section \<open>Slices\<close>

text \<open>\<open>sub_slice i n xs\<close> is \<open>&xs[i..i + n]\<close>; \<open>put_slice xs i ys\<close> is
  \<open>xs[i..i + ys.len()].copy_from_slice(ys)\<close>. Both are used where the range is in bounds.\<close>

definition sub_slice :: "nat \<Rightarrow> nat \<Rightarrow> 'a list \<Rightarrow> 'a list" where
  "sub_slice i n xs = take n (drop i xs)"

definition put_slice :: "'a list \<Rightarrow> nat \<Rightarrow> 'a list \<Rightarrow> 'a list" where
  "put_slice xs i ys = take i xs @ ys @ drop (i + length ys) xs"

lemma length_sub_slice [simp]: "i + n \<le> length xs \<Longrightarrow> length (sub_slice i n xs) = n"
  by (simp add: sub_slice_def)

lemma sub_slice_0 [simp]: "sub_slice i 0 xs = []"
  by (simp add: sub_slice_def)

lemma nth_sub_slice: "k < n \<Longrightarrow> i + n \<le> length xs \<Longrightarrow> sub_slice i n xs ! k = xs ! (i + k)"
  by (simp add: sub_slice_def)

lemma set_sub_slice: "set (sub_slice i n xs) \<subseteq> set xs"
  by (auto simp: sub_slice_def dest: in_set_takeD in_set_dropD)

lemma length_put_slice [simp]:
  "i + length ys \<le> length xs \<Longrightarrow> length (put_slice xs i ys) = length xs"
  by (simp add: put_slice_def)

lemma nth_put_slice:
  "i + length ys \<le> length xs \<Longrightarrow> k < length xs \<Longrightarrow>
   put_slice xs i ys ! k = (if i \<le> k \<and> k < i + length ys then ys ! (k - i) else xs ! k)"
  by (auto simp: put_slice_def nth_append min_def)

lemma sub_slice_put_same [simp]:
  "i + length ys \<le> length xs \<Longrightarrow> n = length ys \<Longrightarrow> sub_slice i n (put_slice xs i ys) = ys"
  by (simp add: sub_slice_def put_slice_def)

lemma sub_slice_put_disjoint:
  "i + length ys \<le> length xs \<Longrightarrow> j + n \<le> length xs \<Longrightarrow> j + n \<le> i \<or> i + length ys \<le> j \<Longrightarrow>
   sub_slice j n (put_slice xs i ys) = sub_slice j n xs"
  by (rule nth_equalityI) (auto simp: nth_sub_slice nth_put_slice)

lemma sub_slice_append_left:
  "i + n \<le> length xs \<Longrightarrow> sub_slice i n (xs @ ys) = sub_slice i n xs"
  by (simp add: sub_slice_def)

lemma sub_slice_append_right:
  "length xs \<le> i \<Longrightarrow> sub_slice i n (xs @ ys) = sub_slice (i - length xs) n ys"
  by (simp add: sub_slice_def)

lemma sub_slice_sub_slice:
  "j + m \<le> n \<Longrightarrow> sub_slice j m (sub_slice i n xs) = sub_slice (i + j) m xs"
  by (simp add: sub_slice_def drop_take min_def add.commute)

lemma sub_slice_full [simp]: "sub_slice 0 (length xs) xs = xs"
  by (simp add: sub_slice_def)

lemma pair_slice: "i + 2 \<le> length e \<Longrightarrow> [e ! i, e ! Suc i] = sub_slice i 2 e"
  by (rule nth_equalityI) (auto simp: nth_sub_slice nth_Cons less_Suc_eq numeral_eq_Suc)

lemma quad_slice:
  "i + 4 \<le> length e \<Longrightarrow>
   [e ! i, e ! Suc i, e ! Suc (Suc i), e ! Suc (Suc (Suc i))] = sub_slice i 4 e"
  by (rule nth_equalityI) (auto simp: nth_sub_slice nth_Cons less_Suc_eq numeral_eq_Suc)

section \<open>Little-endian encodings\<close>

primrec le_nat :: "bytes \<Rightarrow> nat" where
  "le_nat [] = 0"
| "le_nat (b # bs) = unat b + 256 * le_nat bs"

primrec le_bytes :: "nat \<Rightarrow> nat \<Rightarrow> bytes" where
  "le_bytes 0 v = []"
| "le_bytes (Suc n) v = of_nat v # le_bytes n (v div 256)"

text \<open>\<open>uN::from_le_bytes\<close> and \<open>uN::to_le_bytes\<close> (\<open>n = N / 8\<close>).\<close>

definition from_le :: "bytes \<Rightarrow> 'a::len word" where
  "from_le bs = of_nat (le_nat bs)"

definition to_le :: "nat \<Rightarrow> 'a::len word \<Rightarrow> bytes" where
  "to_le n w = le_bytes n (unat w)"

lemma length_le_bytes [simp]: "length (le_bytes n v) = n"
  by (induction n arbitrary: v) auto

lemma length_to_le [simp]: "length (to_le n w) = n"
  by (simp add: to_le_def)

lemma le_nat_bound: "le_nat bs < 256 ^ length bs"
proof (induction bs)
  case Nil
  then show ?case by simp
next
  case (Cons b bs)
  have b: "unat b < 256" by simp
  from Cons have "le_nat bs + 1 \<le> 256 ^ length bs" by simp
  then have "256 * (le_nat bs + 1) \<le> 256 * 256 ^ length bs"
    by (rule mult_le_mono2)
  with b have "unat b + 256 * le_nat bs < 256 * 256 ^ length bs"
    unfolding distrib_left by linarith
  then show ?case by simp
qed

lemma le_nat_le_bytes: "le_nat (le_bytes n v) = v mod 256 ^ n"
proof (induction n arbitrary: v)
  case 0
  then show ?case by simp
next
  case (Suc n)
  have "unat (of_nat v :: u8) = v mod 256" by (simp add: unat_of_nat)
  with Suc show ?case by (simp add: mod_mult2_eq)
qed

lemma from_le_to_le:
  assumes "LENGTH('a) = 8 * n"
  shows "from_le (to_le n (w :: 'a::len word)) = w"
proof -
  have "unat w < 2 ^ LENGTH('a)" by simp
  also have "(2::nat) ^ LENGTH('a) = 256 ^ n"
    using assms by (simp add: power_mult)
  finally show ?thesis
    by (simp add: from_le_def to_le_def le_nat_le_bytes)
qed

lemma from_le_to_le_16 [simp]: "from_le (to_le 2 (w :: u16)) = w"
  by (rule from_le_to_le) simp

lemma from_le_to_le_32 [simp]: "from_le (to_le 4 (w :: u32)) = w"
  by (rule from_le_to_le) simp

lemma from_le_to_le_64 [simp]: "from_le (to_le 8 (w :: u64)) = w"
  by (rule from_le_to_le) simp

lemma le_bytes_le_nat: "le_bytes (length bs) (le_nat bs) = bs"
proof (induction bs)
  case Nil
  then show ?case by simp
next
  case (Cons b bs)
  have "unat b < 256" by simp
  moreover have "of_nat (256 * le_nat bs) = (0 :: u8)"
    by (simp only: word_of_nat_eq_0_iff) simp
  ultimately show ?case using Cons by (simp add: div_add1_eq)
qed

section \<open>Memory behind raw pointers\<close>

text \<open>
  The kernel dereferences \<open>usize\<close> arguments as pointers into its own address space: a
  total map from addresses to bytes. (An access to an unmapped page traps and the handler
  halts for good; the model covers the executions in which it is mapped.)
\<close>

type_synonym memory = "u64 \<Rightarrow> u8"

definition mem_write :: "memory \<Rightarrow> u64 \<Rightarrow> bytes \<Rightarrow> memory" where
  "mem_write m a bs = (\<lambda>x. if unat (x - a) < length bs then bs ! unat (x - a) else m x)"

definition mem_read :: "memory \<Rightarrow> u64 \<Rightarrow> nat \<Rightarrow> bytes" where
  "mem_read m a n = map (\<lambda>i. m (a + of_nat i)) [0..<n]"

lemma length_mem_read [simp]: "length (mem_read m a n) = n"
  by (simp add: mem_read_def)

lemma mem_write_nil [simp]: "mem_write m a [] = m"
  by (simp add: mem_write_def)

lemma mem_write_at:
  "i < usize_bound \<Longrightarrow> mem_write m a bs (a + of_nat i) = (if i < length bs then bs ! i else m (a + of_nat i))"
  by (simp add: mem_write_def)

lemma mem_read_write_same:
  "length bs \<le> usize_bound \<Longrightarrow> mem_read (mem_write m a bs) a (length bs) = bs"
  by (rule nth_equalityI) (auto simp: mem_read_def mem_write_at)

lemma mem_read_write_sub:
  assumes "length bs \<le> usize_bound" "off + n \<le> length bs"
  shows "mem_read (mem_write m a bs) (a + of_nat off) n = sub_slice off n bs"
proof (rule nth_equalityI)
  fix i assume "i < length (mem_read (mem_write m a bs) (a + of_nat off) n)"
  then have i: "i < n" by simp
  have "a + of_nat off + of_nat i = a + of_nat (off + i)" by simp
  then have "mem_write m a bs (a + of_nat off + of_nat i) = bs ! (off + i)"
    using assms i by (simp only: mem_write_at) simp
  then show "mem_read (mem_write m a bs) (a + of_nat off) n ! i = sub_slice off n bs ! i"
    using assms i by (simp add: mem_read_def nth_sub_slice)
qed (use assms in simp)

text \<open>Adjacent writes are one write.\<close>

lemma mem_write_append:
  assumes "length bs + length cs \<le> usize_bound"
  shows "mem_write (mem_write m a bs) (a + of_nat (length bs)) cs = mem_write m a (bs @ cs)"
proof
  fix x
  define d where "d = unat (x - a)"
  have x: "x = a + of_nat d" by (simp add: d_def)
  have d: "d < usize_bound" by (simp add: d_def)
  have lo: "length bs < usize_bound \<or> cs = []"
    using assms by (cases cs) auto
  show "mem_write (mem_write m a bs) (a + of_nat (length bs)) cs x = mem_write m a (bs @ cs) x"
  proof (cases "cs = []")
    case True
    then show ?thesis by simp
  next
    case False
    with lo have l: "length bs < usize_bound" by simp
    have "x - (a + of_nat (length bs)) = of_nat d - of_nat (length bs)"
      by (simp add: x)
    then have u: "unat (x - (a + of_nat (length bs))) =
        (if length bs \<le> d then d - length bs else d + usize_bound - length bs)"
      using d l by (simp only: unat_sub_if_size) (simp add: word_size)
    then show ?thesis
      using assms d l by (auto simp: mem_write_def nth_append u simp flip: d_def)
  qed
qed

section \<open>Outcomes\<close>

text \<open>
  A Rust \<open>Result\<close> is a sum, with \<open>Inl\<close> for \<open>Err\<close>. \<open>try_res\<close> is the
  \<open>?\<close> operator (and \<open>Result::and_then\<close>), \<open>map_err\<close> is \<open>Result::map_err\<close>,
  and \<open>ok_or\<close> is \<open>Option::ok_or\<close>.
\<close>

fun try_res :: "'e + 'a \<Rightarrow> ('a \<Rightarrow> 'e + 'b) \<Rightarrow> 'e + 'b" where
  "try_res (Inl e) f = Inl e"
| "try_res (Inr x) f = f x"

fun map_err :: "('e \<Rightarrow> 'f) \<Rightarrow> 'e + 'a \<Rightarrow> 'f + 'a" where
  "map_err f (Inl e) = Inl (f e)"
| "map_err f (Inr x) = Inr x"

fun ok_or :: "'e \<Rightarrow> 'a option \<Rightarrow> 'e + 'a" where
  "ok_or e None = Inl e"
| "ok_or e (Some x) = Inr x"

lemma try_res_Inr_iff: "try_res r f = Inr y \<longleftrightarrow> (\<exists>x. r = Inr x \<and> f x = Inr y)"
  by (cases r) auto

lemma try_res_Inl_iff: "try_res r f = Inl e \<longleftrightarrow> r = Inl e \<or> (\<exists>x. r = Inr x \<and> f x = Inl e)"
  by (cases r) auto

lemma ok_or_Inr_iff [simp]: "ok_or e x = Inr y \<longleftrightarrow> x = Some y"
  by (cases x) auto

lemma ok_or_Inl_iff [simp]: "ok_or e x = Inl d \<longleftrightarrow> x = None \<and> d = e"
  by (cases x) auto

text \<open>
  Stateful code that may also panic (an out-of-range slice, an arithmetic overflow in a
  debug build) or never return: \<open>Done\<close> is \<open>Ok\<close> with the state after it, \<open>Fail\<close>
  an \<open>Err\<close> with the state at that point (what was written before stays written),
  \<open>Panic\<close> reaches the panic handler and \<open>Hang\<close> never comes back.
\<close>

datatype ('e, 's, 'a) run = Done 'a 's | Fail 'e 's | Panic | Hang

fun and_then ::
  "('e, 's, 'a) run \<Rightarrow> ('a \<Rightarrow> 's \<Rightarrow> ('e, 's, 'b) run) \<Rightarrow> ('e, 's, 'b) run" where
  "and_then (Done x s) f = f x s"
| "and_then (Fail e s) f = Fail e s"
| "and_then Panic f = Panic"
| "and_then Hang f = Hang"

text \<open>\<open>with_res s r k\<close> continues with the value of a pure fallible computation.\<close>

fun with_res :: "'s \<Rightarrow> 'e + 'a \<Rightarrow> ('a \<Rightarrow> ('e, 's, 'b) run) \<Rightarrow> ('e, 's, 'b) run" where
  "with_res s (Inl e) k = Fail e s"
| "with_res s (Inr x) k = k x"

text \<open>Arithmetic that panics on overflow.\<close>

fun or_panic :: "'a option \<Rightarrow> ('a \<Rightarrow> ('e, 's, 'b) run) \<Rightarrow> ('e, 's, 'b) run" where
  "or_panic None k = Panic"
| "or_panic (Some x) k = k x"

text \<open>\<open>state_ok P r\<close>: the predicate holds of the state of every outcome that leaves one
  behind, and \<open>returns r\<close>: the code comes back.\<close>

fun state_ok :: "('s \<Rightarrow> bool) \<Rightarrow> ('e, 's, 'a) run \<Rightarrow> bool" where
  "state_ok P (Done x s) = P s"
| "state_ok P (Fail e s) = P s"
| "state_ok P Panic = True"
| "state_ok P Hang = True"

fun returns :: "('e, 's, 'a) run \<Rightarrow> bool" where
  "returns (Done x s) = True"
| "returns (Fail e s) = True"
| "returns Panic = False"
| "returns Hang = False"

named_theorems run_intro

lemma state_ok_and_then [run_intro]:
  "state_ok P r \<Longrightarrow> (\<And>x s. r = Done x s \<Longrightarrow> P s \<Longrightarrow> state_ok P (f x s)) \<Longrightarrow> state_ok P (and_then r f)"
  by (cases r) auto

lemma state_ok_with_res [run_intro]:
  "P s \<Longrightarrow> (\<And>x. r = Inr x \<Longrightarrow> state_ok P (k x)) \<Longrightarrow> state_ok P (with_res s r k)"
  by (cases r) auto

lemma state_ok_if [run_intro]:
  "state_ok P x \<Longrightarrow> state_ok P y \<Longrightarrow> state_ok P (if b then x else y)"
  by simp

lemma state_ok_if_cond:
  "(c \<Longrightarrow> state_ok P x) \<Longrightarrow> (\<not> c \<Longrightarrow> state_ok P y) \<Longrightarrow> state_ok P (if c then x else y)"
  by simp

lemma state_ok_or_panic [run_intro]:
  "(\<And>x. r = Some x \<Longrightarrow> state_ok P (k x)) \<Longrightarrow> state_ok P (or_panic r k)"
  by (cases r) auto

end
