(* ===== verification/Rust_Str.thy ===== *)
theory Rust_Str
  imports Prelude
begin

text \<open>
  The parts of Rust's \<open>core::str\<close> the kernel uses, on byte strings: UTF-8 validation
  (\<open>str::from_utf8\<close>), \<open>trim\<close>, \<open>strip_prefix\<close>, \<open>trim_start_matches('/')\<close>,
  \<open>contains('/')\<close>, \<open>split_whitespace\<close> and \<open>splitn(2, char::is_whitespace)\<close>.
  A \<open>&str\<close> is its UTF-8 bytes.
\<close>

unbundle bit_operations_syntax

section \<open>UTF-8 validation\<close>

definition cont_byte :: "u8 \<Rightarrow> bool" where
  "cont_byte b \<longleftrightarrow> 0x80 \<le> b \<and> b \<le> 0xBF"

text \<open>The admissible second bytes of a three-byte and of a four-byte sequence.\<close>

definition second_of_three :: "u8 \<Rightarrow> u8 \<Rightarrow> bool" where
  "second_of_three b c \<longleftrightarrow>
     (if b = 0xE0 then 0xA0 \<le> c \<and> c \<le> 0xBF
      else if b = 0xED then 0x80 \<le> c \<and> c \<le> 0x9F
      else cont_byte c)"

definition second_of_four :: "u8 \<Rightarrow> u8 \<Rightarrow> bool" where
  "second_of_four b c \<longleftrightarrow>
     (if b = 0xF0 then 0x90 \<le> c \<and> c \<le> 0xBF
      else if b = 0xF4 then 0x80 \<le> c \<and> c \<le> 0x8F
      else cont_byte c)"

fun utf8_valid :: "bytes \<Rightarrow> bool" where
  "utf8_valid [] = True"
| "utf8_valid (b # bs) =
     (if b < 0x80 then utf8_valid bs
      else if 0xC2 \<le> b \<and> b \<le> 0xDF then
        (case bs of c # cs \<Rightarrow> cont_byte c \<and> utf8_valid cs | _ \<Rightarrow> False)
      else if 0xE0 \<le> b \<and> b \<le> 0xEF then
        (case bs of c # d # ds \<Rightarrow> second_of_three b c \<and> cont_byte d \<and> utf8_valid ds | _ \<Rightarrow> False)
      else if 0xF0 \<le> b \<and> b \<le> 0xF4 then
        (case bs of c # d # e # es \<Rightarrow>
           second_of_four b c \<and> cont_byte d \<and> cont_byte e \<and> utf8_valid es | _ \<Rightarrow> False)
      else False)"

definition from_utf8 :: "bytes \<Rightarrow> bytes option" where
  "from_utf8 bs = (if utf8_valid bs then Some bs else None)"

lemma utf8_valid_ascii: "\<forall>b \<in> set bs. b < 0x80 \<Longrightarrow> utf8_valid bs"
  by (induction bs) auto

lemma from_utf8_Some_iff: "from_utf8 bs = Some s \<longleftrightarrow> utf8_valid bs \<and> s = bs"
  by (auto simp: from_utf8_def)

section \<open>White space and trimming\<close>

text \<open>
  \<open>char::is_whitespace\<close> is the Unicode property White_Space. In UTF-8 these are the
  bytes 09 to 0D and 20, C2 85, C2 A0, E1 9A 80, E2 80 80 to E2 80 8A, E2 80 A8, E2 80 A9,
  E2 80 AF, E2 81 9F and E3 80 80.
\<close>

definition ws1 :: "u8 \<Rightarrow> bool" where
  "ws1 b \<longleftrightarrow> (0x09 \<le> b \<and> b \<le> 0x0D) \<or> b = 0x20"

definition ws2 :: "u8 \<Rightarrow> u8 \<Rightarrow> bool" where
  "ws2 b c \<longleftrightarrow> b = 0xC2 \<and> (c = 0x85 \<or> c = 0xA0)"

definition ws3 :: "u8 \<Rightarrow> u8 \<Rightarrow> u8 \<Rightarrow> bool" where
  "ws3 b c d \<longleftrightarrow>
     (b = 0xE1 \<and> c = 0x9A \<and> d = 0x80) \<or>
     (b = 0xE2 \<and> c = 0x80 \<and> (0x80 \<le> d \<and> d \<le> 0x8A \<or> d = 0xA8 \<or> d = 0xA9 \<or> d = 0xAF)) \<or>
     (b = 0xE2 \<and> c = 0x81 \<and> d = 0x9F) \<or>
     (b = 0xE3 \<and> c = 0x80 \<and> d = 0x80)"

text \<open>Drop one white-space character from the front; from the back, on the reversed bytes.\<close>

fun ws_front :: "bytes \<Rightarrow> bytes option" where
  "ws_front [] = None"
| "ws_front [b] = (if ws1 b then Some [] else None)"
| "ws_front [b, c] = (if ws1 b then Some [c] else if ws2 b c then Some [] else None)"
| "ws_front (b # c # d # ds) =
     (if ws1 b then Some (c # d # ds)
      else if ws2 b c then Some (d # ds)
      else if ws3 b c d then Some ds else None)"

fun ws_back_rev :: "bytes \<Rightarrow> bytes option" where
  "ws_back_rev [] = None"
| "ws_back_rev [b] = (if ws1 b then Some [] else None)"
| "ws_back_rev [c, b] = (if ws1 c then Some [b] else if ws2 b c then Some [] else None)"
| "ws_back_rev (d # c # b # bs) =
     (if ws1 d then Some (c # b # bs)
      else if ws2 c d then Some (b # bs)
      else if ws3 b c d then Some bs else None)"

lemma ws_front_length: "ws_front bs = Some r \<Longrightarrow> length r < length bs"
  by (induction bs rule: ws_front.induct) (auto split: if_splits)

lemma ws_back_rev_length: "ws_back_rev bs = Some r \<Longrightarrow> length r < length bs"
  by (induction bs rule: ws_back_rev.induct) (auto split: if_splits)

function trim_start :: "bytes \<Rightarrow> bytes" where
  "trim_start bs = (case ws_front bs of None \<Rightarrow> bs | Some r \<Rightarrow> trim_start r)"
  by pat_completeness auto
termination
  by (relation "measure length") (auto dest: ws_front_length)

function trim_end_rev :: "bytes \<Rightarrow> bytes" where
  "trim_end_rev bs = (case ws_back_rev bs of None \<Rightarrow> bs | Some r \<Rightarrow> trim_end_rev r)"
  by pat_completeness auto
termination
  by (relation "measure length") (auto dest: ws_back_rev_length)

declare trim_start.simps [simp del] trim_end_rev.simps [simp del]

definition trim :: "bytes \<Rightarrow> bytes" where
  "trim bs = rev (trim_end_rev (rev (trim_start bs)))"

definition strip_prefix :: "bytes \<Rightarrow> bytes \<Rightarrow> bytes option" where
  "strip_prefix p s = (if take (length p) s = p then Some (drop (length p) s) else None)"

abbreviation slash :: u8 where
  "slash \<equiv> 0x2F"

definition trim_start_slashes :: "bytes \<Rightarrow> bytes" where
  "trim_start_slashes s = dropWhile (\<lambda>b. b = slash) s"

definition contains_slash :: "bytes \<Rightarrow> bool" where
  "contains_slash s \<longleftrightarrow> slash \<in> set s"

text \<open>The first white-space-free run of a string and what follows the character that ends it.\<close>

fun split_ws_once :: "bytes \<Rightarrow> bytes \<times> bytes option" where
  "split_ws_once [] = ([], None)"
| "split_ws_once (b # bs) =
     (case ws_front (b # bs) of
        Some r \<Rightarrow> ([], Some r)
      | None \<Rightarrow> (let (w, r) = split_ws_once bs in (b # w, r)))"

lemma split_ws_once_length:
  "split_ws_once bs = (w, Some r) \<Longrightarrow> length r < length bs"
proof (induction bs arbitrary: w r)
  case Nil
  then show ?case by simp
next
  case (Cons b bs)
  show ?case
  proof (cases "ws_front (b # bs)")
    case None
    with Cons.prems obtain w' where "split_ws_once bs = (w', Some r)"
      by (auto split: prod.splits)
    from Cons.IH [OF this] show ?thesis by simp
  next
    case (Some r')
    with Cons.prems ws_front_length [OF Some] show ?thesis by simp
  qed
qed

text \<open>\<open>split_whitespace\<close>: the non-empty runs, in order.\<close>

function split_whitespace :: "bytes \<Rightarrow> bytes list" where
  "split_whitespace bs =
     (case split_ws_once bs of
        (w, None) \<Rightarrow> (if w = [] then [] else [w])
      | (w, Some r) \<Rightarrow> (if w = [] then split_whitespace r else w # split_whitespace r))"
  by pat_completeness auto
termination
  by (relation "measure length") (auto dest: split_ws_once_length [OF sym])

declare split_whitespace.simps [simp del]

section \<open>Facts\<close>

lemma trim_start_suffix: "\<exists>p. bs = p @ trim_start bs"
proof (induction bs rule: trim_start.induct)
  case (1 bs)
  show ?case
  proof (cases "ws_front bs")
    case None
    then show ?thesis by (simp add: trim_start.simps [of bs])
  next
    case (Some r)
    then have "\<exists>p. bs = p @ r"
      by (cases bs rule: ws_front.cases) (auto split: if_splits)
    moreover obtain q where "r = q @ trim_start r" using "1" Some by blast
    moreover have "trim_start bs = trim_start r"
      using Some by (simp add: trim_start.simps [of bs])
    ultimately show ?thesis by (metis append.assoc)
  qed
qed

lemma trim_end_rev_suffix: "\<exists>p. bs = p @ trim_end_rev bs"
proof (induction bs rule: trim_end_rev.induct)
  case (1 bs)
  show ?case
  proof (cases "ws_back_rev bs")
    case None
    then show ?thesis by (simp add: trim_end_rev.simps [of bs])
  next
    case (Some r)
    then have "\<exists>p. bs = p @ r"
      by (cases bs rule: ws_back_rev.cases) (auto split: if_splits)
    moreover obtain q where "r = q @ trim_end_rev r" using "1" Some by blast
    moreover have "trim_end_rev bs = trim_end_rev r"
      using Some by (simp add: trim_end_rev.simps [of bs])
    ultimately show ?thesis by (metis append.assoc)
  qed
qed

text \<open>A trimmed string is a contiguous part of the original.\<close>

lemma trim_infix: "\<exists>p q. bs = p @ trim bs @ q"
proof -
  obtain p where p: "bs = p @ trim_start bs" using trim_start_suffix by blast
  obtain q where "rev (trim_start bs) = q @ trim_end_rev (rev (trim_start bs))"
    using trim_end_rev_suffix by blast
  then have "trim_start bs = trim bs @ rev q"
    unfolding trim_def by (metis rev_append rev_rev_ident)
  with p show ?thesis by metis
qed

lemma set_trim: "set (trim bs) \<subseteq> set bs"
  using trim_infix [of bs] by (metis le_supI1 le_supI2 order_refl set_append)

lemma no_slash_after_trim:
  "\<not> contains_slash s \<Longrightarrow> trim_start_slashes s = s"
  by (cases s) (auto simp: contains_slash_def trim_start_slashes_def)

text \<open>A string of printable ASCII characters is left alone by \<open>trim\<close>.\<close>

definition graphic :: "bytes \<Rightarrow> bool" where
  "graphic s \<longleftrightarrow> (\<forall>b \<in> set s. 0x21 \<le> b \<and> b \<le> 0x7E)"

lemma graphic_not_ws:
  assumes "0x21 \<le> b" "b \<le> 0x7E"
  shows "\<not> ws1 b" "\<not> ws2 b c" "\<not> ws2 c b" "\<not> ws3 b c d" "\<not> ws3 c d b"
  using assms by (auto simp: ws1_def ws2_def ws3_def word_le_nat_alt)

lemma trim_bounded:
  assumes "s \<noteq> []" "graphic [hd s]" "graphic [last s]"
  shows "trim s = s"
proof -
  have "ws_front s = None"
    using assms(1,2) by (cases s rule: ws_front.cases) (auto simp: graphic_def graphic_not_ws)
  then have "trim_start s = s" by (simp add: trim_start.simps [of s])
  moreover have "ws_back_rev (rev s) = None"
  proof -
    from assms have "rev s \<noteq> []" "graphic [hd (rev s)]" by (simp_all add: hd_rev)
    then show ?thesis
      by (cases "rev s" rule: ws_back_rev.cases) (auto simp: graphic_def graphic_not_ws)
  qed
  ultimately show ?thesis by (simp add: trim_def trim_end_rev.simps [of "rev s"])
qed

lemma trim_Nil [simp]: "trim [] = []"
  by (simp add: trim_def trim_start.simps trim_end_rev.simps)

lemma graphic_trim: "graphic s \<Longrightarrow> trim s = s"
  by (cases "s = []") (auto intro!: trim_bounded simp: graphic_def)

lemma graphic_utf8: "graphic s \<Longrightarrow> utf8_valid s"
proof (rule utf8_valid_ascii)
  assume "graphic s"
  then show "\<forall>b \<in> set s. b < 0x80"
    by (auto simp: graphic_def word_le_nat_alt word_less_nat_alt)
qed

end
