(* ===== verification/Fs.thy ===== *)
theory Fs
  imports Rust_Str
begin

text \<open>
  The read-only ram-disk file system LFS1 (\<open>kernel/src/fs.rs\<close>): a 12-byte header
  (magic, version, file count), a table of 64-byte entries, then the file contents.
  An image is a byte list; a \<open>FileRecord\<close> holds the bytes its slices denote.
\<close>

section \<open>Data\<close>

datatype FsError = TooSmall | BadMagic | BadVersion | OutOfBounds | InvalidName | NotFound

record FsHeader =
  file_count :: u16

record FileRecord =
  fr_name :: bytes
  fr_mode :: u16
  fr_data :: bytes

definition FS_MAGIC :: bytes where "FS_MAGIC = str ''LFS1''"
definition FS_VERSION :: u16 where "FS_VERSION = 1"
definition HEADER_SIZE :: nat where "HEADER_SIZE = 12"
definition ENTRY_SIZE :: nat where "ENTRY_SIZE = 64"
definition NAME_CAP :: nat where "NAME_CAP = 48"

lemmas fs_consts = FS_MAGIC_def FS_VERSION_def HEADER_SIZE_def ENTRY_SIZE_def NAME_CAP_def

section \<open>Operations\<close>

definition fs_header :: "bytes \<Rightarrow> FsError + FsHeader" where
  "fs_header img =
     (if length img < HEADER_SIZE then Inl TooSmall
      else if sub_slice 0 4 img \<noteq> FS_MAGIC then Inl BadMagic
      else if from_le [img ! 4, img ! 5] \<noteq> FS_VERSION then Inl BadVersion
      else
        (let file_count = from_le [img ! 6, img ! 7] in
         try_res (ok_or OutOfBounds (checked_mul_usize (unat file_count) ENTRY_SIZE)) (\<lambda>table_len.
         try_res (ok_or OutOfBounds (checked_add_usize HEADER_SIZE table_len)) (\<lambda>table_end.
         if table_end > length img then Inl OutOfBounds
         else Inr \<lparr>file_count = file_count\<rparr>))))"

definition fs_entry_at :: "bytes \<Rightarrow> nat \<Rightarrow> FsError + FileRecord" where
  "fs_entry_at img idx =
     try_res (ok_or OutOfBounds (checked_mul_usize idx ENTRY_SIZE)) (\<lambda>off.
     try_res (ok_or OutOfBounds (checked_add_usize HEADER_SIZE off)) (\<lambda>start.
     try_res (ok_or OutOfBounds (checked_add_usize start ENTRY_SIZE)) (\<lambda>end.
     if end > length img then Inl OutOfBounds
     else
       (let e = sub_slice start ENTRY_SIZE img;
            name_len = unat (from_le [e ! 0, e ! 1] :: u16)
        in if name_len = 0 \<or> name_len > NAME_CAP then Inl InvalidName
           else
             (let offset = unat (from_le [e ! 4, e ! 5, e ! 6, e ! 7] :: u32);
                  size = unat (from_le [e ! 8, e ! 9, e ! 10, e ! 11] :: u32);
                  mode = (from_le [e ! 12, e ! 13] :: u16);
                  name_bytes = sub_slice 16 name_len e
              in try_res (ok_or InvalidName (from_utf8 name_bytes)) (\<lambda>name.
                 try_res (ok_or OutOfBounds (checked_add_usize offset size)) (\<lambda>data_end.
                 if data_end > length img then Inl OutOfBounds
                 else Inr \<lparr>fr_name = name, fr_mode = mode,
                           fr_data = sub_slice offset size img\<rparr>)))))))"

text \<open>The scan of \<open>open\<close>: \<open>n\<close> entries remain, the next is \<open>i\<close>.\<close>

fun open_from :: "bytes \<Rightarrow> bytes \<Rightarrow> nat \<Rightarrow> nat \<Rightarrow> FsError + FileRecord" where
  "open_from img wanted i 0 = Inl NotFound"
| "open_from img wanted i (Suc n) =
     try_res (fs_entry_at img i) (\<lambda>rec.
       if fr_name rec = wanted then Inr rec else open_from img wanted (Suc i) n)"

definition fs_open :: "bytes \<Rightarrow> bytes \<Rightarrow> FsError + FileRecord" where
  "fs_open img wanted =
     try_res (fs_header img) (\<lambda>hdr. open_from img wanted 0 (unat (file_count hdr)))"

definition fs_entry :: "bytes \<Rightarrow> nat \<Rightarrow> FsError + FileRecord" where
  "fs_entry img idx =
     try_res (fs_header img) (\<lambda>hdr.
       if idx \<ge> unat (file_count hdr) then Inl NotFound else fs_entry_at img idx)"

text \<open>
  \<open>list\<close> calls a closure on each record until the first bad entry: the closure's calls
  are the list of records, with the error that ended the scan (\<open>None\<close> for \<open>Ok(())\<close>).
\<close>

fun list_from :: "bytes \<Rightarrow> nat \<Rightarrow> nat \<Rightarrow> FileRecord list \<times> FsError option" where
  "list_from img i 0 = ([], None)"
| "list_from img i (Suc n) =
     (case fs_entry_at img i of
        Inl e \<Rightarrow> ([], Some e)
      | Inr rec \<Rightarrow> (let (rs, e) = list_from img (Suc i) n in (rec # rs, e)))"

definition fs_list :: "bytes \<Rightarrow> FileRecord list \<times> FsError option" where
  "fs_list img =
     (case fs_header img of
        Inl e \<Rightarrow> ([], Some e)
      | Inr hdr \<Rightarrow> list_from img 0 (unat (file_count hdr)))"

section \<open>What the operations promise\<close>

text \<open>The fields of the table entry \<open>e\<close>, and the record it decodes to.\<close>

definition ent_name_len :: "bytes \<Rightarrow> nat" where
  "ent_name_len e = unat (from_le [e ! 0, e ! 1] :: u16)"

definition ent_offset :: "bytes \<Rightarrow> nat" where
  "ent_offset e = unat (from_le [e ! 4, e ! 5, e ! 6, e ! 7] :: u32)"

definition ent_size :: "bytes \<Rightarrow> nat" where
  "ent_size e = unat (from_le [e ! 8, e ! 9, e ! 10, e ! 11] :: u32)"

lemmas ent_defs = ent_name_len_def ent_offset_def ent_size_def

lemma entry_at_iff:
  "fs_entry_at img i = Inr r \<longleftrightarrow>
     (let e = sub_slice (12 + i * 64) 64 img in
      12 + i * 64 + 64 < usize_bound \<and> 12 + i * 64 + 64 \<le> length img \<and>
      0 < ent_name_len e \<and> ent_name_len e \<le> 48 \<and>
      utf8_valid (sub_slice 16 (ent_name_len e) e) \<and>
      ent_offset e + ent_size e \<le> length img \<and>
      r = \<lparr>fr_name = sub_slice 16 (ent_name_len e) e, fr_mode = from_le [e ! 12, e ! 13],
           fr_data = sub_slice (ent_offset e) (ent_size e) img\<rparr>)"
proof -
  have "ent_offset e + ent_size e < usize_bound" for e
    unfolding ent_defs
    using unat_u32_bound [of "from_le [e ! 4, e ! 5, e ! 6, e ! 7]"]
      unat_u32_bound [of "from_le [e ! 8, e ! 9, e ! 10, e ! 11]"] by linarith
  then show ?thesis
    unfolding fs_entry_at_def Let_def ent_defs [symmetric]
    by (auto simp: try_res_Inr_iff checked_mul_usize_def checked_add_usize_def
        from_utf8_Some_iff fs_consts)
qed

lemma entry_at_ok:
  assumes "fs_entry_at img i = Inr r"
  shows "0 < length (fr_name r)" "length (fr_name r) \<le> NAME_CAP" "utf8_valid (fr_name r)"
    "HEADER_SIZE + Suc i * ENTRY_SIZE \<le> length img"
    "\<exists>off. off + length (fr_data r) \<le> length img
           \<and> fr_data r = sub_slice off (length (fr_data r)) img"
    "length (fr_data r) < u32_bound"
proof -
  define e where "e = sub_slice (12 + i * 64) 64 img"
  note r = assms [unfolded entry_at_iff, folded e_def, unfolded Let_def]
  then have "length e = 64" by (simp add: e_def)
  with r have "length (fr_name r) = ent_name_len e" by auto
  with r show "0 < length (fr_name r)" "length (fr_name r) \<le> NAME_CAP" by (auto simp: fs_consts)
  from r show "utf8_valid (fr_name r)" "HEADER_SIZE + Suc i * ENTRY_SIZE \<le> length img"
    by (auto simp: fs_consts)
  from r have "ent_offset e + length (fr_data r) \<le> length img
      \<and> fr_data r = sub_slice (ent_offset e) (length (fr_data r)) img"
    by auto
  then show "\<exists>off. off + length (fr_data r) \<le> length img
      \<and> fr_data r = sub_slice off (length (fr_data r)) img" ..
  have "ent_size e < u32_bound" unfolding ent_size_def by (rule unat_u32_bound)
  with r show "length (fr_data r) < u32_bound" by auto
qed

lemma header_ok:
  "fs_header img = Inr hdr \<longleftrightarrow>
     12 \<le> length img \<and> sub_slice 0 4 img = FS_MAGIC \<and> from_le [img ! 4, img ! 5] = (1 :: u16) \<and>
     file_count hdr = from_le [img ! 6, img ! 7] \<and>
     12 + 64 * unat (file_count hdr) \<le> length img"
proof -
  define c :: u16 where "c = from_le [img ! 6, img ! 7]"
  have "unat c * 64 < usize_bound" "12 + unat c * 64 < usize_bound"
    using unat_u16_bound [of c] by linarith+
  then show ?thesis
    unfolding fs_header_def Let_def c_def [symmetric]
    by (cases hdr)
       (auto simp: try_res_Inr_iff checked_mul_usize_def checked_add_usize_def fs_consts)
qed

text \<open>
  The contract of a directory scan, as the system calls and the shell commands rely on it:
  looking a name up gives the first record of that name, and stops at a bad record.
\<close>

locale directory =
  fixes count :: "'d \<Rightarrow> 'e + nat"
    and entry :: "'d \<Rightarrow> nat \<Rightarrow> 'e + 'r"
    and lookup :: "'d \<Rightarrow> 'n \<Rightarrow> 'e + 'r"
    and name_of :: "'r \<Rightarrow> 'n"
    and absent :: 'e
  assumes lookup_no_header: "count d = Inl e \<Longrightarrow> lookup d n = Inl e"
    and lookup_hit: "count d = Inr c \<Longrightarrow> i < c \<Longrightarrow> entry d i = Inr r \<Longrightarrow> name_of r = n \<Longrightarrow>
      (\<And>j. j < i \<Longrightarrow> \<exists>q. entry d j = Inr q \<and> name_of q \<noteq> n) \<Longrightarrow> lookup d n = Inr r"
    and lookup_bad: "count d = Inr c \<Longrightarrow> i < c \<Longrightarrow> entry d i = Inl e \<Longrightarrow>
      (\<And>j. j < i \<Longrightarrow> \<exists>q. entry d j = Inr q \<and> name_of q \<noteq> n) \<Longrightarrow> lookup d n = Inl e"
    and lookup_miss: "count d = Inr c \<Longrightarrow>
      (\<And>j. j < c \<Longrightarrow> \<exists>q. entry d j = Inr q \<and> name_of q \<noteq> n) \<Longrightarrow> lookup d n = Inl absent"
begin

definition passed :: "'d \<Rightarrow> 'n \<Rightarrow> nat \<Rightarrow> bool" where
  "passed d n i \<longleftrightarrow> (\<forall>j<i. \<exists>q. entry d j = Inr q \<and> name_of q \<noteq> n)"

lemma scan_cases:
  obtains (all) "passed d n c"
  | (stop) i where "i < c" "passed d n i" "\<And>q. entry d i = Inr q \<Longrightarrow> name_of q = n"
proof (cases "passed d n c")
  case True
  then show ?thesis by (rule all)
next
  case False
  define P where "P = (\<lambda>j. j < c \<and> (\<forall>q. entry d j = Inr q \<longrightarrow> name_of q = n))"
  have P_iff: "P j \<longleftrightarrow> j < c \<and> (\<forall>q. entry d j = Inr q \<longrightarrow> name_of q = n)" for j
    by (simp add: P_def)
  from False obtain j where "P j" unfolding passed_def P_iff by blast
  then have least: "P (Least P)" by (rule LeastI)
  then have "Least P < c" by (simp only: P_iff)
  moreover have "passed d n (Least P)"
    unfolding passed_def
  proof (intro allI impI)
    fix k assume k: "k < Least P"
    then have "\<not> P k" by (rule not_less_Least)
    moreover have "k < c" using k \<open>Least P < c\<close> by (rule less_trans)
    ultimately show "\<exists>q. entry d k = Inr q \<and> name_of q \<noteq> n" unfolding P_iff by blast
  qed
  ultimately show ?thesis using least stop unfolding P_iff by blast
qed

lemma lookup_found_iff:
  "lookup d n = Inr r \<longleftrightarrow>
     (\<exists>c i. count d = Inr c \<and> i < c \<and> passed d n i \<and> entry d i = Inr r \<and> name_of r = n)"
proof
  assume found: "lookup d n = Inr r"
  then obtain c where c: "count d = Inr c"
    using lookup_no_header by (cases "count d") auto
  show "\<exists>c i. count d = Inr c \<and> i < c \<and> passed d n i \<and> entry d i = Inr r \<and> name_of r = n"
  proof (cases rule: scan_cases [of d n c])
    case all
    have "lookup d n = Inl absent"
      by (rule lookup_miss [OF c]) (use all in \<open>auto simp: passed_def\<close>)
    with found show ?thesis by simp
  next
    case (stop i)
    show ?thesis
    proof (cases "entry d i")
      case (Inl e)
      have "lookup d n = Inl e"
        by (rule lookup_bad [OF c stop(1) Inl]) (use stop(2) in \<open>auto simp: passed_def\<close>)
      with found show ?thesis by simp
    next
      case (Inr q)
      have "lookup d n = Inr q"
        by (rule lookup_hit [OF c stop(1) Inr stop(3) [OF Inr]])
          (use stop(2) in \<open>auto simp: passed_def\<close>)
      with found have "q = r" by simp
      with c stop Inr show ?thesis by blast
    qed
  qed
qed (auto simp: passed_def intro: lookup_hit)

lemma lookup_name: "lookup d n = Inr r \<Longrightarrow> name_of r = n"
  by (auto simp: lookup_found_iff)

lemma lookup_entry: "lookup d n = Inr r \<Longrightarrow> \<exists>i. entry d i = Inr r"
  by (auto simp: lookup_found_iff)

end

lemma open_from_hit:
  "i \<le> k \<Longrightarrow> k < i + n \<Longrightarrow> fs_entry_at img k = Inr r \<Longrightarrow> fr_name r = w \<Longrightarrow>
   (\<And>j. i \<le> j \<Longrightarrow> j < k \<Longrightarrow> \<exists>q. fs_entry_at img j = Inr q \<and> fr_name q \<noteq> w) \<Longrightarrow>
   open_from img w i n = Inr r"
proof (induction n arbitrary: i)
  case 0
  then show ?case by simp
next
  case (Suc n)
  show ?case
  proof (cases "i = k")
    case True
    with Suc.prems show ?thesis by simp
  next
    case False
    with Suc.prems obtain q where q: "fs_entry_at img i = Inr q" "fr_name q \<noteq> w" by force
    have "open_from img w (Suc i) n = Inr r"
      using Suc.prems False by (intro Suc.IH) auto
    with q show ?thesis by simp
  qed
qed

lemma open_from_bad:
  "i \<le> k \<Longrightarrow> k < i + n \<Longrightarrow> fs_entry_at img k = Inl e \<Longrightarrow>
   (\<And>j. i \<le> j \<Longrightarrow> j < k \<Longrightarrow> \<exists>q. fs_entry_at img j = Inr q \<and> fr_name q \<noteq> w) \<Longrightarrow>
   open_from img w i n = Inl e"
proof (induction n arbitrary: i)
  case 0
  then show ?case by simp
next
  case (Suc n)
  show ?case
  proof (cases "i = k")
    case True
    with Suc.prems show ?thesis by simp
  next
    case False
    with Suc.prems obtain q where q: "fs_entry_at img i = Inr q" "fr_name q \<noteq> w" by force
    have "open_from img w (Suc i) n = Inl e"
      using Suc.prems False by (intro Suc.IH) auto
    with q show ?thesis by simp
  qed
qed

lemma open_from_miss:
  "(\<And>j. i \<le> j \<Longrightarrow> j < i + n \<Longrightarrow> \<exists>q. fs_entry_at img j = Inr q \<and> fr_name q \<noteq> w) \<Longrightarrow>
   open_from img w i n = Inl NotFound"
proof (induction n arbitrary: i)
  case 0
  then show ?case by simp
next
  case (Suc n)
  from Suc.prems [of i] obtain q where "fs_entry_at img i = Inr q" "fr_name q \<noteq> w" by force
  moreover have "open_from img w (Suc i) n = Inl NotFound"
    using Suc.prems by (intro Suc.IH) auto
  ultimately show ?case by simp
qed

definition fs_count :: "bytes \<Rightarrow> FsError + nat" where
  "fs_count img = try_res (fs_header img) (\<lambda>hdr. Inr (unat (file_count hdr)))"

lemma fs_count_Inr_iff:
  "fs_count img = Inr c \<longleftrightarrow> (\<exists>hdr. fs_header img = Inr hdr \<and> c = unat (file_count hdr))"
  by (auto simp: fs_count_def try_res_Inr_iff)

interpretation lfs: directory fs_count fs_entry_at fs_open fr_name NotFound
proof unfold_locales
  fix d n e
  assume "fs_count d = Inl e"
  then show "fs_open d n = Inl e" by (auto simp: fs_count_def fs_open_def try_res_Inl_iff)
next
  fix d c i r n
  assume "fs_count d = Inr c" "i < c" "fs_entry_at d i = Inr r" "fr_name r = n"
    "\<And>j. j < i \<Longrightarrow> \<exists>q. fs_entry_at d j = Inr q \<and> fr_name q \<noteq> n"
  then show "fs_open d n = Inr r"
    by (auto simp: fs_count_Inr_iff fs_open_def intro!: open_from_hit)
next
  fix d c i e n
  assume "fs_count d = Inr c" "i < c" "fs_entry_at d i = Inl e"
    "\<And>j. j < i \<Longrightarrow> \<exists>q. fs_entry_at d j = Inr q \<and> fr_name q \<noteq> n"
  then show "fs_open d n = Inl e"
    by (auto simp: fs_count_Inr_iff fs_open_def intro!: open_from_bad)
next
  fix d c n
  assume "fs_count d = Inr c"
    "\<And>j. j < c \<Longrightarrow> \<exists>q. fs_entry_at d j = Inr q \<and> fr_name q \<noteq> n"
  then show "fs_open d n = Inl NotFound"
    by (auto simp: fs_count_Inr_iff fs_open_def intro!: open_from_miss)
qed

lemma open_data_in_image:
  assumes "fs_open img n = Inr r"
  shows "\<exists>off. off + length (fr_data r) \<le> length img
    \<and> fr_data r = sub_slice off (length (fr_data r)) img"
proof -
  obtain i where "fs_entry_at img i = Inr r" using lfs.lookup_entry [OF assms] by blast
  then show ?thesis using entry_at_ok by blast
qed

lemma open_empty_name: "fs_open img [] \<noteq> Inr r"
proof
  assume "fs_open img [] = Inr r"
  then have n: "fr_name r = []" and "\<exists>i. fs_entry_at img i = Inr r"
    by (rule lfs.lookup_name, rule lfs.lookup_entry)
  then obtain i where "fs_entry_at img i = Inr r" by blast
  with entry_at_ok(1) [OF this] n show False by simp
qed

text \<open>\<open>list\<close> reports the records of the table in order, up to the first bad one.\<close>

lemma list_from_spec:
  "list_from img i n = (rs, e) \<Longrightarrow>
     length rs \<le> n \<and> (\<forall>k < length rs. fs_entry_at img (i + k) = Inr (rs ! k)) \<and>
     (case e of None \<Rightarrow> length rs = n
      | Some x \<Rightarrow> length rs < n \<and> fs_entry_at img (i + length rs) = Inl x)"
proof (induction n arbitrary: i rs e)
  case 0
  then show ?case by simp
next
  case (Suc n)
  show ?case
  proof (cases "fs_entry_at img i")
    case (Inl x)
    with Suc.prems show ?thesis by auto
  next
    case (Inr r)
    obtain rs' e' where l: "list_from img (Suc i) n = (rs', e')" by fastforce
    with Inr Suc.prems have "rs = r # rs'" "e = e'" by auto
    with Suc.IH [OF l] Inr show ?thesis
      by (auto simp: nth_Cons split: option.splits nat.splits)
  qed
qed

end
