(* ===== verification/Lfs_Build.thy ===== *)
theory Lfs_Build
  imports Fs
begin

text \<open>
  The image builder of \<open>build.rs\<close>: which files go into the ram disk, and
  \<open>build_lfs1\<close>, which lays them out. A failed \<open>assert!\<close>, \<open>expect\<close> or
  \<open>panic!\<close> of the build script is \<open>None\<close>. The main result is that what the
  builder writes is what the kernel's \<open>fs.rs\<close> reads back.
\<close>

section \<open>The builder\<close>

record BuildFile =
  bf_name :: bytes
  bf_mode :: u16
  bf_data :: bytes

text \<open>The body of the loop over \<open>files\<close>: entry \<open>i\<close>, contents at \<open>cursor\<close>.\<close>

definition write_entry :: "BuildFile \<Rightarrow> nat \<Rightarrow> nat \<Rightarrow> bytes \<Rightarrow> bytes" where
  "write_entry file i cursor blob =
     (let entry_off = 12 + i * ENTRY_SIZE;
          name_len = (of_nat (length (bf_name file)) :: u16);
          offset = (of_nat cursor :: u32);
          size = (of_nat (length (bf_data file)) :: u32);
          blob = put_slice blob entry_off (to_le 2 name_len);
          blob = put_slice blob (entry_off + 4) (to_le 4 offset);
          blob = put_slice blob (entry_off + 8) (to_le 4 size);
          blob = put_slice blob (entry_off + 12) (to_le 2 (bf_mode file));
          blob = put_slice blob (entry_off + 16) (bf_name file)
      in blob @ bf_data file)"

fun write_entries :: "BuildFile list \<Rightarrow> nat \<Rightarrow> nat \<Rightarrow> bytes \<Rightarrow> bytes option" where
  "write_entries [] i cursor blob = Some blob"
| "write_entries (file # files) i cursor blob =
     (if length (bf_name file) \<le> NAME_CAP
      then write_entries files (Suc i) (cursor + length (bf_data file))
             (write_entry file i cursor blob)
      else None)"

definition build_lfs1 :: "BuildFile list \<Rightarrow> bytes option" where
  "build_lfs1 files =
     (let header_size = 12;
          table_size = length files * ENTRY_SIZE;
          blob = replicate (header_size + table_size) 0;
          blob = put_slice blob 0 (str ''LFS1'');
          blob = put_slice blob 4 (to_le 2 (1 :: u16));
          blob = put_slice blob 6 (to_le 2 (of_nat (length files) :: u16));
          cursor = header_size + table_size
      in write_entries files 0 cursor blob)"

text \<open>
  What the build script finds at a path: nothing, something \<open>fs::read\<close> cannot read,
  or the contents.
\<close>

datatype host_file = Absent | Unreadable | Contents bytes

definition maybe_add_file ::
  "(string \<Rightarrow> host_file) \<Rightarrow> BuildFile list \<Rightarrow> string \<Rightarrow> string \<Rightarrow> u16 \<Rightarrow> BuildFile list option" where
  "maybe_add_file host files name path mode =
     (case host path of
        Absent \<Rightarrow> Some files
      | Unreadable \<Rightarrow> None
      | Contents data \<Rightarrow>
          Some (files @ [\<lparr>bf_name = str name, bf_mode = mode, bf_data = data\<rparr>]))"

text \<open>\<open>0o100644\<close> and \<open>0o100755\<close>.\<close>

abbreviation mode_644 :: u16 where "mode_644 \<equiv> 0x81A4"
abbreviation mode_755 :: u16 where "mode_755 \<equiv> 0x81ED"

definition ramdisk_files :: "(string \<Rightarrow> host_file) \<Rightarrow> BuildFile list option" where
  "ramdisk_files host =
     (let initrd = (case host ''ramdisk/initrd.txt'' of
                      Contents d \<Rightarrow> d | _ \<Rightarrow> str ''LeonOS 3 ramdisk'' @ [0x0A]);
          files = [\<lparr>bf_name = str ''initrd.txt'', bf_mode = mode_644, bf_data = initrd\<rparr>]
      in Option.bind (maybe_add_file host files ''hello_world'' ''userspace/hello_world'' mode_755)
         (\<lambda>files. Option.bind
            (maybe_add_file host files ''c_hello_name'' ''userspace/c_hello_name'' mode_755)
         (\<lambda>files. Option.bind (maybe_add_file host files ''exit7'' ''userspace/exit7'' mode_755)
         (\<lambda>files. Option.bind
            (maybe_add_file host files ''wait4_echild'' ''userspace/wait4_echild'' mode_755)
         (\<lambda>files. Option.bind
            (maybe_add_file host files ''wait4_reap'' ''userspace/wait4_reap'' mode_755)
         (\<lambda>files. Option.bind
            (case host ''userspace/busybox'' of
               Absent \<Rightarrow> Some files
             | Unreadable \<Rightarrow> None
             | Contents bin \<Rightarrow>
                 Some (files @ [\<lparr>bf_name = str ''busybox'', bf_mode = mode_755, bf_data = bin\<rparr>,
                                \<lparr>bf_name = str ''sh'', bf_mode = mode_755, bf_data = bin\<rparr>]))
         (\<lambda>files.
            (case host ''userspace/sbase-box'' of
               Absent \<Rightarrow> Some files
             | Unreadable \<Rightarrow> None
             | Contents bin \<Rightarrow>
                 Some (files @ [\<lparr>bf_name = str ''sbase'', bf_mode = mode_755,
                                 bf_data = bin\<rparr>])))))))))"

definition build_ramdisk :: "(string \<Rightarrow> host_file) \<Rightarrow> bytes option" where
  "build_ramdisk host = Option.bind (ramdisk_files host) build_lfs1"

section \<open>The layout in closed form\<close>

text \<open>The 64 bytes of one table entry.\<close>

definition entry_bytes :: "BuildFile \<Rightarrow> nat \<Rightarrow> bytes" where
  "entry_bytes f cursor =
     to_le 2 (of_nat (length (bf_name f)) :: u16) @ [0, 0] @ to_le 4 (of_nat cursor :: u32) @
     to_le 4 (of_nat (length (bf_data f)) :: u32) @ to_le 2 (bf_mode f) @ [0, 0] @
     bf_name f @ replicate (48 - length (bf_name f)) 0"

fun table_bytes :: "BuildFile list \<Rightarrow> nat \<Rightarrow> bytes" where
  "table_bytes [] cursor = []"
| "table_bytes (f # fs) cursor =
     entry_bytes f cursor @ table_bytes fs (cursor + length (bf_data f))"

definition data_bytes :: "BuildFile list \<Rightarrow> bytes" where
  "data_bytes fs = concat (map bf_data fs)"

text \<open>Where file \<open>i\<close> starts: after the header, the table and the files before it.\<close>

definition data_offset :: "BuildFile list \<Rightarrow> nat \<Rightarrow> nat" where
  "data_offset fs i = 12 + 64 * length fs + length (data_bytes (take i fs))"

lemma length_entry_bytes [simp]: "length (bf_name f) \<le> 48 \<Longrightarrow> length (entry_bytes f c) = 64"
  by (simp add: entry_bytes_def)

lemma length_table_bytes:
  "\<forall>f \<in> set fs. length (bf_name f) \<le> 48 \<Longrightarrow> length (table_bytes fs c) = 64 * length fs"
  by (induction fs arbitrary: c) auto

lemma put_slice_middle:
  "k + length ys \<le> length mid \<Longrightarrow>
   put_slice (pre @ mid @ post) (length pre + k) ys = pre @ put_slice mid k ys @ post"
  by (simp add: put_slice_def)

lemma put_slice_at:
  "length pre = i \<Longrightarrow> length xs = length ys \<Longrightarrow> put_slice (pre @ xs @ post) i ys = pre @ ys @ post"
  by (simp add: put_slice_def)

lemma entry_puts:
  assumes "length (bf_name f) \<le> 48"
  shows "put_slice (put_slice (put_slice (put_slice (put_slice (replicate 64 0) 0
      (to_le 2 (of_nat (length (bf_name f)) :: u16))) 4 (to_le 4 (of_nat c :: u32)))
      8 (to_le 4 (of_nat (length (bf_data f)) :: u32))) 12 (to_le 2 (bf_mode f))) 16 (bf_name f)
    = entry_bytes f c"
proof -
  define nl md :: bytes where "nl = to_le 2 (of_nat (length (bf_name f)) :: u16)"
    and "md = to_le 2 (bf_mode f)"
  define off sz :: bytes where "off = to_le 4 (of_nat c :: u32)"
    and "sz = to_le 4 (of_nat (length (bf_data f)) :: u32)"
  note len = nl_def md_def off_def sz_def
  let ?z = "\<lambda>n. replicate n (0 :: u8)"
  let ?k = "length (bf_name f)"
  have z: "?z 64 = ?z 2 @ ?z 2 @ ?z 4 @ ?z 4 @ ?z 2 @ ?z 2 @ ?z ?k @ ?z (48 - ?k)"
    using assms by (simp flip: replicate_add)
  have s1: "put_slice (?z 64) 0 nl = nl @ ?z 2 @ ?z 4 @ ?z 4 @ ?z 2 @ ?z 2 @ ?z ?k @ ?z (48 - ?k)"
    using put_slice_at [of "[]" 0 "?z 2" nl] by (simp add: z len)
  have s2: "put_slice (nl @ ?z 2 @ ?z 4 @ ?z 4 @ ?z 2 @ ?z 2 @ ?z ?k @ ?z (48 - ?k)) 4 off =
      nl @ ?z 2 @ off @ ?z 4 @ ?z 2 @ ?z 2 @ ?z ?k @ ?z (48 - ?k)"
    using put_slice_at [of "nl @ ?z 2" 4 "?z 4" off] by (simp add: len)
  have s3: "put_slice (nl @ ?z 2 @ off @ ?z 4 @ ?z 2 @ ?z 2 @ ?z ?k @ ?z (48 - ?k)) 8 sz =
      nl @ ?z 2 @ off @ sz @ ?z 2 @ ?z 2 @ ?z ?k @ ?z (48 - ?k)"
    using put_slice_at [of "nl @ ?z 2 @ off" 8 "?z 4" sz] by (simp add: len)
  have s4: "put_slice (nl @ ?z 2 @ off @ sz @ ?z 2 @ ?z 2 @ ?z ?k @ ?z (48 - ?k)) 12 md =
      nl @ ?z 2 @ off @ sz @ md @ ?z 2 @ ?z ?k @ ?z (48 - ?k)"
    using put_slice_at [of "nl @ ?z 2 @ off @ sz" 12 "?z 2" md]
    by (simp add: len)
  have s5: "put_slice (nl @ ?z 2 @ off @ sz @ md @ ?z 2 @ ?z ?k @ ?z (48 - ?k)) 16 (bf_name f) =
      nl @ ?z 2 @ off @ sz @ md @ ?z 2 @ bf_name f @ ?z (48 - ?k)"
    using put_slice_at [of "nl @ ?z 2 @ off @ sz @ md @ ?z 2" 16 "?z ?k" "bf_name f"]
    by (simp add: len)
  show ?thesis
    unfolding len [symmetric] s1 s2 s3 s4 s5 by (simp add: entry_bytes_def len numeral_2_eq_2)
qed

lemma write_entry_layout:
  assumes "length (bf_name f) \<le> 48" "length pre = 12 + i * 64"
  shows "write_entry f i c (pre @ replicate 64 0 @ post) =
    pre @ entry_bytes f c @ post @ bf_data f"
proof -
  have off: "12 + i * ENTRY_SIZE = length pre" using assms by (simp add: fs_consts)
  have put: "put_slice (pre @ mid @ post) (length pre + k) ys = pre @ put_slice mid k ys @ post
      \<and> length (put_slice mid k ys) = 64"
    if "length mid = 64" "k + length ys \<le> 64" for mid k and ys :: bytes
    using that by (simp add: put_slice_middle)
  show ?thesis
    using put_slice_middle [of 0 "to_le 2 (of_nat (length (bf_name f)) :: u16)" "replicate 64 0"]
      assms(1)
    by (simp add: write_entry_def Let_def off put entry_puts)
qed

lemma write_entries_layout:
  assumes "\<forall>f \<in> set fs. length (bf_name f) \<le> 48" "length pre = 12 + i * 64"
  shows "write_entries fs i c (pre @ replicate (64 * length fs) 0 @ post) =
    Some (pre @ table_bytes fs c @ post @ data_bytes fs)"
  using assms
proof (induction fs arbitrary: i c pre post)
  case Nil
  then show ?case by (simp add: data_bytes_def)
next
  case (Cons f fs)
  have split: "replicate (64 * length (f # fs)) (0 :: u8) =
      replicate 64 0 @ replicate (64 * length fs) 0"
    by (simp flip: replicate_add)
  have "write_entries (f # fs) i c (pre @ replicate (64 * length (f # fs)) 0 @ post) =
      write_entries fs (Suc i) (c + length (bf_data f))
        ((pre @ entry_bytes f c) @ replicate (64 * length fs) 0 @ post @ bf_data f)"
    unfolding split append_assoc write_entries.simps using Cons.prems
    by (subst write_entry_layout) (simp_all add: fs_consts)
  also have "\<dots> = Some ((pre @ entry_bytes f c) @ table_bytes fs (c + length (bf_data f)) @
      (post @ bf_data f) @ data_bytes fs)"
    using Cons.prems Cons.IH [of "pre @ entry_bytes f c" "Suc i" "c + length (bf_data f)" "post @ bf_data f"]
    by simp
  finally show ?case by (simp add: data_bytes_def)
qed

definition header_bytes :: "nat \<Rightarrow> bytes" where
  "header_bytes n = str ''LFS1'' @ to_le 2 (1 :: u16) @ to_le 2 (of_nat n :: u16) @ [0, 0, 0, 0]"

lemma length_header_bytes [simp]: "length (header_bytes n) = 12"
  by (simp add: header_bytes_def str_def)

lemma build_layout:
  assumes "\<forall>f \<in> set fs. length (bf_name f) \<le> 48"
  shows "build_lfs1 fs = Some (header_bytes (length fs) @
    table_bytes fs (12 + 64 * length fs) @ data_bytes fs)"
proof -
  define vs n :: bytes where "vs = to_le 2 (1 :: u16)" and "n = to_le 2 (of_nat (length fs) :: u16)"
  let ?z = "\<lambda>n. replicate n (0 :: u8)"
  let ?t = "?z (64 * length fs)"
  have s0: "?z (12 + length fs * 64) = ?z 4 @ ?z 2 @ ?z 2 @ ?z 4 @ ?t"
    by (simp add: mult.commute flip: replicate_add)
  have s1: "put_slice (?z 4 @ ?z 2 @ ?z 2 @ ?z 4 @ ?t) 0 (str ''LFS1'') =
      str ''LFS1'' @ ?z 2 @ ?z 2 @ ?z 4 @ ?t"
    using put_slice_at [of "[]" 0 "?z 4" "str ''LFS1''"] by (simp add: str_def)
  have s2: "put_slice (str ''LFS1'' @ ?z 2 @ ?z 2 @ ?z 4 @ ?t) 4 vs =
      str ''LFS1'' @ vs @ ?z 2 @ ?z 4 @ ?t"
    using put_slice_at [of "str ''LFS1''" 4 "?z 2" vs] by (simp add: str_def vs_def)
  have s3: "put_slice (str ''LFS1'' @ vs @ ?z 2 @ ?z 4 @ ?t) 6 n = str ''LFS1'' @ vs @ n @ ?z 4 @ ?t"
    using put_slice_at [of "str ''LFS1'' @ vs" 6 "?z 2" n]
    by (simp add: str_def vs_def n_def)
  have "build_lfs1 fs = write_entries fs 0 (12 + length fs * 64)
      ((str ''LFS1'' @ vs @ n @ ?z 4) @ ?t @ [])"
    unfolding build_lfs1_def Let_def ENTRY_SIZE_def vs_def [symmetric] n_def [symmetric] s0 s1 s2 s3
    by simp
  moreover have "str ''LFS1'' @ vs @ n @ ?z 4 = header_bytes (length fs)"
    by (simp add: header_bytes_def vs_def n_def numeral_Bit0)
  ultimately show ?thesis
    using write_entries_layout [OF assms, of "header_bytes (length fs)" 0 _ "[]"]
    by (simp add: mult.commute)
qed

section \<open>The kernel reads back what the builder wrote\<close>

lemma table_slice:
  "\<forall>f \<in> set fs. length (bf_name f) \<le> 48 \<Longrightarrow> i < length fs \<Longrightarrow>
   sub_slice (64 * i) 64 (table_bytes fs c) =
     entry_bytes (fs ! i) (c + length (data_bytes (take i fs)))"
proof (induction fs arbitrary: i c)
  case Nil
  then show ?case by simp
next
  case (Cons f fs)
  show ?case
  proof (cases i)
    case 0
    with Cons.prems have "sub_slice 0 64 (entry_bytes f c @ xs) = entry_bytes f c" for xs
      using sub_slice_full [of "entry_bytes f c"] by (simp add: sub_slice_append_left)
    with 0 show ?thesis by (simp add: data_bytes_def)
  next
    case (Suc j)
    with Cons show ?thesis
      by (simp add: sub_slice_append_right data_bytes_def add.assoc)
  qed
qed

lemma data_slice:
  "i < length fs \<Longrightarrow>
   sub_slice (length (data_bytes (take i fs))) (length (bf_data (fs ! i))) (data_bytes fs) =
     bf_data (fs ! i)"
proof -
  assume i: "i < length fs"
  have "data_bytes fs = data_bytes (take i fs) @ bf_data (fs ! i) @ data_bytes (drop (Suc i) fs)"
    using id_take_nth_drop [OF i] unfolding data_bytes_def
    by (metis append.assoc concat.simps(2) concat_append list.simps(9) map_append)
  then show ?thesis by (simp add: sub_slice_def)
qed

lemma data_end_bound:
  "i < length fs \<Longrightarrow>
   length (data_bytes (take i fs)) + length (bf_data (fs ! i)) \<le> length (data_bytes fs)"
proof -
  assume i: "i < length fs"
  have "data_bytes fs = data_bytes (take i fs) @ bf_data (fs ! i) @ data_bytes (drop (Suc i) fs)"
    using id_take_nth_drop [OF i] unfolding data_bytes_def
    by (metis append.assoc concat.simps(2) concat_append list.simps(9) map_append)
  then show ?thesis by (metis length_append add_left_mono le_add1)
qed

text \<open>The decoder's view of an encoded entry.\<close>

lemma entry_bytes_fields:
  assumes "length (bf_name f) \<le> 48" "c < 2 ^ 32" "length (bf_data f) < 2 ^ 32"
  defines "e \<equiv> entry_bytes f c"
  shows "ent_name_len e = length (bf_name f)" "ent_offset e = c"
    "ent_size e = length (bf_data f)" "from_le [e ! 12, e ! 13] = bf_mode f"
    "sub_slice 16 (length (bf_name f)) e = bf_name f"
proof -
  have len: "length e = 64" using assms by simp
  have n: "[e ! 0, e ! 1] = to_le 2 (of_nat (length (bf_name f)) :: u16)"
    using pair_slice [of 0 e] len
    by (simp add: e_def entry_bytes_def sub_slice_append_left sub_slice_def)
  have o: "[e ! 4, e ! 5, e ! 6, e ! 7] = to_le 4 (of_nat c :: u32)"
    using quad_slice [of 4 e] len
    by (simp add: e_def entry_bytes_def sub_slice_def)
  have s: "[e ! 8, e ! 9, e ! 10, e ! 11] = to_le 4 (of_nat (length (bf_data f)) :: u32)"
    using quad_slice [of 8 e] len
    by (simp add: e_def entry_bytes_def sub_slice_def)
  have m: "[e ! 12, e ! 13] = to_le 2 (bf_mode f)"
    using pair_slice [of 12 e] len
    by (simp add: e_def entry_bytes_def sub_slice_def)
  show "ent_name_len e = length (bf_name f)"
    unfolding ent_name_len_def n using assms(1) by (simp add: unat_of_nat)
  show "ent_offset e = c" "ent_size e = length (bf_data f)"
    unfolding ent_offset_def ent_size_def o s using assms(2,3) by (simp_all add: unat_of_nat)
  show "from_le [e ! 12, e ! 13] = bf_mode f" unfolding m by simp
  show "sub_slice 16 (length (bf_name f)) e = bf_name f"
    by (simp add: e_def entry_bytes_def sub_slice_def)
qed

text \<open>The files the format can represent.\<close>

definition lfs_files :: "BuildFile list \<Rightarrow> bool" where
  "lfs_files fs \<longleftrightarrow>
     (\<forall>f \<in> set fs. bf_name f \<noteq> [] \<and> length (bf_name f) \<le> 48 \<and> utf8_valid (bf_name f)) \<and>
     length fs < 65536 \<and> 12 + 64 * length fs + length (data_bytes fs) < 2 ^ 32"

definition record_of :: "BuildFile \<Rightarrow> FileRecord" where
  "record_of f = \<lparr>fr_name = bf_name f, fr_mode = bf_mode f, fr_data = bf_data f\<rparr>"

lemma build_header:
  assumes "lfs_files fs" "build_lfs1 fs = Some img"
  shows "fs_header img = Inr \<lparr>file_count = of_nat (length fs)\<rparr>"
proof -
  let ?t = "table_bytes fs (12 + 64 * length fs) @ data_bytes fs"
  have names: "\<forall>f \<in> set fs. length (bf_name f) \<le> 48" and n: "length fs < 65536"
    using assms by (auto simp: lfs_files_def)
  have img: "img = header_bytes (length fs) @ ?t"
    using assms build_layout [OF names] by simp
  have len: "12 + 64 * length fs \<le> length img"
    using length_table_bytes [OF names] by (simp add: img)
  have "sub_slice 0 4 img = FS_MAGIC"
    by (simp add: img header_bytes_def sub_slice_def str_def fs_consts)
  moreover have "[img ! 4, img ! 5] = to_le 2 (1 :: u16)"
    using pair_slice [of 4 img] len by (simp add: img header_bytes_def str_def sub_slice_def)
  moreover have "[img ! 6, img ! 7] = to_le 2 (of_nat (length fs) :: u16)"
    using pair_slice [of 6 img] len by (simp add: img header_bytes_def str_def sub_slice_def)
  ultimately show ?thesis
    unfolding header_ok using n len by (simp add: unat_of_nat)
qed

lemma build_entry:
  assumes "lfs_files fs" "build_lfs1 fs = Some img" "i < length fs"
  shows "fs_entry_at img i = Inr (record_of (fs ! i))"
proof -
  define c where "c = 12 + 64 * length fs + length (data_bytes (take i fs))"
  let ?f = "fs ! i" and ?t = "table_bytes fs (12 + 64 * length fs)"
  have f: "bf_name ?f \<noteq> []" "length (bf_name ?f) \<le> 48" "utf8_valid (bf_name ?f)"
    and names: "\<forall>f \<in> set fs. length (bf_name f) \<le> 48" and n: "length fs < 65536"
    and size: "12 + 64 * length fs + length (data_bytes fs) < 2 ^ 32"
    using assms by (auto simp: lfs_files_def)
  have img: "img = header_bytes (length fs) @ ?t @ data_bytes fs"
    using assms(2) build_layout [OF names] by simp
  have lt: "length ?t = 64 * length fs" by (rule length_table_bytes [OF names])
  have e: "sub_slice (12 + i * 64) 64 img = entry_bytes ?f c"
    using table_slice [OF names assms(3)] assms(3) lt
    by (simp add: img sub_slice_append_right sub_slice_append_left c_def mult.commute)
  have dend: "c + length (bf_data ?f) \<le> 12 + 64 * length fs + length (data_bytes fs)"
    using data_end_bound [OF assms(3)] by (simp add: c_def)
  have d: "sub_slice c (length (bf_data ?f)) img = bf_data ?f"
    using data_slice [OF assms(3)] lt by (simp add: img c_def sub_slice_append_right)
  have "c < 2 ^ 32" "length (bf_data ?f) < 2 ^ 32" using dend size by linarith+
  note fields = entry_bytes_fields [OF f(2) this]
  have "length img = 12 + 64 * length fs + length (data_bytes fs)" by (simp add: img lt)
  with f n dend assms(3) show ?thesis
    unfolding entry_at_iff Let_def e fields d by (simp add: record_of_def)
qed

lemma build_open:
  assumes "lfs_files fs" "build_lfs1 fs = Some img"
  shows "fs_open img name =
    (case find (\<lambda>f. bf_name f = name) fs of None \<Rightarrow> Inl NotFound | Some f \<Rightarrow> Inr (record_of f))"
proof -
  have count: "fs_count img = Inr (length fs)"
    using build_header [OF assms] assms(1)
    by (simp add: fs_count_def lfs_files_def unat_of_nat)
  note entry = build_entry [OF assms]
  show ?thesis
  proof (cases "find (\<lambda>f. bf_name f = name) fs")
    case None
    then have "fs_open img name = Inl NotFound"
      by (intro lfs.lookup_miss [OF count])
        (auto simp: entry find_None_iff record_of_def in_set_conv_nth)
    with None show ?thesis by simp
  next
    case (Some f)
    then obtain i where i: "i < length fs" "f = fs ! i" "bf_name f = name"
      "\<forall>j < i. bf_name (fs ! j) \<noteq> name"
      unfolding find_Some_iff by blast
    then have "fs_open img name = Inr (record_of f)"
      by (intro lfs.lookup_hit [OF count i(1)]) (auto simp: entry record_of_def)
    with Some show ?thesis by simp
  qed
qed

end
