(* ===== verification/Elf.thy ===== *)
theory Elf
  imports Prelude
begin

text \<open>
  The ELF64 parser (\<open>kernel/src/elf.rs\<close>): header checks, then the \<open>PT_LOAD\<close> entries
  of the program header table. \<open>read_unaligned\<close> of a \<open>repr(C)\<close> struct is the decoding
  of its fields at their offsets, little-endian.
\<close>

section \<open>Data\<close>

record LoadSegment =
  vaddr :: u64
  mem_size :: u64
  file_offset :: u64
  file_size :: u64
  seg_flags :: u32

record ElfImage =
  entry :: u64
  e_type :: u16
  segments :: "LoadSegment list"

datatype ElfError =
    ElfTooSmall | ElfBadMagic | UnsupportedClass | UnsupportedEndian | UnsupportedMachine | BadHeader

record Elf64Ehdr =
  e_ident :: bytes
  eh_type :: u16
  e_machine :: u16
  e_version :: u32
  e_entry :: u64
  e_phoff :: u64
  e_shoff :: u64
  e_flags :: u32
  e_ehsize :: u16
  e_phentsize :: u16
  e_phnum :: u16
  e_shentsize :: u16
  e_shnum :: u16
  e_shstrndx :: u16

record Elf64Phdr =
  p_type :: u32
  p_flags :: u32
  p_offset :: u64
  p_vaddr :: u64
  p_paddr :: u64
  p_filesz :: u64
  p_memsz :: u64
  p_align :: u64

definition EI_CLASS :: nat where "EI_CLASS = 4"
definition EI_DATA :: nat where "EI_DATA = 5"
definition ELFCLASS64 :: u8 where "ELFCLASS64 = 2"
definition ELFDATA2LSB :: u8 where "ELFDATA2LSB = 1"
definition EM_X86_64 :: u16 where "EM_X86_64 = 62"
definition PT_LOAD :: u32 where "PT_LOAD = 1"

lemmas elf_consts = EI_CLASS_def EI_DATA_def ELFCLASS64_def ELFDATA2LSB_def EM_X86_64_def PT_LOAD_def

text \<open>\<open>size_of\<close> of the two structs.\<close>

abbreviation ehdr_size :: nat where "ehdr_size \<equiv> 64"
abbreviation phdr_size :: nat where "phdr_size \<equiv> 56"

section \<open>The parser\<close>

definition read_ehdr :: "bytes \<Rightarrow> Elf64Ehdr" where
  "read_ehdr b =
     \<lparr>e_ident = sub_slice 0 16 b, eh_type = from_le (sub_slice 16 2 b),
      e_machine = from_le (sub_slice 18 2 b), e_version = from_le (sub_slice 20 4 b),
      e_entry = from_le (sub_slice 24 8 b), e_phoff = from_le (sub_slice 32 8 b),
      e_shoff = from_le (sub_slice 40 8 b), e_flags = from_le (sub_slice 48 4 b),
      e_ehsize = from_le (sub_slice 52 2 b), e_phentsize = from_le (sub_slice 54 2 b),
      e_phnum = from_le (sub_slice 56 2 b), e_shentsize = from_le (sub_slice 58 2 b),
      e_shnum = from_le (sub_slice 60 2 b), e_shstrndx = from_le (sub_slice 62 2 b)\<rparr>"

definition read_phdr :: "bytes \<Rightarrow> nat \<Rightarrow> Elf64Phdr" where
  "read_phdr b off =
     \<lparr>p_type = from_le (sub_slice off 4 b), p_flags = from_le (sub_slice (off + 4) 4 b),
      p_offset = from_le (sub_slice (off + 8) 8 b), p_vaddr = from_le (sub_slice (off + 16) 8 b),
      p_paddr = from_le (sub_slice (off + 24) 8 b), p_filesz = from_le (sub_slice (off + 32) 8 b),
      p_memsz = from_le (sub_slice (off + 40) 8 b), p_align = from_le (sub_slice (off + 48) 8 b)\<rparr>"

definition load_segment :: "Elf64Phdr \<Rightarrow> LoadSegment" where
  "load_segment ph =
     \<lparr>vaddr = p_vaddr ph, mem_size = p_memsz ph, file_offset = p_offset ph,
      file_size = p_filesz ph, seg_flags = p_flags ph\<rparr>"

text \<open>The loop over the table: \<open>n\<close> headers remain, the next has index \<open>i\<close>.\<close>

fun read_segments :: "bytes \<Rightarrow> nat \<Rightarrow> nat \<Rightarrow> nat \<Rightarrow> nat \<Rightarrow> LoadSegment list" where
  "read_segments b phoff phentsize i 0 = []"
| "read_segments b phoff phentsize i (Suc n) =
     (let ph = read_phdr b (phoff + i * phentsize);
          rest = read_segments b phoff phentsize (Suc i) n
      in if p_type ph = PT_LOAD then load_segment ph # rest else rest)"

definition parse_elf64 :: "bytes \<Rightarrow> ElfError + ElfImage" where
  "parse_elf64 b =
     (if length b < ehdr_size then Inl ElfTooSmall
      else
        (let ehdr = read_ehdr b in
         if sub_slice 0 4 (e_ident ehdr) \<noteq> [0x7F] @ str ''ELF'' then Inl ElfBadMagic
         else if e_ident ehdr ! EI_CLASS \<noteq> ELFCLASS64 then Inl UnsupportedClass
         else if e_ident ehdr ! EI_DATA \<noteq> ELFDATA2LSB then Inl UnsupportedEndian
         else if e_machine ehdr \<noteq> EM_X86_64 then Inl UnsupportedMachine
         else if unat (e_phentsize ehdr) \<noteq> phdr_size then Inl BadHeader
         else
           (let phoff = unat (e_phoff ehdr); phnum = unat (e_phnum ehdr);
                phentsize = unat (e_phentsize ehdr)
            in try_res (ok_or BadHeader (checked_mul_usize phnum phentsize)) (\<lambda>table_len.
               try_res (ok_or BadHeader (checked_add_usize phoff table_len)) (\<lambda>end.
               if end > length b then Inl BadHeader
               else Inr \<lparr>entry = e_entry ehdr, e_type = eh_type ehdr,
                         segments = read_segments b phoff phentsize 0 phnum\<rparr>)))))"

section \<open>What the parser promises\<close>

lemma read_segments_eq:
  "read_segments b phoff phentsize i n =
     map load_segment (filter (\<lambda>ph. p_type ph = PT_LOAD)
       (map (\<lambda>k. read_phdr b (phoff + k * phentsize)) [i..<i + n]))"
proof (induction n arbitrary: i)
  case 0
  then show ?case by simp
next
  case (Suc n)
  have "[i..<i + Suc n] = i # [Suc i..<Suc i + n]" by (simp add: upt_rec)
  with Suc show ?case by (simp add: Let_def del: upt_Suc)
qed

text \<open>A parsed image passed every check, and its table lies inside the file.\<close>

lemma parse_ok:
  assumes "parse_elf64 b = Inr img"
  shows "ehdr_size \<le> length b" "sub_slice 0 4 b = [0x7F] @ str ''ELF''"
    "b ! 4 = 2" "b ! 5 = 1" "from_le (sub_slice 18 2 b) = (62 :: u16)"
    "unat (e_phentsize (read_ehdr b)) = phdr_size"
    "unat (e_phoff (read_ehdr b)) + unat (e_phnum (read_ehdr b)) * phdr_size \<le> length b"
    "segments img = read_segments b (unat (e_phoff (read_ehdr b))) phdr_size 0
       (unat (e_phnum (read_ehdr b)))"
    "entry img = e_entry (read_ehdr b)" "e_type img = eh_type (read_ehdr b)"
proof -
  note checks = assms [unfolded parse_elf64_def Let_def, simplified try_res_Inr_iff]
  show len: "ehdr_size \<le> length b" using checks by (auto split: if_splits)
  have id: "sub_slice 0 4 (e_ident (read_ehdr b)) = sub_slice 0 4 b"
    by (simp add: read_ehdr_def sub_slice_sub_slice)
  have at: "e_ident (read_ehdr b) ! k = b ! k" if "k < 16" for k
    using that len by (simp add: read_ehdr_def nth_sub_slice)
  show "sub_slice 0 4 b = [0x7F] @ str ''ELF''" "b ! 4 = 2" "b ! 5 = 1"
    using checks id at [of 4] at [of 5] by (auto simp: elf_consts split: if_splits)
  show "from_le (sub_slice 18 2 b) = (62 :: u16)"
    using checks by (auto simp: elf_consts read_ehdr_def split: if_splits)
  show ent: "unat (e_phentsize (read_ehdr b)) = phdr_size"
    using checks by (auto split: if_splits)
  show "unat (e_phoff (read_ehdr b)) + unat (e_phnum (read_ehdr b)) * phdr_size \<le> length b"
    using checks ent
    by (auto simp: try_res_Inr_iff checked_mul_usize_def checked_add_usize_def split: if_splits)
  show "segments img = read_segments b (unat (e_phoff (read_ehdr b))) phdr_size 0
       (unat (e_phnum (read_ehdr b)))"
    "entry img = e_entry (read_ehdr b)" "e_type img = eh_type (read_ehdr b)"
    using checks ent by (auto simp: try_res_Inr_iff split: if_splits)
qed

text \<open>Conversely, a file that passes the checks is accepted.\<close>

lemma parse_accepts:
  assumes "ehdr_size \<le> length b" "sub_slice 0 4 b = [0x7F] @ str ''ELF''" "b ! 4 = 2" "b ! 5 = 1"
    "from_le (sub_slice 18 2 b) = (62 :: u16)" "unat (e_phentsize (read_ehdr b)) = phdr_size"
    "unat (e_phoff (read_ehdr b)) + unat (e_phnum (read_ehdr b)) * phdr_size \<le> length b"
    "length b < usize_bound"
  shows "parse_elf64 b = Inr \<lparr>entry = e_entry (read_ehdr b), e_type = eh_type (read_ehdr b),
    segments = read_segments b (unat (e_phoff (read_ehdr b))) phdr_size 0
       (unat (e_phnum (read_ehdr b)))\<rparr>"
proof -
  have id: "sub_slice 0 4 (e_ident (read_ehdr b)) = sub_slice 0 4 b"
    by (simp add: read_ehdr_def sub_slice_sub_slice)
  have at: "e_ident (read_ehdr b) ! k = b ! k" if "k < 16" for k
    using that assms(1) by (simp add: read_ehdr_def nth_sub_slice)
  have mach: "e_machine (read_ehdr b) = 62" using assms(5) by (simp add: read_ehdr_def)
  show ?thesis
    using assms id at [of 4] at [of 5] mach
    by (simp add: parse_elf64_def Let_def elf_consts checked_mul_usize_def checked_add_usize_def)
qed

section \<open>An encoder for the format\<close>

text \<open>
  An ELF file with the given headers: used to state that the parser loses nothing. The
  program headers follow the ELF header; the file contents follow them.
\<close>

definition encode_phdr :: "Elf64Phdr \<Rightarrow> bytes" where
  "encode_phdr ph =
     to_le 4 (p_type ph) @ to_le 4 (p_flags ph) @ to_le 8 (p_offset ph) @ to_le 8 (p_vaddr ph) @
     to_le 8 (p_paddr ph) @ to_le 8 (p_filesz ph) @ to_le 8 (p_memsz ph) @ to_le 8 (p_align ph)"

definition encode_elf :: "u16 \<Rightarrow> u64 \<Rightarrow> Elf64Phdr list \<Rightarrow> bytes \<Rightarrow> bytes" where
  "encode_elf ty ent phs payload =
     ([0x7F] @ str ''ELF'' @ [2, 1, 1] @ replicate 9 0) @
     to_le 2 ty @ to_le 2 EM_X86_64 @ to_le 4 (1 :: u32) @ to_le 8 ent @ to_le 8 (64 :: u64) @
     to_le 8 (0 :: u64) @ to_le 4 (0 :: u32) @ to_le 2 (64 :: u16) @ to_le 2 (56 :: u16) @
     to_le 2 (of_nat (length phs) :: u16) @ to_le 2 (0 :: u16) @ to_le 2 (0 :: u16) @
     to_le 2 (0 :: u16) @ concat (map encode_phdr phs) @ payload"

lemma length_encode_phdr [simp]: "length (encode_phdr ph) = 56"
  by (simp add: encode_phdr_def)

lemma read_encode_phdr:
  "length pre = off \<Longrightarrow> read_phdr (pre @ encode_phdr ph @ post) off = ph"
  by (cases ph) (simp add: read_phdr_def encode_phdr_def sub_slice_def)

lemma length_encode_phdrs: "length (concat (map encode_phdr phs)) = 56 * length phs"
  by (induction phs) auto

lemma read_segments_encoded:
  "length pre = phoff + i * 56 \<Longrightarrow>
   read_segments (pre @ concat (map encode_phdr phs) @ post) phoff 56 i (length phs) =
     map load_segment (filter (\<lambda>ph. p_type ph = PT_LOAD) phs)"
proof (induction phs arbitrary: pre i)
  case Nil
  then show ?case by simp
next
  case (Cons ph phs)
  have "read_segments ((pre @ encode_phdr ph) @ concat (map encode_phdr phs) @ post) phoff 56
      (Suc i) (length phs) = map load_segment (filter (\<lambda>ph. p_type ph = PT_LOAD) phs)"
    using Cons.prems by (intro Cons.IH) simp
  moreover have "read_phdr (pre @ encode_phdr ph @ concat (map encode_phdr phs) @ post)
      (phoff + i * 56) = ph"
    using Cons.prems by (rule read_encode_phdr)
  ultimately show ?case by (simp add: Let_def)
qed

lemma parse_encode:
  assumes "length phs < 65536" "length payload < 2 ^ 63"
  shows "parse_elf64 (encode_elf ty ent phs payload) =
    Inr \<lparr>entry = ent, e_type = ty,
         segments = map load_segment (filter (\<lambda>ph. p_type ph = PT_LOAD) phs)\<rparr>"
proof -
  define hdr where "hdr = [0x7F] @ str ''ELF'' @ [2, 1, 1] @ replicate 9 0 @
     to_le 2 ty @ to_le 2 EM_X86_64 @ to_le 4 (1 :: u32) @ to_le 8 ent @ to_le 8 (64 :: u64) @
     to_le 8 (0 :: u64) @ to_le 4 (0 :: u32) @ to_le 2 (64 :: u16) @ to_le 2 (56 :: u16) @
     to_le 2 (of_nat (length phs) :: u16) @ to_le 2 (0 :: u16) @ to_le 2 (0 :: u16) @
     to_le 2 (0 :: u16)"
  let ?b = "encode_elf ty ent phs payload"
  have b: "?b = hdr @ concat (map encode_phdr phs) @ payload"
    by (simp add: encode_elf_def hdr_def)
  have lh: "length hdr = 64" by (simp add: hdr_def str_def)
  have len: "length ?b = 64 + 56 * length phs + length payload"
    by (simp add: b lh length_encode_phdrs)
  have h: "read_ehdr ?b = read_ehdr hdr"
    unfolding read_ehdr_def b using lh by (simp add: sub_slice_append_left)
  have f: "e_phoff (read_ehdr hdr) = 64" "e_phentsize (read_ehdr hdr) = 56"
    "e_phnum (read_ehdr hdr) = of_nat (length phs)" "e_entry (read_ehdr hdr) = ent"
    "eh_type (read_ehdr hdr) = ty"
    by (simp_all add: read_ehdr_def hdr_def str_def sub_slice_def)
  have ident: "sub_slice 0 4 ?b = [0x7F] @ str ''ELF''" "?b ! 4 = 2" "?b ! 5 = 1"
    "from_le (sub_slice 18 2 ?b) = (62 :: u16)"
    by (simp_all add: b hdr_def str_def sub_slice_def elf_consts)
  have num: "unat (of_nat (length phs) :: u16) = length phs"
    using assms(1) by (simp add: unat_of_nat)
  have "read_segments ?b 64 56 0 (length phs) =
      map load_segment (filter (\<lambda>ph. p_type ph = PT_LOAD) phs)"
    unfolding b by (rule read_segments_encoded) (simp add: lh)
  then show ?thesis
    using parse_accepts [OF _ ident] assms len by (simp add: h f num)
qed

end
