(* ===== verification/Posix.thy ===== *)
theory Posix
  imports Prelude
begin

text \<open>
  The POSIX layer (\<open>kernel/src/posix.rs\<close>): process id, program break, and the
  standard streams. \<open>STDIN_READER\<close> is a polling function; it is modelled by the list of
  results its coming calls will give (\<open>None\<close>: no key yet). A call that returns looks at
  finitely many of them, so a list is enough; a loop still waiting when the list ends is
  \<open>Hang\<close>.
\<close>

section \<open>State\<close>

record posix_layer =
  pid :: u32
  brk :: u64
  stdin_reader :: "u8 option list option"
  umem :: memory

definition STDIN_FILENO :: u64 where "STDIN_FILENO = 0"
definition STDOUT_FILENO :: u64 where "STDOUT_FILENO = 1"
definition STDERR_FILENO :: u64 where "STDERR_FILENO = 2"

text \<open>Error numbers; the code returns their negations (\<open>isize\<close> bit patterns).\<close>

definition EBADF :: u64 where "EBADF = 9"
definition EINVAL :: u64 where "EINVAL = 22"

lemmas posix_consts = STDIN_FILENO_def STDOUT_FILENO_def STDERR_FILENO_def EBADF_def EINVAL_def

definition LF :: u8 where "LF = 0x0A"
definition CR :: u8 where "CR = 0x0D"

section \<open>Operations\<close>

definition set_stdin_reader ::
  "u8 option list \<Rightarrow> 'a posix_layer_scheme \<Rightarrow> 'a posix_layer_scheme" where
  "set_stdin_reader reader s = s\<lparr>stdin_reader := Some reader\<rparr>"

text \<open>The \<open>loop\<close> of \<open>read_stdin_byte_blocking\<close>: poll until there is a byte.\<close>

fun poll_byte :: "u8 option list \<Rightarrow> (u8 \<times> u8 option list) option" where
  "poll_byte [] = None"
| "poll_byte (Some ch # ps) = Some (ch, ps)"
| "poll_byte (None # ps) = poll_byte ps"

definition read_stdin_byte_blocking ::
  "'a posix_layer_scheme \<Rightarrow> ('e, 'a posix_layer_scheme, u8 option) run" where
  "read_stdin_byte_blocking s =
     (case stdin_reader s of
        None \<Rightarrow> Done None s
      | Some ps \<Rightarrow>
          (case poll_byte ps of
             None \<Rightarrow> Hang
           | Some (ch, ps') \<Rightarrow> Done (Some ch) (s\<lparr>stdin_reader := Some ps'\<rparr>)))"

definition getpid :: "'a posix_layer_scheme \<Rightarrow> u32" where
  "getpid s = pid s"

definition brk_get :: "'a posix_layer_scheme \<Rightarrow> u64" where
  "brk_get s = brk s"

definition brk_set :: "u64 \<Rightarrow> 'a posix_layer_scheme \<Rightarrow> u64 \<times> 'a posix_layer_scheme" where
  "brk_set new_brk s =
     (let s' = (if new_brk \<noteq> 0 then s\<lparr>brk := new_brk\<rparr> else s) in (brk_get s', s'))"

definition posix_write :: "u64 \<Rightarrow> u64 \<Rightarrow> u64 \<Rightarrow> u64" where
  "posix_write fd buf len =
     (if fd = STDOUT_FILENO \<or> fd = STDERR_FILENO then len else - EBADF)"

text \<open>The \<open>while n < len\<close> loop of \<open>read\<close>; \<open>None\<close> when it is still polling.\<close>

fun read_loop ::
  "u8 option list \<Rightarrow> u64 \<Rightarrow> nat \<Rightarrow> nat \<Rightarrow> memory \<Rightarrow> (nat \<times> memory \<times> u8 option list) option" where
  "read_loop ps buf len n m =
     (if n < len then
        (case ps of
           [] \<Rightarrow> None
         | None # ps' \<Rightarrow> read_loop ps' buf len n m
         | Some ch # ps' \<Rightarrow>
             (let m' = mem_write m (buf + of_nat n) [ch] in
              if ch = LF \<or> ch = CR then Some (Suc n, m', ps')
              else read_loop ps' buf len (Suc n) m'))
      else Some (n, m, ps))"

declare read_loop.simps [simp del]

definition posix_read ::
  "u64 \<Rightarrow> u64 \<Rightarrow> u64 \<Rightarrow> 'a posix_layer_scheme \<Rightarrow> ('e, 'a posix_layer_scheme, u64) run" where
  "posix_read fd buf len s =
     (if fd = STDIN_FILENO then
        (if buf = 0 \<or> len = 0 then Done 0 s
         else
           (case stdin_reader s of
              None \<Rightarrow> Done 0 s
            | Some ps \<Rightarrow>
                (case read_loop ps buf (unat len) 0 (umem s) of
                   None \<Rightarrow> Hang
                 | Some (n, m, ps') \<Rightarrow>
                     Done (of_nat n) (s\<lparr>umem := m, stdin_reader := Some ps'\<rparr>))))
      else Done (- EBADF) s)"

section \<open>The line discipline in one equation\<close>

text \<open>The keys typed, and the part of them one \<open>read\<close> of \<open>len\<close> bytes takes.\<close>

definition keys :: "u8 option list \<Rightarrow> bytes" where
  "keys ps = map the (filter (\<lambda>p. p \<noteq> None) ps)"

fun line_of :: "nat \<Rightarrow> bytes \<Rightarrow> bytes option" where
  "line_of 0 cs = Some []"
| "line_of (Suc n) [] = None"
| "line_of (Suc n) (c # cs) =
     (if c = LF \<or> c = CR then Some [c] else map_option (Cons c) (line_of n cs))"

lemma keys_simps [simp]:
  "keys [] = []" "keys (None # ps) = keys ps" "keys (Some c # ps) = c # keys ps"
  by (simp_all add: keys_def)

lemma poll_byte_keys: "poll_byte ps = Some (c, ps') \<Longrightarrow> keys ps = c # keys ps'"
  by (induction ps rule: poll_byte.induct) auto

lemma poll_byte_hang_iff: "poll_byte ps = None \<longleftrightarrow> keys ps = []"
  by (induction ps rule: poll_byte.induct) auto

lemma line_of_length: "line_of n cs = Some l \<Longrightarrow> length l \<le> n"
  by (induction n cs arbitrary: l rule: line_of.induct) (auto split: if_splits)

lemma line_of_prefix: "line_of n cs = Some l \<Longrightarrow> \<exists>rest. cs = l @ rest"
  by (induction n cs arbitrary: l rule: line_of.induct) (auto split: if_splits)

text \<open>
  \<open>read_loop\<close> writes exactly that line at the buffer, and waits for ever exactly when the
  keys do not make one.
\<close>

lemma read_loop_spec:
  assumes "n \<le> len" "len < usize_bound"
  shows "(case read_loop ps buf len n m of
      None \<Rightarrow> line_of (len - n) (keys ps) = None
    | Some (n', m', ps') \<Rightarrow>
        (\<exists>l. line_of (len - n) (keys ps) = Some l \<and> n' = n + length l \<and>
             m' = mem_write m (buf + of_nat n) l \<and> keys ps = l @ keys ps'))"
  using assms
proof (induction ps arbitrary: n m)
  case Nil
  then show ?case by (cases "len - n") (auto simp: read_loop.simps)
next
  case (Cons p ps)
  show ?case
  proof (cases "n < len")
    case False
    with Cons.prems have "len - n = 0" by simp
    with False show ?thesis by (simp add: read_loop.simps [of "p # ps"])
  next
    case True
    then obtain k where k: "len - n = Suc k" "len - Suc n = k"
      by (metis Suc_diff_Suc)
    show ?thesis
    proof (cases p)
      case None
      have "read_loop (p # ps) buf len n m = read_loop ps buf len n m"
        using True by (simp add: None read_loop.simps [of "None # ps"])
      then show ?thesis using Cons.IH [of n m] Cons.prems None by (auto split: option.splits)
    next
      case (Some c)
      let ?m = "mem_write m (buf + of_nat n) [c]"
      show ?thesis
      proof (cases "c = LF \<or> c = CR")
        case True
        with \<open>n < len\<close> Some k show ?thesis
          by (auto simp: read_loop.simps [of "Some c # ps"] Let_def)
      next
        case False
        with \<open>n < len\<close> Some have step:
          "read_loop (p # ps) buf len n m = read_loop ps buf len (Suc n) ?m"
          by (auto simp: read_loop.simps [of "Some c # ps"] Let_def)
        have IH: "case read_loop ps buf len (Suc n) ?m of
            None \<Rightarrow> line_of k (keys ps) = None
          | Some (n', m', ps') \<Rightarrow>
              (\<exists>l. line_of k (keys ps) = Some l \<and> n' = Suc n + length l \<and>
                 m' = mem_write ?m (buf + of_nat (Suc n)) l \<and> keys ps = l @ keys ps')"
          by (rule Cons.IH [of "Suc n" ?m, unfolded k(2)]) (use Cons.prems \<open>n < len\<close> in simp_all)
        have glue: "mem_write ?m (buf + of_nat (Suc n)) l = mem_write m (buf + of_nat n) (c # l)"
          if "line_of k (keys ps) = Some l" for l
          using mem_write_append [of "[c]" l m "buf + of_nat n"] line_of_length [OF that] k
            Cons.prems by (simp add: algebra_simps)
        show ?thesis
          unfolding step k(1) using IH False Some glue
          by (auto split: option.splits)
      qed
    qed
  qed
qed

end
