(* ===== verification/Format_Props.thy ===== *)
theory Format_Props
  imports Lfs_Build Elf Posix
begin

text \<open>
  The properties of the file formats and of the standard streams: the ram disk that the
  build script writes and the kernel reads, the ELF parser, and line input.
\<close>

section \<open>The ram disk\<close>

lemma list_built:
  "\<forall>k < n. fs_entry_at img (i + k) = Inr (f k) \<Longrightarrow> list_from img i n = (map f [0..<n], None)"
proof (induction n arbitrary: i f)
  case 0
  then show ?case by simp
next
  case (Suc n)
  have "fs_entry_at img i = Inr (f 0)" using Suc.prems by (metis add.right_neutral zero_less_Suc)
  moreover have "list_from img (Suc i) n = (map (\<lambda>k. f (Suc k)) [0..<n], None)"
    using Suc.prems by (intro Suc.IH) (metis Suc_less_eq add_Suc_shift)
  ultimately show ?case by (simp add: map_upt_Suc del: upt_Suc)
qed

lemma build_list:
  assumes "lfs_files fs" "build_lfs1 fs = Some img"
  shows "fs_list img = (map record_of fs, None)"
proof -
  have "length fs < 65536" using assms(1) by (simp add: lfs_files_def)
  moreover have "list_from img 0 (length fs) = (map (\<lambda>k. record_of (fs ! k)) [0..<length fs], None)"
    using build_entry [OF assms] by (intro list_built) simp
  moreover have "map (\<lambda>k. record_of (fs ! k)) [0..<length fs] = map record_of fs"
    by (rule nth_equalityI) simp_all
  ultimately show ?thesis
    using build_header [OF assms] by (simp add: fs_list_def unat_of_nat)
qed

text \<open>C6: what \<open>build.rs\<close> writes, \<open>fs.rs\<close> reads: for any list of files the format can
  represent, the build succeeds, listing the image gives the files in order with their
  names, modes and contents, and opening a name gives the first file of that name or
  \<open>NotFound\<close>.\<close>

theorem ramdisk_roundtrip:
  assumes "lfs_files fs"
  shows "\<exists>img. build_lfs1 fs = Some img \<and> fs_list img = (map record_of fs, None) \<and>
    (\<forall>name. fs_open img name =
       (case find (\<lambda>f. bf_name f = name) fs of
          None \<Rightarrow> Inl NotFound | Some f \<Rightarrow> Inr (record_of f)))"
proof -
  have "\<forall>f \<in> set fs. length (bf_name f) \<le> 48" using assms by (auto simp: lfs_files_def)
  then obtain img where img: "build_lfs1 fs = Some img" using build_layout by blast
  with build_list [OF assms img] build_open [OF assms img] show ?thesis by blast
qed

theorem ramdisk_roundtrip_witness:
  "let fs = [\<lparr>bf_name = str ''init'', bf_mode = 0x1ED, bf_data = [1, 2, 3]\<rparr>] in
   \<exists>img. build_lfs1 fs = Some img \<and> fs_list img = (map record_of fs, None) \<and>
    (\<forall>name. fs_open img name =
       (case find (\<lambda>f. bf_name f = name) fs of
          None \<Rightarrow> Inl NotFound | Some f \<Rightarrow> Inr (record_of f)))"
  unfolding Let_def
  by (rule ramdisk_roundtrip) (simp add: lfs_files_def str_def utf8_valid_ascii data_bytes_def)

text \<open>Opening a name in an arbitrary image, well-formed or not, returns a record exactly
  when the header is valid and it is the first table entry of that name, every entry before
  it being readable and named otherwise.\<close>

lemma open_first_match:
  "fs_open img w = Inr r \<longleftrightarrow>
     (\<exists>hdr i. fs_header img = Inr hdr \<and> i < unat (file_count hdr) \<and>
        (\<forall>j < i. \<exists>q. fs_entry_at img j = Inr q \<and> fr_name q \<noteq> w) \<and>
        fs_entry_at img i = Inr r \<and> fr_name r = w)"
  unfolding lfs.lookup_found_iff by (auto simp: lfs.passed_def fs_count_Inr_iff)



section \<open>ELF images\<close>

text \<open>C23: the parser loses nothing: the image with any list of program headers and any
  contents is accepted, with its entry point and type, and with exactly the \<open>PT_LOAD\<close>
  headers as segments, in order and field by field.\<close>

theorem elf_roundtrip:
  assumes "length phs < 2 ^ 16" "length payload < 2 ^ 63"
  shows "parse_elf64 (encode_elf ty ent phs payload) =
    Inr \<lparr>entry = ent, e_type = ty,
         segments = [load_segment ph. ph \<leftarrow> phs, p_type ph = PT_LOAD]\<rparr>"
proof -
  have "[load_segment ph. ph \<leftarrow> phs, p_type ph = PT_LOAD] =
      map load_segment (filter (\<lambda>ph. p_type ph = PT_LOAD) phs)"
    by (induction phs) auto
  then show ?thesis using parse_encode [of phs payload] assms by simp
qed

theorem elf_roundtrip_witness:
  "parse_elf64 (encode_elf 2 0x400078 [] [0xC3]) =
    Inr \<lparr>entry = 0x400078, e_type = 2, segments = [load_segment ph. ph \<leftarrow> [], p_type ph = PT_LOAD]\<rparr>"
  by (rule elf_roundtrip) simp_all

text \<open>C7: the parser accepts a file exactly when it is long enough, has the magic number,
  the 64-bit little-endian class, the x86-64 machine and 56-byte program headers, and its
  header table lies in the file; the result is then determined by the header fields.\<close>

theorem elf_accepts_iff:
  assumes "length b < 2 ^ 64"
  shows "parse_elf64 b = Inr img \<longleftrightarrow>
     64 \<le> length b \<and> sub_slice 0 4 b = [0x7F] @ str ''ELF'' \<and> b ! 4 = 2 \<and> b ! 5 = 1 \<and>
     from_le (sub_slice 18 2 b) = (62 :: u16) \<and> unat (e_phentsize (read_ehdr b)) = 56 \<and>
     unat (e_phoff (read_ehdr b)) + unat (e_phnum (read_ehdr b)) * 56 \<le> length b \<and>
     img = \<lparr>entry = e_entry (read_ehdr b), e_type = eh_type (read_ehdr b),
       segments = read_segments b (unat (e_phoff (read_ehdr b))) 56 0
         (unat (e_phnum (read_ehdr b)))\<rparr>"
    (is "?l \<longleftrightarrow> ?r")
proof
  assume ?l
  from parse_ok [OF this] show ?r by auto
next
  assume r: ?r
  then show ?l using parse_accepts [of b] assms by simp
qed

theorem elf_accepts_iff_witness:
  "parse_elf64 [0x7F] = Inr \<lparr>entry = 0, e_type = 2, segments = []\<rparr> \<longleftrightarrow>
     64 \<le> length [0x7F :: u8] \<and> sub_slice 0 4 [0x7F] = [0x7F] @ str ''ELF'' \<and>
     [0x7F :: u8] ! 4 = 2 \<and> [0x7F :: u8] ! 5 = 1 \<and>
     from_le (sub_slice 18 2 [0x7F]) = (62 :: u16) \<and> unat (e_phentsize (read_ehdr [0x7F])) = 56 \<and>
     unat (e_phoff (read_ehdr [0x7F])) + unat (e_phnum (read_ehdr [0x7F])) * 56 \<le> length [0x7F :: u8] \<and>
     \<lparr>entry = 0, e_type = 2, segments = []\<rparr> = \<lparr>entry = e_entry (read_ehdr [0x7F]), e_type = eh_type (read_ehdr [0x7F]),
       segments = read_segments [0x7F] (unat (e_phoff (read_ehdr [0x7F]))) 56 0
         (unat (e_phnum (read_ehdr [0x7F])))\<rparr>"
  by (rule elf_accepts_iff) simp

section \<open>Standard input\<close>

text \<open>C24: \<open>read\<close> of standard input takes the keys up to and including the first line feed
  or carriage return, or as many as the buffer holds; it stores exactly these at the buffer,
  returns their number and leaves the other keys for the next call; it never returns exactly
  when the keys do not make a line.\<close>

theorem stdin_line:
  assumes "stdin_reader s = Some ps" "buf \<noteq> 0" "len \<noteq> 0"
  shows "(case line_of (unat len) (keys ps) of
      None \<Rightarrow> posix_read 0 buf len s = (Hang :: (unit, 'a posix_layer_scheme, u64) run)
    | Some l \<Rightarrow> \<exists>ps'. keys ps = l @ keys ps' \<and>
        posix_read 0 buf len s = (Done (of_nat (length l))
          (s\<lparr>umem := mem_write (umem s) buf l, stdin_reader := Some ps'\<rparr>)
            :: (unit, 'a posix_layer_scheme, u64) run))"
proof -
  have loop: "case read_loop ps buf (unat len) 0 (umem s) of
      None \<Rightarrow> line_of (unat len) (keys ps) = None
    | Some (n', m', ps') \<Rightarrow> (\<exists>l. line_of (unat len) (keys ps) = Some l \<and> n' = length l \<and>
        m' = mem_write (umem s) buf l \<and> keys ps = l @ keys ps')"
    using read_loop_spec [where n = 0 and len = "unat len" and ps = ps and buf = buf and m = "umem s"]
    by (auto split: option.splits)
  show ?thesis
  proof (cases "read_loop ps buf (unat len) 0 (umem s)")
    case None
    with loop assms show ?thesis by (simp add: posix_read_def posix_consts)
  next
    case (Some r)
    with loop assms show ?thesis by (cases r) (auto simp: posix_read_def posix_consts)
  qed
qed

theorem stdin_line_witness:
  "let s = \<lparr>pid = 3, brk = 0, stdin_reader = Some [Some 0x61, None, Some 0x0D, Some 0x62],
            umem = (\<lambda>_. 0)\<rparr>
   in (case line_of (unat (8 :: u64)) (keys [Some 0x61, None, Some 0x0D, Some 0x62]) of
      None \<Rightarrow> posix_read 0 0x1000 8 s = (Hang :: (unit, posix_layer, u64) run)
    | Some l \<Rightarrow> \<exists>ps'. keys [Some 0x61, None, Some 0x0D, Some 0x62] = l @ keys ps' \<and>
        posix_read 0 0x1000 8 s = (Done (of_nat (length l))
          (s\<lparr>umem := mem_write (umem s) 0x1000 l, stdin_reader := Some ps'\<rparr>)
            :: (unit, posix_layer, u64) run))"
  unfolding Let_def by (rule stdin_line) simp_all

end
