(* ===== verification/Guest_Mem.thy ===== *)
theory Guest_Mem
  imports Elf Rust_Str
begin

text \<open>
  The guest memory of the interpreter (\<open>kernel/src/elf_runner.rs\<close>): one buffer of bytes
  that starts at the virtual address \<open>base\<close>. Bounds-checked loads and stores, the initial
  process stack, and the reading of strings and pointer arrays out of it.
\<close>

unbundle bit_operations_syntax

section \<open>Errors\<close>

datatype RunError =
    ParseError ElfError
  | NoLoadSegment
  | AddressOutOfRange
  | UnsupportedComplexElf (elf_entry: u64) (elf_segments: nat) (elf_memory_size: nat)
  | UnsupportedInstruction (bad_rip: u64) (bad_bytes: bytes)
  | StepLimit (limit_steps: nat) (last_rip: u64)

definition MAX_STEPS :: nat where "MAX_STEPS = 128 * 1024"
definition MAX_INTERP_MEM :: nat where "MAX_INTERP_MEM = 16 * 1024 * 1024"
definition STACK_SIZE :: nat where "STACK_SIZE = 128 * 1024"
definition AT_NULL :: u64 where "AT_NULL = 0"
definition AT_PAGESZ :: u64 where "AT_PAGESZ = 6"

lemmas interp_consts =
  MAX_STEPS_def MAX_INTERP_MEM_def STACK_SIZE_def AT_NULL_def AT_PAGESZ_def

section \<open>Loads and stores\<close>

definition va_to_index :: "u64 \<Rightarrow> bytes \<Rightarrow> u64 \<Rightarrow> RunError + nat" where
  "va_to_index base mem va =
     (if va < base then Inl AddressOutOfRange
      else
        (let idx = unat (va - base) in
         if idx \<ge> length mem then Inl AddressOutOfRange else Inr idx))"

text \<open>The check of an access of \<open>n\<close> bytes at \<open>va\<close>: the index of its first byte.\<close>

definition span_index :: "u64 \<Rightarrow> bytes \<Rightarrow> u64 \<Rightarrow> nat \<Rightarrow> RunError + nat" where
  "span_index base mem va n =
     try_res (va_to_index base mem va) (\<lambda>i.
     try_res (ok_or AddressOutOfRange (checked_add_usize i n)) (\<lambda>e.
       if e > length mem then Inl AddressOutOfRange else Inr i))"

definition read_bytes :: "u64 \<Rightarrow> bytes \<Rightarrow> u64 \<Rightarrow> RunError + bytes" where
  "read_bytes base mem va =
     try_res (va_to_index base mem va) (\<lambda>idx.
       (let n = min 8 (length mem - idx)
        in Inr (put_slice (replicate 8 0) 0 (sub_slice idx n mem))))"

definition read_u8 :: "u64 \<Rightarrow> bytes \<Rightarrow> u64 \<Rightarrow> RunError + u8" where
  "read_u8 base mem va = try_res (va_to_index base mem va) (\<lambda>i. Inr (mem ! i))"

definition read_u32 :: "u64 \<Rightarrow> bytes \<Rightarrow> u64 \<Rightarrow> RunError + u32" where
  "read_u32 base mem va =
     try_res (span_index base mem va 4) (\<lambda>i. Inr (from_le (sub_slice i 4 mem)))"

definition read_u64 :: "u64 \<Rightarrow> bytes \<Rightarrow> u64 \<Rightarrow> RunError + u64" where
  "read_u64 base mem va =
     try_res (span_index base mem va 8) (\<lambda>i. Inr (from_le (sub_slice i 8 mem)))"

text \<open>\<open>i32\<close> values are kept sign-extended to 64 bits, as every use extends them.\<close>

definition read_i32 :: "u64 \<Rightarrow> bytes \<Rightarrow> u64 \<Rightarrow> RunError + u64" where
  "read_i32 base mem va = try_res (read_u32 base mem va) (\<lambda>w. Inr (scast w))"

definition write_u32 :: "u64 \<Rightarrow> bytes \<Rightarrow> u64 \<Rightarrow> u32 \<Rightarrow> RunError + bytes" where
  "write_u32 base mem va v =
     try_res (span_index base mem va 4) (\<lambda>i. Inr (put_slice mem i (to_le 4 v)))"

definition write_u64 :: "u64 \<Rightarrow> bytes \<Rightarrow> u64 \<Rightarrow> u64 \<Rightarrow> RunError + bytes" where
  "write_u64 base mem va v =
     try_res (span_index base mem va 8) (\<lambda>i. Inr (put_slice mem i (to_le 8 v)))"

section \<open>The initial stack\<close>

text \<open>The state of these runs is the guest memory.\<close>

definition push_cstr :: "u64 \<Rightarrow> u64 \<Rightarrow> bytes \<Rightarrow> bytes \<Rightarrow> (RunError, bytes, u64) run" where
  "push_cstr base sp bs mem =
     (let len = length bs + 1 in
      with_res mem (ok_or AddressOutOfRange (checked_sub_u64 sp (of_nat len))) (\<lambda>new_sp.
      with_res mem (va_to_index base mem new_sp) (\<lambda>start.
      with_res mem (ok_or AddressOutOfRange (checked_add_usize start len)) (\<lambda>e.
        if e > length mem then Fail AddressOutOfRange mem
        else Done new_sp ((put_slice mem start bs)[start + length bs := 0])))))"

text \<open>
  The loop over the strings, last first: the new stack pointer and the addresses, which the
  code collects in this order and then reverses.
\<close>

fun push_strs ::
  "u64 \<Rightarrow> u64 \<Rightarrow> bytes list \<Rightarrow> bytes \<Rightarrow> (RunError, bytes, u64 \<times> u64 list) run" where
  "push_strs base sp [] mem = Done (sp, []) mem"
| "push_strs base sp (s # rest) mem =
     and_then (push_cstr base sp s mem) (\<lambda>p mem.
     and_then (push_strs base p rest mem) (\<lambda>(sp', ptrs) mem. Done (sp', p # ptrs) mem))"

text \<open>\<open>for (i, v) in words.iter().enumerate()\<close>, from index \<open>i\<close> on.\<close>

fun write_words :: "u64 \<Rightarrow> u64 \<Rightarrow> nat \<Rightarrow> u64 list \<Rightarrow> bytes \<Rightarrow> (RunError, bytes, unit) run" where
  "write_words base sp i [] mem = Done () mem"
| "write_words base sp i (v # vs) mem =
     or_panic (checked_add_u64 sp (of_nat i * 8)) (\<lambda>a.
     with_res mem (write_u64 base mem a v) (\<lambda>mem. write_words base sp (Suc i) vs mem))"

definition stack_words :: "u64 list \<Rightarrow> u64 list \<Rightarrow> u64 list" where
  "stack_words arg_ptrs env_ptrs =
     [of_nat (length arg_ptrs)] @ arg_ptrs @ [0] @ env_ptrs @ [0, AT_PAGESZ, 4096, AT_NULL, 0]"

definition build_initial_stack ::
  "u64 \<Rightarrow> u64 \<Rightarrow> bytes list \<Rightarrow> bytes list \<Rightarrow> bytes \<Rightarrow> (RunError, bytes, u64) run" where
  "build_initial_stack base stack_top argv envp mem =
     (let sp = stack_top AND NOT 0xF in
      and_then (push_strs base sp (rev argv) mem) (\<lambda>(sp, ptrs) mem.
        (let arg_ptrs = rev ptrs in
         and_then (push_strs base sp (rev envp) mem) (\<lambda>(sp, ptrs) mem.
           (let env_ptrs = rev ptrs;
                words = stack_words arg_ptrs env_ptrs;
                sp = sp AND NOT 0xF;
                bytes = (of_nat (length words * 8) :: u64)
            in with_res mem (ok_or AddressOutOfRange (checked_sub_u64 sp bytes)) (\<lambda>sp.
               and_then (write_words base sp 0 words mem) (\<lambda>_ mem. Done sp mem)))))))"

section \<open>Strings and arrays in guest memory\<close>

definition normalize_exec_path :: "bytes \<Rightarrow> bytes option" where
  "normalize_exec_path path =
     (let trimmed = trim path in
      if trimmed = [] then None
      else
        (let p = (case strip_prefix (str ''./'') trimmed of
                    Some stripped \<Rightarrow> stripped | None \<Rightarrow> trimmed);
             p = trim_start_slashes p
         in if p = [] \<or> contains_slash p then None else Some p))"

text \<open>The loop over at most 4096 bytes: \<open>n\<close> remain, \<open>acc\<close> was read.\<close>

fun user_cstr_loop ::
  "u64 \<Rightarrow> bytes \<Rightarrow> u64 \<Rightarrow> bytes \<Rightarrow> nat \<Rightarrow> RunError + bytes option" where
  "user_cstr_loop base mem a acc 0 = Inr None"
| "user_cstr_loop base mem a acc (Suc n) =
     try_res (read_u8 base mem a) (\<lambda>b.
       if b = 0 then Inr (from_utf8 acc)
       else user_cstr_loop base mem (a + 1) (acc @ [b]) n)"

definition read_user_cstr :: "u64 \<Rightarrow> bytes \<Rightarrow> u64 \<Rightarrow> RunError + bytes option" where
  "read_user_cstr base mem va =
     (if va = 0 then Inr None else user_cstr_loop base mem va [] 4096)"

fun ptr_array_loop ::
  "u64 \<Rightarrow> bytes \<Rightarrow> u64 \<Rightarrow> nat \<Rightarrow> nat \<Rightarrow> 's \<Rightarrow> (RunError, 's, u64 list) run" where
  "ptr_array_loop base mem va i 0 s = Done [] s"
| "ptr_array_loop base mem va i (Suc n) s =
     or_panic (checked_add_u64 va (of_nat i * 8)) (\<lambda>a.
     with_res s (read_u64 base mem a) (\<lambda>p.
       if p = 0 then Done [] s
       else and_then (ptr_array_loop base mem va (Suc i) n s) (\<lambda>ps s. Done (p # ps) s)))"

definition read_user_ptr_array ::
  "u64 \<Rightarrow> bytes \<Rightarrow> u64 \<Rightarrow> nat \<Rightarrow> 's \<Rightarrow> (RunError, 's, u64 list) run" where
  "read_user_ptr_array base mem va mx s =
     (if va = 0 then Done [] s else ptr_array_loop base mem va 0 mx s)"

fun read_strs :: "u64 \<Rightarrow> bytes \<Rightarrow> u64 list \<Rightarrow> RunError + bytes list" where
  "read_strs base mem [] = Inr []"
| "read_strs base mem (p # ps) =
     try_res (read_user_cstr base mem p) (\<lambda>r.
       case r of
         None \<Rightarrow> Inl AddressOutOfRange
       | Some s \<Rightarrow> try_res (read_strs base mem ps) (\<lambda>ss. Inr (s # ss)))"

definition read_user_str_array ::
  "u64 \<Rightarrow> bytes \<Rightarrow> u64 \<Rightarrow> nat \<Rightarrow> 's \<Rightarrow> (RunError, 's, bytes list) run" where
  "read_user_str_array base mem va mx s =
     and_then (read_user_ptr_array base mem va mx s) (\<lambda>ptrs s.
       with_res s (read_strs base mem ptrs) (\<lambda>ss. Done ss s))"

section \<open>Laws of loads and stores\<close>

lemma va_to_index_iff:
  "va_to_index base mem va = Inr i \<longleftrightarrow> base \<le> va \<and> i = unat (va - base) \<and> i < length mem"
  by (auto simp: va_to_index_def Let_def not_less)

lemma span_index_iff:
  "span_index base mem va n = Inr i \<longleftrightarrow>
     base \<le> va \<and> i = unat (va - base) \<and> i < length mem \<and> i + n \<le> length mem \<and> i + n < usize_bound"
  by (auto simp: span_index_def try_res_Inr_iff va_to_index_iff checked_add_usize_def
      split: if_splits)

lemma span_index_err: "span_index base mem va n = Inl e \<Longrightarrow> e = AddressOutOfRange"
  by (auto simp: span_index_def va_to_index_def Let_def try_res_Inl_iff split: if_splits)

lemma span_index_length:
  "length mem' = length mem \<Longrightarrow> span_index base mem' va n = span_index base mem va n"
  by (simp add: span_index_def va_to_index_def)

lemma write_u64_Inr:
  "write_u64 base mem va v = Inr mem' \<longleftrightarrow>
     (\<exists>i. span_index base mem va 8 = Inr i \<and> mem' = put_slice mem i (to_le 8 v))"
  by (auto simp: write_u64_def try_res_Inr_iff)

lemma write_u32_Inr:
  "write_u32 base mem va v = Inr mem' \<longleftrightarrow>
     (\<exists>i. span_index base mem va 4 = Inr i \<and> mem' = put_slice mem i (to_le 4 v))"
  by (auto simp: write_u32_def try_res_Inr_iff)

lemma length_write_u64: "write_u64 base mem va v = Inr mem' \<Longrightarrow> length mem' = length mem"
  by (auto simp: write_u64_Inr span_index_iff)

lemma length_write_u32: "write_u32 base mem va v = Inr mem' \<Longrightarrow> length mem' = length mem"
  by (auto simp: write_u32_Inr span_index_iff)

text \<open>A store of words at addresses: what the stack code relies on.\<close>

locale word_store =
  fixes rd :: "'m \<Rightarrow> u64 \<Rightarrow> 'e + u64"
    and wr :: "'m \<Rightarrow> u64 \<Rightarrow> u64 \<Rightarrow> 'e + 'm"
  assumes rd_wr_same: "wr m a v = Inr m' \<Longrightarrow> rd m' a = Inr v"
    and rd_wr_other: "wr m a v = Inr m' \<Longrightarrow> 8 \<le> unat (a - b) \<Longrightarrow> 8 \<le> unat (b - a) \<Longrightarrow> rd m' b = rd m b"
begin

fun wr_list :: "'m \<Rightarrow> u64 \<Rightarrow> u64 list \<Rightarrow> 'e + 'm" where
  "wr_list m a [] = Inr m"
| "wr_list m a (v # vs) = try_res (wr m a v) (\<lambda>m'. wr_list m' (a + 8) vs)"

lemma unat_dist:
  fixes a :: u64
  assumes "8 \<le> d" "d + 8 \<le> usize_bound"
  shows "8 \<le> unat (a + of_nat d - a)" "8 \<le> unat (a - (a + of_nat d))"
proof -
  have d: "unat (of_nat d :: u64) = d" using assms by (intro unat_of_nat_u64) linarith
  show "8 \<le> unat (a + of_nat d - a)"
    by (simp only: add_diff_cancel_left' d assms(1))
  have "a - (a + of_nat d) = - (of_nat d)" by simp
  moreover have "unat (- (of_nat d :: u64)) = usize_bound - d"
    using assms d by (simp add: unat_neg_u64)
  ultimately show "8 \<le> unat (a - (a + of_nat d))" using assms(2) by simp
qed

lemma wr_list_below:
  "wr_list m a vs = Inr m' \<Longrightarrow> 8 \<le> d \<Longrightarrow> d + 8 * length vs \<le> usize_bound \<Longrightarrow>
     rd m' (a - of_nat d) = rd m (a - of_nat d)"
proof (induction vs arbitrary: m a d)
  case Nil
  then show ?case by simp
next
  case (Cons v vs)
  then obtain m1 where m1: "wr m a v = Inr m1" "wr_list m1 (a + 8) vs = Inr m'"
    by (auto simp: try_res_Inr_iff)
  have "rd m' (a + 8 - of_nat (d + 8)) = rd m1 (a + 8 - of_nat (d + 8))"
    using Cons.prems by (intro Cons.IH [OF m1(2)]) auto
  moreover have "a + 8 - of_nat (d + 8) = a - of_nat d" by simp
  moreover have "rd m1 (a - of_nat d) = rd m (a - of_nat d)"
    using unat_dist [of d "a - of_nat d"] Cons.prems by (intro rd_wr_other [OF m1(1)]) auto
  ultimately show ?case by simp
qed

lemma rd_wr_list:
  "wr_list m a vs = Inr m' \<Longrightarrow> 8 * length vs \<le> usize_bound \<Longrightarrow> i < length vs \<Longrightarrow>
     rd m' (a + of_nat i * 8) = Inr (vs ! i)"
proof (induction vs arbitrary: m a i)
  case Nil
  then show ?case by simp
next
  case (Cons v vs)
  then obtain m1 where m1: "wr m a v = Inr m1" "wr_list m1 (a + 8) vs = Inr m'"
    by (auto simp: try_res_Inr_iff)
  show ?case
  proof (cases i)
    case 0
    have "rd m' (a + 8 - of_nat 8) = rd m1 (a + 8 - of_nat 8)"
      using Cons.prems by (intro wr_list_below [OF m1(2)]) auto
    with rd_wr_same [OF m1(1)] 0 show ?thesis by simp
  next
    case (Suc j)
    with Cons.IH [OF m1(2), of j] Cons.prems show ?thesis by (simp add: algebra_simps)
  qed
qed

end

interpretation guest: word_store "read_u64 base" "write_u64 base" for base
proof unfold_locales
  fix m m' :: bytes and a b v :: u64
  assume w: "write_u64 base m a v = Inr m'"
  then obtain i where i: "span_index base m a 8 = Inr i" and m': "m' = put_slice m i (to_le 8 v)"
    by (auto simp: write_u64_Inr)
  have l: "length m' = length m" by (rule length_write_u64 [OF w])
  have bounds: "i + 8 \<le> length m" using i by (simp add: span_index_iff)
  show "read_u64 base m' a = Inr v"
    using i bounds by (simp add: read_u64_def span_index_length [OF l]) (simp add: m')
  show "read_u64 base m' b = read_u64 base m b"
    if far: "8 \<le> unat (a - b)" "8 \<le> unat (b - a)"
  proof (cases "span_index base m b 8")
    case (Inr j)
    have "unat (b - a) + i = j \<or> unat (a - b) + j = i"
    proof -
      have ge: "base \<le> a" "base \<le> b" "i = unat (a - base)" "j = unat (b - base)"
        using i Inr by (auto simp: span_index_iff)
      have "b - a = (b - base) - (a - base)" "a - b = (a - base) - (b - base)" by simp_all
      with ge show ?thesis
        by (metis add.commute le_add_diff_inverse nat_le_linear unat_sub word_le_nat_alt)
    qed
    with far have "j + 8 \<le> i \<or> i + 8 \<le> j" by linarith
    moreover have "j + 8 \<le> length m" using Inr by (simp add: span_index_iff)
    ultimately show ?thesis
      using Inr bounds
      by (simp add: read_u64_def span_index_length [OF l]) (simp add: m' sub_slice_put_disjoint)
  qed (simp add: read_u64_def span_index_length [OF l])
qed

end
