(* ===== verification/Syscall_Nr.thy ===== *)
theory Syscall_Nr
  imports Posix
begin

text \<open>
  The constants of \<open>kernel/src/syscall.rs\<close>: system call numbers, error numbers, flags and
  table sizes.
\<close>

section \<open>System call numbers\<close>

definition SYS_READ :: u64 where "SYS_READ = 0"
definition SYS_WRITE :: u64 where "SYS_WRITE = 1"
definition SYS_CLOSE :: u64 where "SYS_CLOSE = 3"
definition SYS_STAT :: u64 where "SYS_STAT = 4"
definition SYS_FSTAT :: u64 where "SYS_FSTAT = 5"
definition SYS_LSTAT :: u64 where "SYS_LSTAT = 6"
definition SYS_POLL :: u64 where "SYS_POLL = 7"
definition SYS_LSEEK :: u64 where "SYS_LSEEK = 8"
definition SYS_MMAP :: u64 where "SYS_MMAP = 9"
definition SYS_MPROTECT :: u64 where "SYS_MPROTECT = 10"
definition SYS_MUNMAP :: u64 where "SYS_MUNMAP = 11"
definition SYS_BRK :: u64 where "SYS_BRK = 12"
definition SYS_RT_SIGACTION :: u64 where "SYS_RT_SIGACTION = 13"
definition SYS_RT_SIGPROCMASK :: u64 where "SYS_RT_SIGPROCMASK = 14"
definition SYS_IOCTL :: u64 where "SYS_IOCTL = 16"
definition SYS_PREAD64 :: u64 where "SYS_PREAD64 = 17"
definition SYS_PWRITE64 :: u64 where "SYS_PWRITE64 = 18"
definition SYS_READV :: u64 where "SYS_READV = 19"
definition SYS_WRITEV :: u64 where "SYS_WRITEV = 20"
definition SYS_ACCESS :: u64 where "SYS_ACCESS = 21"
definition SYS_PIPE :: u64 where "SYS_PIPE = 22"
definition SYS_SELECT :: u64 where "SYS_SELECT = 23"
definition SYS_SCHED_YIELD :: u64 where "SYS_SCHED_YIELD = 24"
definition SYS_MREMAP :: u64 where "SYS_MREMAP = 25"
definition SYS_MSYNC :: u64 where "SYS_MSYNC = 26"
definition SYS_MINCORE :: u64 where "SYS_MINCORE = 27"
definition SYS_MADVISE :: u64 where "SYS_MADVISE = 28"
definition SYS_DUP :: u64 where "SYS_DUP = 32"
definition SYS_DUP2 :: u64 where "SYS_DUP2 = 33"
definition SYS_NANOSLEEP :: u64 where "SYS_NANOSLEEP = 35"
definition SYS_GETPID :: u64 where "SYS_GETPID = 39"
definition SYS_SOCKET :: u64 where "SYS_SOCKET = 41"
definition SYS_CONNECT :: u64 where "SYS_CONNECT = 42"
definition SYS_ACCEPT :: u64 where "SYS_ACCEPT = 43"
definition SYS_SENDTO :: u64 where "SYS_SENDTO = 44"
definition SYS_RECVFROM :: u64 where "SYS_RECVFROM = 45"
definition SYS_SHUTDOWN :: u64 where "SYS_SHUTDOWN = 48"
definition SYS_BIND :: u64 where "SYS_BIND = 49"
definition SYS_LISTEN :: u64 where "SYS_LISTEN = 50"
definition SYS_CLONE :: u64 where "SYS_CLONE = 56"
definition SYS_FORK :: u64 where "SYS_FORK = 57"
definition SYS_VFORK :: u64 where "SYS_VFORK = 58"
definition SYS_EXECVE :: u64 where "SYS_EXECVE = 59"
definition SYS_EXIT :: u64 where "SYS_EXIT = 60"
definition SYS_WAIT4 :: u64 where "SYS_WAIT4 = 61"
definition SYS_UNAME :: u64 where "SYS_UNAME = 63"
definition SYS_FCNTL :: u64 where "SYS_FCNTL = 72"
definition SYS_FSYNC :: u64 where "SYS_FSYNC = 74"
definition SYS_FDATASYNC :: u64 where "SYS_FDATASYNC = 75"
definition SYS_TRUNCATE :: u64 where "SYS_TRUNCATE = 76"
definition SYS_FTRUNCATE :: u64 where "SYS_FTRUNCATE = 77"
definition SYS_GETCWD :: u64 where "SYS_GETCWD = 79"
definition SYS_CHDIR :: u64 where "SYS_CHDIR = 80"
definition SYS_RENAME :: u64 where "SYS_RENAME = 82"
definition SYS_MKDIR :: u64 where "SYS_MKDIR = 83"
definition SYS_RMDIR :: u64 where "SYS_RMDIR = 84"
definition SYS_CREAT :: u64 where "SYS_CREAT = 85"
definition SYS_LINK :: u64 where "SYS_LINK = 86"
definition SYS_UNLINK :: u64 where "SYS_UNLINK = 87"
definition SYS_READLINK :: u64 where "SYS_READLINK = 89"
definition SYS_CHMOD :: u64 where "SYS_CHMOD = 90"
definition SYS_CHOWN :: u64 where "SYS_CHOWN = 92"
definition SYS_GETTIMEOFDAY :: u64 where "SYS_GETTIMEOFDAY = 96"
definition SYS_GETUID :: u64 where "SYS_GETUID = 102"
definition SYS_GETGID :: u64 where "SYS_GETGID = 104"
definition SYS_GETEUID :: u64 where "SYS_GETEUID = 107"
definition SYS_GETEGID :: u64 where "SYS_GETEGID = 108"
definition SYS_GETPPID :: u64 where "SYS_GETPPID = 110"
definition SYS_GETPGRP :: u64 where "SYS_GETPGRP = 111"
definition SYS_SETSID :: u64 where "SYS_SETSID = 112"
definition SYS_SIGALTSTACK :: u64 where "SYS_SIGALTSTACK = 131"
definition SYS_ARCH_PRCTL :: u64 where "SYS_ARCH_PRCTL = 158"
definition SYS_GETDENTS64 :: u64 where "SYS_GETDENTS64 = 217"
definition SYS_SET_TID_ADDRESS :: u64 where "SYS_SET_TID_ADDRESS = 218"
definition SYS_GETTID :: u64 where "SYS_GETTID = 186"
definition SYS_FUTEX :: u64 where "SYS_FUTEX = 202"
definition SYS_CLOCK_GETTIME :: u64 where "SYS_CLOCK_GETTIME = 228"
definition SYS_EXIT_GROUP :: u64 where "SYS_EXIT_GROUP = 231"
definition SYS_OPENAT :: u64 where "SYS_OPENAT = 257"
definition SYS_MKDIRAT :: u64 where "SYS_MKDIRAT = 258"
definition SYS_MKNODAT :: u64 where "SYS_MKNODAT = 259"
definition SYS_NEWFSTATAT :: u64 where "SYS_NEWFSTATAT = 262"
definition SYS_UNLINKAT :: u64 where "SYS_UNLINKAT = 263"
definition SYS_RENAMEAT :: u64 where "SYS_RENAMEAT = 264"
definition SYS_READLINKAT :: u64 where "SYS_READLINKAT = 267"
definition SYS_FACCESSAT :: u64 where "SYS_FACCESSAT = 269"
definition SYS_PSELECT6 :: u64 where "SYS_PSELECT6 = 270"
definition SYS_PPOLL :: u64 where "SYS_PPOLL = 271"
definition SYS_SET_ROBUST_LIST :: u64 where "SYS_SET_ROBUST_LIST = 273"
definition SYS_PRLIMIT64 :: u64 where "SYS_PRLIMIT64 = 302"
definition SYS_GETRANDOM :: u64 where "SYS_GETRANDOM = 318"
definition SYS_MEMFD_CREATE :: u64 where "SYS_MEMFD_CREATE = 319"
definition SYS_STATX :: u64 where "SYS_STATX = 332"
definition SYS_RSEQ :: u64 where "SYS_RSEQ = 334"

lemmas sys_nrs = SYS_READ_def SYS_WRITE_def SYS_CLOSE_def SYS_STAT_def SYS_FSTAT_def SYS_LSTAT_def
  SYS_POLL_def SYS_LSEEK_def SYS_MMAP_def SYS_MPROTECT_def SYS_MUNMAP_def SYS_BRK_def
  SYS_RT_SIGACTION_def SYS_RT_SIGPROCMASK_def SYS_IOCTL_def SYS_PREAD64_def SYS_PWRITE64_def
  SYS_READV_def SYS_WRITEV_def SYS_ACCESS_def SYS_PIPE_def SYS_SELECT_def SYS_SCHED_YIELD_def
  SYS_MREMAP_def SYS_MSYNC_def SYS_MINCORE_def SYS_MADVISE_def SYS_DUP_def SYS_DUP2_def
  SYS_NANOSLEEP_def SYS_GETPID_def SYS_SOCKET_def SYS_CONNECT_def SYS_ACCEPT_def SYS_SENDTO_def
  SYS_RECVFROM_def SYS_SHUTDOWN_def SYS_BIND_def SYS_LISTEN_def SYS_CLONE_def SYS_FORK_def
  SYS_VFORK_def SYS_EXECVE_def SYS_EXIT_def SYS_WAIT4_def SYS_UNAME_def SYS_FCNTL_def
  SYS_FSYNC_def SYS_FDATASYNC_def SYS_TRUNCATE_def SYS_FTRUNCATE_def SYS_GETCWD_def SYS_CHDIR_def
  SYS_RENAME_def SYS_MKDIR_def SYS_RMDIR_def SYS_CREAT_def SYS_LINK_def SYS_UNLINK_def
  SYS_READLINK_def SYS_CHMOD_def SYS_CHOWN_def SYS_GETTIMEOFDAY_def SYS_GETUID_def SYS_GETGID_def
  SYS_GETEUID_def SYS_GETEGID_def SYS_GETPPID_def SYS_GETPGRP_def SYS_SETSID_def
  SYS_SIGALTSTACK_def SYS_ARCH_PRCTL_def SYS_GETDENTS64_def SYS_SET_TID_ADDRESS_def SYS_GETTID_def
  SYS_FUTEX_def SYS_CLOCK_GETTIME_def SYS_EXIT_GROUP_def SYS_OPENAT_def SYS_MKDIRAT_def
  SYS_MKNODAT_def SYS_NEWFSTATAT_def SYS_UNLINKAT_def SYS_RENAMEAT_def SYS_READLINKAT_def
  SYS_FACCESSAT_def SYS_PSELECT6_def SYS_PPOLL_def SYS_SET_ROBUST_LIST_def SYS_PRLIMIT64_def
  SYS_GETRANDOM_def SYS_MEMFD_CREATE_def SYS_STATX_def SYS_RSEQ_def

section \<open>Error numbers, flags and sizes\<close>

definition ENOENT :: u64 where "ENOENT = 2"
definition ECHILD :: u64 where "ECHILD = 10"
definition EFAULT :: u64 where "EFAULT = 14"
definition EBUSY :: u64 where "EBUSY = 16"
definition ENOTDIR :: u64 where "ENOTDIR = 20"
definition EISDIR :: u64 where "EISDIR = 21"
definition ENOSYS :: u64 where "ENOSYS = 38"
definition ERANGE :: u64 where "ERANGE = 34"
definition ENOTTY :: u64 where "ENOTTY = 25"
definition AT_FDCWD :: u64 where "AT_FDCWD = - 100"
definition AT_EMPTY_PATH :: u64 where "AT_EMPTY_PATH = 0x1000"
definition O_DIRECTORY :: u64 where "O_DIRECTORY = 0x10000"
definition SEEK_SET :: u64 where "SEEK_SET = 0"
definition SEEK_CUR :: u64 where "SEEK_CUR = 1"
definition SEEK_END :: u64 where "SEEK_END = 2"
definition DT_DIR :: u8 where "DT_DIR = 4"
definition DT_REG :: u8 where "DT_REG = 8"
definition MAX_FDS :: nat where "MAX_FDS = 64"
definition FD_BASE :: nat where "FD_BASE = 3"
definition CSTR_MAX :: nat where "CSTR_MAX = 256"

lemmas sys_consts = EBADF_def EINVAL_def ENOENT_def ECHILD_def EFAULT_def EBUSY_def ENOTDIR_def
  EISDIR_def ENOSYS_def ERANGE_def ENOTTY_def AT_FDCWD_def AT_EMPTY_PATH_def O_DIRECTORY_def
  SEEK_SET_def SEEK_CUR_def SEEK_END_def DT_DIR_def DT_REG_def MAX_FDS_def FD_BASE_def
  CSTR_MAX_def

end
