(* ===== verification/Syscall.thy ===== *)
theory Syscall
  imports Fs Syscall_Nr
begin

text \<open>
  The Linux system call layer (\<open>kernel/src/syscall.rs\<close>): the kernel's static state, one
  definition per \<open>sys_*\<close> function, and \<open>dispatch\<close>. A result is the \<open>isize\<close> the
  handler returns, as its 64-bit pattern, so \<open>- EBADF\<close> is the word \<open>- 9\<close>. Pointers are
  addresses in \<open>umem\<close>; the mounted image and the slices into it are immutable
  (\<open>&'static [u8]\<close>) and are kept as byte lists.
\<close>

unbundle bit_operations_syntax

section \<open>State\<close>

text \<open>
  A file descriptor. \<open>data_ptr\<close> is the memory behind the pointer of a \<open>File\<close>; the code
  keeps it and \<open>len\<close> apart, and so does the model.
\<close>

datatype FdEntry =
    Free
  | RootDir (dir_pos: u64)
  | File (data_ptr: bytes) (file_len: nat) (file_pos: u64) (file_mode: u16)

record kernel = posix_layer +
  last_exit :: u32
  exit_waitable :: bool
  mmap_base :: u64
  arch_fs :: u64
  arch_gs :: u64
  rootfs :: "bytes option"
  cwd_buf :: bytes
  cwd_len :: nat
  fd_table :: "FdEntry list"

text \<open>The values the statics are initialised with.\<close>

definition boot_kernel :: "memory \<Rightarrow> kernel" where
  "boot_kernel m =
     \<lparr>pid = 3, brk = 0x40000000, stdin_reader = None, umem = m,
      last_exit = 0, exit_waitable = False, mmap_base = 0x70000000, arch_fs = 0, arch_gs = 0,
      rootfs = None, cwd_buf = replicate 64 0, cwd_len = 1, fd_table = replicate MAX_FDS Free\<rparr>"

definition set_rootfs :: "bytes \<Rightarrow> kernel \<Rightarrow> kernel" where
  "set_rootfs img k =
     k\<lparr>rootfs := Some img, fd_table := replicate MAX_FDS Free,
       cwd_buf := (cwd_buf k)[0 := slash], cwd_len := 1\<rparr>"

definition set_fd :: "nat \<Rightarrow> FdEntry \<Rightarrow> kernel \<Rightarrow> kernel" where
  "set_fd fd e k = k\<lparr>fd_table := (fd_table k)[fd := e]\<rparr>"

definition poke :: "u64 \<Rightarrow> bytes \<Rightarrow> kernel \<Rightarrow> kernel" where
  "poke a bs k = k\<lparr>umem := mem_write (umem k) a bs\<rparr>"

section \<open>Strings and paths\<close>

text \<open>The loop of \<open>read_cstr\<close>: the length of the string at \<open>p\<close>, if a zero byte is near.\<close>

fun cstr_len :: "memory \<Rightarrow> u64 \<Rightarrow> nat \<Rightarrow> nat \<Rightarrow> nat option" where
  "cstr_len m p len 0 = None"
| "cstr_len m p len (Suc n) =
     (if m (p + of_nat len) = 0 then Some len else cstr_len m p (Suc len) n)"

definition read_cstr :: "memory \<Rightarrow> u64 \<Rightarrow> bytes option" where
  "read_cstr m p =
     (case cstr_len m p 0 CSTR_MAX of
        None \<Rightarrow> None
      | Some len \<Rightarrow> from_utf8 (mem_read m p len))"

definition normalize_path :: "bytes \<Rightarrow> bytes option" where
  "normalize_path path =
     (let trimmed = trim path in
      if trimmed = [] then Some []
      else
        (let p = (case strip_prefix (str ''./'') trimmed of
                    Some stripped \<Rightarrow> stripped | None \<Rightarrow> trimmed);
             p = trim_start_slashes p
         in if contains_slash p then None else Some p))"

definition is_dirfd_ok :: "u64 \<Rightarrow> kernel \<Rightarrow> bool" where
  "is_dirfd_ok dirfd k =
     (if dirfd = AT_FDCWD then True
      else if sint dirfd < 0 then False
      else if unat dirfd \<ge> MAX_FDS then False
      else (case fd_table k ! unat dirfd of RootDir _ \<Rightarrow> True | _ \<Rightarrow> False))"

definition path_exists :: "bytes \<Rightarrow> kernel \<Rightarrow> bool" where
  "path_exists path k =
     (if path = str ''/'' \<or> path = str ''.'' \<or> path = [] then True
      else
        (case normalize_path path of
           None \<Rightarrow> False
         | Some name \<Rightarrow>
             if name = [] then True
             else
               (case rootfs k of
                  None \<Rightarrow> False
                | Some img \<Rightarrow> (case fs_open img name of Inr _ \<Rightarrow> True | Inl _ \<Rightarrow> False))))"

section \<open>Descriptors\<close>

text \<open>The scan of \<open>alloc_fd\<close>: \<open>n\<close> slots remain, the next is \<open>i\<close>.\<close>

fun free_slot :: "FdEntry list \<Rightarrow> nat \<Rightarrow> nat \<Rightarrow> nat option" where
  "free_slot t i 0 = None"
| "free_slot t i (Suc n) = (if t ! i = Free then Some i else free_slot t (Suc i) n)"

definition alloc_fd :: "FdEntry \<Rightarrow> kernel \<Rightarrow> u64 \<times> kernel" where
  "alloc_fd e k =
     (case free_slot (fd_table k) FD_BASE (MAX_FDS - FD_BASE) of
        Some i \<Rightarrow> (of_nat i, set_fd i e k)
      | None \<Rightarrow> (- EBUSY, k))"

definition sys_openat :: "u64 \<Rightarrow> u64 \<Rightarrow> u64 \<Rightarrow> u64 \<Rightarrow> kernel \<Rightarrow> u64 \<times> kernel" where
  "sys_openat dirfd path_ptr flags mode k =
     (if path_ptr = 0 then (- EFAULT, k)
      else if \<not> is_dirfd_ok dirfd k then (- EBADF, k)
      else
        (case read_cstr (umem k) path_ptr of
           None \<Rightarrow> (- EFAULT, k)
         | Some path \<Rightarrow>
             if path = [] \<or> path = str ''.'' \<or> path = str ''/'' then alloc_fd (RootDir 0) k
             else if path = str ''..'' then alloc_fd (RootDir 0) k
             else
               (case normalize_path path of
                  None \<Rightarrow> (- ENOENT, k)
                | Some name \<Rightarrow>
                    if name = [] then alloc_fd (RootDir 0) k
                    else
                      (case rootfs k of
                         None \<Rightarrow> (- ENOENT, k)
                       | Some fs_image \<Rightarrow>
                           (case fs_open fs_image name of
                              Inr rec \<Rightarrow>
                                if flags AND O_DIRECTORY \<noteq> 0 then (- ENOTDIR, k)
                                else alloc_fd (File (fr_data rec) (length (fr_data rec)) 0
                                                 (fr_mode rec)) k
                            | Inl _ \<Rightarrow> (- ENOENT, k))))))"

definition sys_read :: "u64 \<Rightarrow> u64 \<Rightarrow> u64 \<Rightarrow> kernel \<Rightarrow> u64 \<times> kernel" where
  "sys_read fd buf len k =
     (if buf = 0 then (- EFAULT, k)
      else if unat fd \<ge> MAX_FDS then (- EBADF, k)
      else
        (case fd_table k ! unat fd of
           Free \<Rightarrow> (- EBADF, k)
         | RootDir _ \<Rightarrow> (- EISDIR, k)
         | File data tot pos mode \<Rightarrow>
             if unat pos \<ge> tot then (0, k)
             else
               (let n = min (unat len) (tot - unat pos) in
                (of_nat n,
                 set_fd (unat fd) (File data tot (pos + of_nat n) mode)
                   (poke buf (sub_slice (unat pos) n data) k)))))"

definition sys_close :: "u64 \<Rightarrow> kernel \<Rightarrow> u64 \<times> kernel" where
  "sys_close fd k =
     (if unat fd \<ge> MAX_FDS then (- EBADF, k)
      else
        (case fd_table k ! unat fd of
           Free \<Rightarrow> (- EBADF, k)
         | _ \<Rightarrow> (0, set_fd (unat fd) Free k)))"

definition root_entries_count :: "kernel \<Rightarrow> nat" where
  "root_entries_count k =
     (case rootfs k of
        None \<Rightarrow> 2
      | Some img \<Rightarrow>
          (case fs_header img of Inr h \<Rightarrow> unat (file_count h) + 2 | Inl _ \<Rightarrow> 2))"

definition root_name_by_index :: "kernel \<Rightarrow> nat \<Rightarrow> bytes option" where
  "root_name_by_index k file_idx =
     (case rootfs k of
        None \<Rightarrow> None
      | Some img \<Rightarrow>
          (case fs_entry img file_idx of Inr rec \<Rightarrow> Some (fr_name rec) | Inl _ \<Rightarrow> None))"

text \<open>
  \<open>lseek\<close> on an open descriptor: the new position, or \<open>None\<close> for \<open>EINVAL\<close>.
  \<open>end_pos\<close> is the number of directory entries or the file's length.
\<close>

definition seek_pos :: "u64 \<Rightarrow> u64 \<Rightarrow> u64 \<Rightarrow> u64 \<Rightarrow> u64 option" where
  "seek_pos pos end_pos off whence =
     (case (if whence = SEEK_SET then Some 0
            else if whence = SEEK_CUR then Some pos
            else if whence = SEEK_END then Some end_pos
            else None) of
        None \<Rightarrow> None
      | Some base \<Rightarrow>
          (let new_pos = saturating_add_i64 base off in
           if sint new_pos < 0 then None else Some new_pos))"

definition sys_lseek :: "u64 \<Rightarrow> u64 \<Rightarrow> u64 \<Rightarrow> kernel \<Rightarrow> u64 \<times> kernel" where
  "sys_lseek fd off whence k =
     (if unat fd \<ge> MAX_FDS then (- EBADF, k)
      else
        (case fd_table k ! unat fd of
           Free \<Rightarrow> (- EBADF, k)
         | RootDir pos \<Rightarrow>
             (case seek_pos pos (of_nat (root_entries_count k)) off whence of
                None \<Rightarrow> (- EINVAL, k)
              | Some p \<Rightarrow> (p, set_fd (unat fd) (RootDir p) k))
         | File data tot pos mode \<Rightarrow>
             (case seek_pos pos (of_nat tot) off whence of
                None \<Rightarrow> (- EINVAL, k)
              | Some p \<Rightarrow> (p, set_fd (unat fd) (File data tot p mode) k))))"

definition sys_dup :: "u64 \<Rightarrow> kernel \<Rightarrow> u64 \<times> kernel" where
  "sys_dup fd k =
     (if fd \<le> 2 then (fd, k)
      else if unat fd \<ge> MAX_FDS then (- EBADF, k)
      else
        (case fd_table k ! unat fd of
           Free \<Rightarrow> (- EBADF, k)
         | entry \<Rightarrow> alloc_fd entry k))"

definition sys_dup2 :: "u64 \<Rightarrow> u64 \<Rightarrow> kernel \<Rightarrow> u64 \<times> kernel" where
  "sys_dup2 oldfd newfd k =
     (if oldfd \<le> 2 then (if newfd \<le> 2 then (newfd, k) else (- EBADF, k))
      else if unat oldfd \<ge> MAX_FDS \<or> unat newfd \<ge> MAX_FDS \<or> unat newfd < FD_BASE then (- EBADF, k)
      else
        (case fd_table k ! unat oldfd of
           Free \<Rightarrow> (- EBADF, k)
         | src \<Rightarrow> (newfd, set_fd (unat newfd) src k)))"

section \<open>Status\<close>

record LinuxStat =
  st_dev :: u64
  st_ino :: u64
  st_nlink :: u64
  st_mode :: u32
  st_uid :: u32
  st_gid :: u32
  st_rdev :: u64
  st_size :: u64
  st_blksize :: u64
  st_blocks :: u64

text \<open>
  The \<open>repr(C)\<close> image of the struct: the padding word, the six time fields and the three
  unused words are zero in every \<open>LinuxStat\<close> the code builds.
\<close>

definition stat_bytes :: "LinuxStat \<Rightarrow> bytes" where
  "stat_bytes st =
     to_le 8 (st_dev st) @ to_le 8 (st_ino st) @ to_le 8 (st_nlink st) @ to_le 4 (st_mode st) @
     to_le 4 (st_uid st) @ to_le 4 (st_gid st) @ to_le 4 (0 :: u32) @ to_le 8 (st_rdev st) @
     to_le 8 (st_size st) @ to_le 8 (st_blksize st) @ to_le 8 (st_blocks st) @ replicate 72 0"

definition make_stat :: "bool \<Rightarrow> nat \<Rightarrow> u16 \<Rightarrow> u64 \<Rightarrow> LinuxStat" where
  "make_stat is_dir sz mode ino =
     (let mode_type = (if is_dir then 0x4000 else 0x8000) in
      \<lparr>st_dev = 1, st_ino = ino, st_nlink = 1, st_mode = mode_type OR (ucast mode AND 0xFFF),
       st_uid = 0, st_gid = 0, st_rdev = 0, st_size = of_nat sz, st_blksize = 4096,
       st_blocks = of_nat ((sz + 511) div 512)\<rparr>)"

definition write_stat :: "u64 \<Rightarrow> bool \<Rightarrow> nat \<Rightarrow> u16 \<Rightarrow> u64 \<Rightarrow> kernel \<Rightarrow> u64 \<times> kernel" where
  "write_stat stat_ptr is_dir sz mode ino k =
     (0, poke stat_ptr (stat_bytes (make_stat is_dir sz mode ino)) k)"

text \<open>\<open>0o040755\<close> and \<open>0o020666\<close>.\<close>

abbreviation dir_mode :: u16 where "dir_mode \<equiv> 0x41ED"
abbreviation tty_mode :: u16 where "tty_mode \<equiv> 0x21B6"

definition sys_stat_path :: "u64 \<Rightarrow> u64 \<Rightarrow> kernel \<Rightarrow> u64 \<times> kernel" where
  "sys_stat_path path_ptr stat_ptr k =
     (if path_ptr = 0 \<or> stat_ptr = 0 then (- EFAULT, k)
      else
        (case read_cstr (umem k) path_ptr of
           None \<Rightarrow> (- EFAULT, k)
         | Some path \<Rightarrow>
             if path = [] \<or> path = str ''.'' \<or> path = str ''/'' then
               write_stat stat_ptr True 0 dir_mode 1 k
             else
               (case normalize_path path of
                  None \<Rightarrow> (- ENOENT, k)
                | Some name \<Rightarrow>
                    (case rootfs k of
                       None \<Rightarrow> (- ENOENT, k)
                     | Some fs_image \<Rightarrow>
                         (case fs_open fs_image name of
                            Inr rec \<Rightarrow>
                              write_stat stat_ptr False (length (fr_data rec)) (fr_mode rec) 2 k
                          | Inl _ \<Rightarrow> (- ENOENT, k))))))"

definition sys_fstat :: "u64 \<Rightarrow> u64 \<Rightarrow> kernel \<Rightarrow> u64 \<times> kernel" where
  "sys_fstat fd stat_ptr k =
     (if stat_ptr = 0 then (- EFAULT, k)
      else if fd \<le> 2 then write_stat stat_ptr False 0 tty_mode 1 k
      else if unat fd \<ge> MAX_FDS then (- EBADF, k)
      else
        (case fd_table k ! unat fd of
           Free \<Rightarrow> (- EBADF, k)
         | RootDir _ \<Rightarrow> write_stat stat_ptr True 0 dir_mode 1 k
         | File data len pos mode \<Rightarrow> write_stat stat_ptr False len mode 2 k))"

definition sys_newfstatat :: "u64 \<Rightarrow> u64 \<Rightarrow> u64 \<Rightarrow> u64 \<Rightarrow> kernel \<Rightarrow> u64 \<times> kernel" where
  "sys_newfstatat dirfd path_ptr stat_ptr flags k =
     (if stat_ptr = 0 then (- EFAULT, k)
      else if path_ptr = 0 then (- EFAULT, k)
      else
        (case read_cstr (umem k) path_ptr of
           None \<Rightarrow> (- EFAULT, k)
         | Some path \<Rightarrow>
             if path = [] \<and> flags AND AT_EMPTY_PATH \<noteq> 0 then
               (if dirfd = AT_FDCWD then write_stat stat_ptr True 0 dir_mode 1 k
                else if sint dirfd < 0 then (- EBADF, k)
                else sys_fstat dirfd stat_ptr k)
             else if \<not> is_dirfd_ok dirfd k then (- EBADF, k)
             else sys_stat_path path_ptr stat_ptr k))"

section \<open>Directory entries\<close>

definition dirent_record_len :: "nat \<Rightarrow> nat" where
  "dirent_record_len name_len = (let raw = 19 + name_len + 1 in (raw + 7) div 8 * 8)"

text \<open>The writes of one record at \<open>rec\<close>, in the order of the code.\<close>

definition write_dirent ::
  "memory \<Rightarrow> u64 \<Rightarrow> bytes \<Rightarrow> u8 \<Rightarrow> u64 \<Rightarrow> nat \<Rightarrow> nat \<Rightarrow> memory" where
  "write_dirent m rec name typ ino pos reclen =
     (let m = mem_write m rec (to_le 8 ino);
          m = mem_write m (rec + 8) (to_le 8 (of_nat pos + 1 :: u64));
          m = mem_write m (rec + 16) (to_le 2 (of_nat reclen :: u16));
          m = mem_write m (rec + 18) [typ];
          m = mem_write m (rec + 19) name;
          m = mem_write m (rec + of_nat (19 + length name)) [0]
      in mem_write m (rec + of_nat (20 + length name)) (replicate (reclen - (20 + length name)) 0))"

definition dirent_at :: "kernel \<Rightarrow> nat \<Rightarrow> (bytes \<times> u8 \<times> u64) option" where
  "dirent_at k pos =
     (if pos = 0 then Some (str ''.'', DT_DIR, 1)
      else if pos = 1 then Some (str ''..'', DT_DIR, 1)
      else
        (let file_idx = pos - 2 in
         case root_name_by_index k file_idx of
           Some n \<Rightarrow> Some (n, DT_REG, of_nat (file_idx + 2))
         | None \<Rightarrow> None))"

text \<open>
  The loop: \<open>r\<close> entries remain, the next is \<open>pos\<close>. The result is the memory, the
  position, and the bytes written, or \<open>None\<close> for the \<open>EINVAL\<close> of a buffer too small for
  one record.
\<close>

fun getdents_loop ::
  "kernel \<Rightarrow> u64 \<Rightarrow> nat \<Rightarrow> nat \<Rightarrow> nat \<Rightarrow> nat \<Rightarrow> memory \<Rightarrow> memory \<times> nat \<times> nat option" where
  "getdents_loop k dirp count 0 pos written m = (m, pos, Some written)"
| "getdents_loop k dirp count (Suc r) pos written m =
     (case dirent_at k pos of
        None \<Rightarrow> (m, pos, Some written)
      | Some (name, typ, ino) \<Rightarrow>
          (let reclen = dirent_record_len (length name) in
           if written + reclen > count then
             (if written = 0 then (m, pos, None) else (m, pos, Some written))
           else
             getdents_loop k dirp count r (Suc pos) (written + reclen)
               (write_dirent m (dirp + of_nat written) name typ ino pos reclen)))"

definition sys_getdents64 :: "u64 \<Rightarrow> u64 \<Rightarrow> u64 \<Rightarrow> kernel \<Rightarrow> u64 \<times> kernel" where
  "sys_getdents64 fd dirp count k =
     (if dirp = 0 then (- EFAULT, k)
      else if unat fd \<ge> MAX_FDS then (- EBADF, k)
      else
        (case fd_table k ! unat fd of
           RootDir pos \<Rightarrow>
             (let tot = root_entries_count k in
              if unat pos \<ge> tot then (0, k)
              else
                (case getdents_loop k dirp (unat count) (tot - unat pos) (unat pos) 0 (umem k) of
                   (m, pos', None) \<Rightarrow> (- EINVAL, k)
                 | (m, pos', Some written) \<Rightarrow>
                     (of_nat written, set_fd (unat fd) (RootDir (of_nat pos')) (k\<lparr>umem := m\<rparr>))))
         | _ \<Rightarrow> (- ENOTDIR, k)))"

section \<open>Working directory, links and access\<close>

definition sys_getcwd :: "u64 \<Rightarrow> u64 \<Rightarrow> kernel \<Rightarrow> u64 \<times> kernel" where
  "sys_getcwd buf sz k =
     (if buf = 0 \<or> sz = 0 then (- EINVAL, k)
      else if cwd_len k + 1 > unat sz then (- ERANGE, k)
      else (buf, poke (buf + of_nat (cwd_len k)) [0]
                   (poke buf (take (cwd_len k) (cwd_buf k)) k)))"

definition sys_chdir :: "u64 \<Rightarrow> kernel \<Rightarrow> u64 \<times> kernel" where
  "sys_chdir path_ptr k =
     (if path_ptr = 0 then (- EFAULT, k)
      else
        (case read_cstr (umem k) path_ptr of
           None \<Rightarrow> (- EFAULT, k)
         | Some path \<Rightarrow>
             if path = str ''/'' \<or> path = str ''.'' \<or> path = [] then
               (0, k\<lparr>cwd_buf := (cwd_buf k)[0 := slash], cwd_len := 1\<rparr>)
             else (- ENOENT, k)))"

definition sys_access :: "u64 \<Rightarrow> kernel \<Rightarrow> u64 \<times> kernel" where
  "sys_access path_ptr k =
     (if path_ptr = 0 then (- EFAULT, k)
      else
        (case read_cstr (umem k) path_ptr of
           Some path \<Rightarrow> if path_exists path k then (0, k) else (- ENOENT, k)
         | None \<Rightarrow> (- EFAULT, k)))"

definition sys_faccessat :: "u64 \<Rightarrow> u64 \<Rightarrow> kernel \<Rightarrow> u64 \<times> kernel" where
  "sys_faccessat dirfd path_ptr k = sys_access path_ptr k"

definition readlink_impl :: "bytes \<Rightarrow> u64 \<Rightarrow> u64 \<Rightarrow> kernel \<Rightarrow> u64 \<times> kernel" where
  "readlink_impl path buf bufsz k =
     (if buf = 0 \<or> bufsz = 0 then (- EINVAL, k)
      else if path = str ''/proc/self/exe'' \<or> path = str ''proc/self/exe'' then
        (let target = str ''/bin/busybox''; n = min (length target) (unat bufsz)
         in (of_nat n, poke buf (take n target) k))
      else (- ENOENT, k))"

definition sys_readlink :: "u64 \<Rightarrow> u64 \<Rightarrow> u64 \<Rightarrow> kernel \<Rightarrow> u64 \<times> kernel" where
  "sys_readlink path_ptr buf bufsz k =
     (if path_ptr = 0 then (- EFAULT, k)
      else
        (case read_cstr (umem k) path_ptr of
           None \<Rightarrow> (- EFAULT, k)
         | Some path \<Rightarrow> readlink_impl path buf bufsz k))"

definition sys_readlinkat :: "u64 \<Rightarrow> u64 \<Rightarrow> u64 \<Rightarrow> u64 \<Rightarrow> kernel \<Rightarrow> u64 \<times> kernel" where
  "sys_readlinkat dirfd path_ptr buf bufsz k = sys_readlink path_ptr buf bufsz k"

section \<open>System information\<close>

definition utsname_vals :: "bytes list" where
  "utsname_vals =
     [str ''LeonOS'', str ''leonos3'', str ''0.1.0'', str ''#1 LeonOS'', str ''x86_64'', []]"

text \<open>One field: 65 zero bytes, then at most 64 of the value.\<close>

definition write_utsfield :: "u64 \<Rightarrow> nat \<Rightarrow> bytes \<Rightarrow> kernel \<Rightarrow> kernel" where
  "write_utsfield buf i s k =
     (let base = buf + of_nat (i * 65); n = min (length s) 64 in
      poke base (take n s) (poke base (replicate 65 0) k))"

definition sys_uname :: "u64 \<Rightarrow> kernel \<Rightarrow> u64 \<times> kernel" where
  "sys_uname buf k =
     (if buf = 0 then (- EFAULT, k)
      else (0, fold (\<lambda>i. write_utsfield buf i (utsname_vals ! i)) [0..<6] k))"

definition sys_clock_gettime :: "u64 \<Rightarrow> u64 \<Rightarrow> kernel \<Rightarrow> u64 \<times> kernel" where
  "sys_clock_gettime clock_id tp k =
     (if tp = 0 then (- EFAULT, k)
      else (0, poke (tp + 8) (to_le 8 (0 :: u64)) (poke tp (to_le 8 (0 :: u64)) k)))"

definition sys_gettimeofday :: "u64 \<Rightarrow> u64 \<Rightarrow> kernel \<Rightarrow> u64 \<times> kernel" where
  "sys_gettimeofday tv tz k =
     (if tv = 0 then (0, k)
      else (0, poke (tv + 8) (to_le 8 (0 :: u64)) (poke tv (to_le 8 (0 :: u64)) k)))"

text \<open>\<open>x = x.wrapping_mul(37).wrapping_add(17)\<close>, starting after \<open>x\<close>.\<close>

fun random_stream :: "nat \<Rightarrow> u8 \<Rightarrow> bytes" where
  "random_stream 0 x = []"
| "random_stream (Suc n) x = (let x' = x * 37 + 17 in x' # random_stream n x')"

definition sys_getrandom :: "u64 \<Rightarrow> u64 \<Rightarrow> kernel \<Rightarrow> u64 \<times> kernel" where
  "sys_getrandom buf len k =
     (if buf = 0 then (- EFAULT, k)
      else (len, poke buf (random_stream (unat len) 0xA7) k))"

section \<open>Exit status\<close>

definition mark_exit_code :: "u32 \<Rightarrow> kernel \<Rightarrow> kernel" where
  "mark_exit_code code k = k\<lparr>last_exit := code, exit_waitable := True\<rparr>"

definition last_exit_code :: "kernel \<Rightarrow> u32" where
  "last_exit_code k = last_exit k"

definition sys_wait4 :: "u64 \<Rightarrow> u64 \<Rightarrow> u64 \<Rightarrow> u64 \<Rightarrow> kernel \<Rightarrow> u64 \<times> kernel" where
  "sys_wait4 wpid status_ptr options rusage k =
     (let self_pid = (ucast (getpid k) :: u64) in
      if sint wpid > 0 \<and> wpid \<noteq> self_pid then (- ECHILD, k)
      else if \<not> exit_waitable k then (- ECHILD, k\<lparr>exit_waitable := False\<rparr>)
      else
        (let k = k\<lparr>exit_waitable := False\<rparr>;
             code = last_exit k;
             status = push_bit 8 (code AND 0xFF);
             k = (if status_ptr \<noteq> 0 then poke status_ptr (to_le 4 status) k else k)
         in (self_pid, k)))"

section \<open>dispatch\<close>

definition rootfs_image :: "kernel \<Rightarrow> bytes option" where
  "rootfs_image k = rootfs k"

definition posix_snapshot :: "kernel \<Rightarrow> u32 \<times> u64" where
  "posix_snapshot k = (getpid k, brk_get k)"

fun ret :: "u64 \<times> kernel \<Rightarrow> ('e, kernel, u64) run" where
  "ret (v, k) = Done v k"

text \<open>
  \<open>SYS_MMAP\<close> rounds the length up to whole pages and bumps \<open>MMAP_BASE\<close>; the rounding
  overflows, and panics, for the largest lengths.
\<close>

definition sys_mmap :: "u64 \<Rightarrow> kernel \<Rightarrow> ('e, kernel, u64) run" where
  "sys_mmap arg1 k =
     (let len = max arg1 0x1000 in
      or_panic (checked_add_u64 len 0xFFF) (\<lambda>l.
        (let align_len = l AND NOT 0xFFF in
         Done (mmap_base k) (k\<lparr>mmap_base := mmap_base k + align_len\<rparr>))))"

definition sys_arch_prctl :: "u64 \<Rightarrow> u64 \<Rightarrow> kernel \<Rightarrow> u64 \<times> kernel" where
  "sys_arch_prctl arg0 arg1 k =
     (if arg0 = 0x1001 then (0, k\<lparr>arch_gs := arg1\<rparr>)
      else if arg0 = 0x1002 then (0, k\<lparr>arch_fs := arg1\<rparr>)
      else if arg0 = 0x1003 \<or> arg0 = 0x1004 then (0, k)
      else (- EINVAL, k))"

definition dispatch ::
  "u64 \<Rightarrow> u64 \<Rightarrow> u64 \<Rightarrow> u64 \<Rightarrow> u64 \<Rightarrow> u64 \<Rightarrow> u64 \<Rightarrow> kernel \<Rightarrow> ('e, kernel, u64) run" where
  "dispatch nr arg0 arg1 arg2 arg3 arg4 arg5 k =
     (if nr = SYS_READ then
        (if arg0 \<le> 2 then posix_read arg0 arg1 arg2 k else ret (sys_read arg0 arg1 arg2 k))
      else if nr = SYS_WRITE then Done (posix_write arg0 arg1 arg2) k
      else if nr = SYS_BRK then ret (brk_set arg0 k)
      else if nr = SYS_GETPID then Done (ucast (getpid k)) k
      else if nr = SYS_GETTID then Done (ucast (getpid k)) k
      else if nr = SYS_SET_TID_ADDRESS then Done (ucast (getpid k)) k
      else if nr = SYS_EXIT \<or> nr = SYS_EXIT_GROUP then
        Done 0 (k\<lparr>last_exit := ucast arg0, exit_waitable := True\<rparr>)
      else if nr = SYS_CLOSE then (if arg0 \<le> 2 then Done 0 k else ret (sys_close arg0 k))
      else if nr = SYS_LSEEK then
        (if arg0 \<le> 2 then Done arg1 k else ret (sys_lseek arg0 arg1 arg2 k))
      else if nr = SYS_IOCTL then Done (- ENOTTY) k
      else if nr = SYS_MMAP then sys_mmap arg1 k
      else if nr = SYS_MPROTECT \<or> nr = SYS_MUNMAP then Done 0 k
      else if nr = SYS_RT_SIGACTION \<or> nr = SYS_RT_SIGPROCMASK \<or> nr = SYS_SIGALTSTACK then Done 0 k
      else if nr = SYS_CLOCK_GETTIME then ret (sys_clock_gettime arg0 arg1 k)
      else if nr = SYS_GETTIMEOFDAY then ret (sys_gettimeofday arg0 arg1 k)
      else if nr = SYS_NANOSLEEP then Done 0 k
      else if nr = SYS_UNAME then ret (sys_uname arg0 k)
      else if nr = SYS_GETUID \<or> nr = SYS_GETEUID \<or> nr = SYS_GETGID \<or> nr = SYS_GETEGID then Done 0 k
      else if nr = SYS_GETPPID then Done 1 k
      else if nr = SYS_GETPGRP then Done 1 k
      else if nr = SYS_SETSID then Done 1 k
      else if nr = SYS_ARCH_PRCTL then ret (sys_arch_prctl arg0 arg1 k)
      else if nr = SYS_SET_ROBUST_LIST \<or> nr = SYS_RSEQ \<or> nr = SYS_PRLIMIT64 \<or> nr = SYS_FUTEX then
        Done 0 k
      else if nr = SYS_GETRANDOM then ret (sys_getrandom arg0 arg1 k)
      else if nr = SYS_OPENAT then ret (sys_openat arg0 arg1 arg2 arg3 k)
      else if nr = SYS_NEWFSTATAT then ret (sys_newfstatat arg0 arg1 arg2 arg3 k)
      else if nr = SYS_STAT \<or> nr = SYS_LSTAT then ret (sys_stat_path arg0 arg1 k)
      else if nr = SYS_FSTAT then ret (sys_fstat arg0 arg1 k)
      else if nr = SYS_STATX then Done 0 k
      else if nr = SYS_GETDENTS64 then ret (sys_getdents64 arg0 arg1 arg2 k)
      else if nr = SYS_READLINKAT then ret (sys_readlinkat arg0 arg1 arg2 arg3 k)
      else if nr = SYS_READLINK then ret (sys_readlink arg0 arg1 arg2 k)
      else if nr = SYS_FACCESSAT then ret (sys_faccessat arg0 arg1 k)
      else if nr = SYS_ACCESS then ret (sys_access arg0 k)
      else if nr = SYS_DUP then ret (sys_dup arg0 k)
      else if nr = SYS_DUP2 then ret (sys_dup2 arg0 arg1 k)
      else if nr = SYS_FCNTL \<or> nr = SYS_FSYNC \<or> nr = SYS_FDATASYNC \<or> nr = SYS_TRUNCATE \<or>
              nr = SYS_FTRUNCATE then Done 0 k
      else if nr = SYS_GETCWD then ret (sys_getcwd arg0 arg1 k)
      else if nr = SYS_CHDIR then ret (sys_chdir arg0 k)
      else if nr = SYS_RENAME \<or> nr = SYS_MKDIR \<or> nr = SYS_RMDIR \<or> nr = SYS_CREAT \<or>
              nr = SYS_LINK \<or> nr = SYS_UNLINK \<or> nr = SYS_CHMOD \<or> nr = SYS_CHOWN \<or>
              nr = SYS_MKDIRAT \<or> nr = SYS_MKNODAT \<or> nr = SYS_UNLINKAT \<or> nr = SYS_RENAMEAT then
        Done 0 k
      else if nr = SYS_PREAD64 \<or> nr = SYS_PWRITE64 \<or> nr = SYS_READV \<or> nr = SYS_WRITEV \<or>
              nr = SYS_PSELECT6 \<or> nr = SYS_PPOLL \<or> nr = SYS_POLL \<or> nr = SYS_SELECT then Done 0 k
      else if nr = SYS_WAIT4 then ret (sys_wait4 arg0 arg1 arg2 arg3 k)
      else if nr = SYS_SOCKET \<or> nr = SYS_CONNECT \<or> nr = SYS_ACCEPT \<or> nr = SYS_SENDTO \<or>
              nr = SYS_RECVFROM \<or> nr = SYS_SHUTDOWN \<or> nr = SYS_BIND \<or> nr = SYS_LISTEN then
        Done (- ENOSYS) k
      else if nr = SYS_CLONE \<or> nr = SYS_FORK \<or> nr = SYS_VFORK \<or> nr = SYS_EXECVE \<or>
              nr = SYS_PIPE \<or> nr = SYS_MREMAP \<or> nr = SYS_MSYNC \<or> nr = SYS_MINCORE \<or>
              nr = SYS_MADVISE \<or> nr = SYS_MEMFD_CREATE then Done (- ENOSYS) k
      else Done (- ENOSYS) k)"

end
