(* ===== verification/Interp.thy ===== *)
theory Interp
  imports Guest_Mem Syscall
begin

text \<open>
  The instruction interpreter (\<open>kernel/src/elf_runner.rs\<close>): the CPU, the instructions in
  the order \<open>exec_one\<close> tests them, the system calls of a guest, and the loader. Registers
  are 64-bit words; the signed additions of the code panic on overflow, as does advancing
  \<open>rip\<close> past \<open>2 ^ 64\<close>.
\<close>

unbundle bit_operations_syntax

definition ENOEXEC :: u64 where "ENOEXEC = 8"

section \<open>State\<close>

record cpu =
  rax :: u64
  rbp :: u64
  rbx :: u64
  rsp :: u64
  rdi :: u64
  rsi :: u64
  rdx :: u64
  rcx :: u64
  r8 :: u64
  r9 :: u64
  r10 :: u64
  r12 :: u64
  r13 :: u64
  rip :: u64
  zf :: bool
  sf :: bool

text \<open>
  What an instruction acts on: the registers, the guest's memory, the terminal (the bytes
  given to \<open>terminal.process\<close> so far) and the kernel's statics.
\<close>

record machine = cpu +
  gmem :: bytes
  screen :: bytes
  kern :: kernel

type_synonym 'a mrun = "(RunError, machine, 'a) run"

section \<open>Registers and flags\<close>

definition get_al :: "'a cpu_scheme \<Rightarrow> u8" where
  "get_al c = ucast (rax c AND 0xFF)"

definition set_al :: "u8 \<Rightarrow> 'a cpu_scheme \<Rightarrow> 'a cpu_scheme" where
  "set_al v c = c\<lparr>rax := (rax c AND NOT 0xFF) OR ucast v\<rparr>"

definition get_reg64 :: "'a cpu_scheme \<Rightarrow> u8 \<Rightarrow> u64" where
  "get_reg64 c reg =
     (if reg = 0 then rax c else if reg = 1 then rcx c else if reg = 2 then rdx c
      else if reg = 3 then rbx c else if reg = 4 then rsp c else if reg = 5 then rbp c
      else if reg = 6 then rsi c else if reg = 7 then rdi c else 0)"

definition set_reg64 :: "u8 \<Rightarrow> u64 \<Rightarrow> 'a cpu_scheme \<Rightarrow> 'a cpu_scheme" where
  "set_reg64 reg v c =
     (if reg = 0 then c\<lparr>rax := v\<rparr> else if reg = 1 then c\<lparr>rcx := v\<rparr>
      else if reg = 2 then c\<lparr>rdx := v\<rparr> else if reg = 3 then c\<lparr>rbx := v\<rparr>
      else if reg = 4 then c\<lparr>rsp := v\<rparr> else if reg = 5 then c\<lparr>rbp := v\<rparr>
      else if reg = 6 then c\<lparr>rsi := v\<rparr> else if reg = 7 then c\<lparr>rdi := v\<rparr> else c)"

text \<open>\<open>x as i8 as i64\<close>.\<close>

definition sext8 :: "u8 \<Rightarrow> u64" where
  "sext8 b = scast b"

definition set_flags :: "u64 \<Rightarrow> 'a cpu_scheme \<Rightarrow> 'a cpu_scheme" where
  "set_flags v c = c\<lparr>zf := (v = 0), sf := (drop_bit 63 v \<noteq> 0)\<rparr>"

section \<open>Steps\<close>

text \<open>\<open>cpu.rip += n; return Ok(false)\<close>.\<close>

definition adv :: "u64 \<Rightarrow> machine \<Rightarrow> bool mrun" where
  "adv n s = or_panic (checked_add_u64 (rip s) n) (\<lambda>r. Done False (s\<lparr>rip := r\<rparr>))"

definition push_u64 :: "u64 \<Rightarrow> u64 \<Rightarrow> machine \<Rightarrow> unit mrun" where
  "push_u64 base v s =
     with_res s (ok_or AddressOutOfRange (checked_sub_u64 (rsp s) 8)) (\<lambda>new_rsp.
     with_res s (write_u64 base (gmem s) new_rsp v) (\<lambda>m.
       Done () (s\<lparr>gmem := m, rsp := new_rsp\<rparr>)))"

definition pop_u64 :: "u64 \<Rightarrow> machine \<Rightarrow> u64 mrun" where
  "pop_u64 base s =
     with_res s (read_u64 base (gmem s) (rsp s)) (\<lambda>v.
     with_res s (ok_or AddressOutOfRange (checked_add_u64 (rsp s) 8)) (\<lambda>r.
       Done v (s\<lparr>rsp := r\<rparr>)))"

definition push_adv :: "u64 \<Rightarrow> u64 \<Rightarrow> u64 \<Rightarrow> machine \<Rightarrow> bool mrun" where
  "push_adv base v n s = and_then (push_u64 base v s) (\<lambda>_. adv n)"

definition pop_adv :: "u64 \<Rightarrow> (u64 \<Rightarrow> machine \<Rightarrow> machine) \<Rightarrow> u64 \<Rightarrow> machine \<Rightarrow> bool mrun" where
  "pop_adv base setr n s = and_then (pop_u64 base s) (\<lambda>v s. adv n (setr v s))"

text \<open>An operand fetched at \<open>cpu.rip + n\<close>.\<close>

definition imm_u32 :: "u64 \<Rightarrow> u64 \<Rightarrow> machine \<Rightarrow> u32 mrun" where
  "imm_u32 base n s =
     or_panic (checked_add_u64 (rip s) n) (\<lambda>a.
     with_res s (read_u32 base (gmem s) a) (\<lambda>v. Done v s))"

definition imm_i32 :: "u64 \<Rightarrow> u64 \<Rightarrow> machine \<Rightarrow> u64 mrun" where
  "imm_i32 base n s =
     or_panic (checked_add_u64 (rip s) n) (\<lambda>a.
     with_res s (read_i32 base (gmem s) a) (\<lambda>v. Done v s))"

text \<open>The groups of tests in \<open>exec_one\<close>: \<open>None\<close> falls through to the next.\<close>

definition exec_stack_ops :: "u64 \<Rightarrow> bytes \<Rightarrow> machine \<Rightarrow> bool mrun option" where
  "exec_stack_ops base b s =
     (if b ! 0 = 0xF3 \<and> b ! 1 = 0x0F \<and> b ! 2 = 0x1E \<and> b ! 3 = 0xFA then Some (adv 4 s)
      else if b ! 0 = 0x90 then Some (adv 1 s)
      else if b ! 0 = 0xC3 \<or> b ! 0 = 0xF4 then Some (Done True s)
      else if b ! 0 = 0x41 \<and> b ! 1 = 0x55 then Some (push_adv base (r13 s) 2 s)
      else if b ! 0 = 0x41 \<and> b ! 1 = 0x5D then
        Some (pop_adv base (\<lambda>v s. s\<lparr>r13 := v\<rparr>) 2 s)
      else if b ! 0 = 0x41 \<and> b ! 1 = 0x54 then Some (push_adv base (r12 s) 2 s)
      else if b ! 0 = 0x41 \<and> b ! 1 = 0x5C then
        Some (pop_adv base (\<lambda>v s. s\<lparr>r12 := v\<rparr>) 2 s)
      else if b ! 0 = 0x53 then Some (push_adv base (rbx s) 1 s)
      else if b ! 0 = 0x5B then Some (pop_adv base (\<lambda>v s. s\<lparr>rbx := v\<rparr>) 1 s)
      else if b ! 0 = 0x48 \<and> b ! 1 = 0x63 \<and> b ! 2 = 0xC6 then
        Some (adv 3 (s\<lparr>rax := scast (ucast (rsi s) :: u32)\<rparr>))
      else if b ! 0 = 0x49 \<and> b ! 1 = 0x89 \<and> b ! 2 = 0xFD then Some (adv 3 (s\<lparr>r13 := rdi s\<rparr>))
      else if b ! 0 = 0x55 then Some (push_adv base (rbp s) 1 s)
      else if b ! 0 = 0x5D then Some (pop_adv base (\<lambda>v s. s\<lparr>rbp := v\<rparr>) 1 s)
      else if b ! 0 = 0x48 \<and> b ! 1 = 0x8D \<and> b ! 2 = 0x7C \<and> b ! 3 = 0xC2 \<and> b ! 4 = 0x08 then
        Some (adv 5 (s\<lparr>rdi := rdx s + rax s * 8 + 8\<rparr>))
      else if b ! 0 = 0x48 \<and> b ! 1 = 0x89 \<and> b ! 2 = 0x7C \<and> b ! 3 = 0xC2 \<and> b ! 4 = 0x08 then
        Some (with_res s (write_u64 base (gmem s) (rdx s + rax s * 8 + 8) (rdi s)) (\<lambda>m.
          adv 5 (s\<lparr>gmem := m\<rparr>)))
      else if b ! 0 = 0x48 \<and> b ! 1 = 0x8B \<and> b ! 2 = 0x7C \<and> b ! 3 = 0xC2 \<and> b ! 4 = 0x08 then
        Some (with_res s (read_u64 base (gmem s) (rdx s + rax s * 8 + 8)) (\<lambda>v.
          adv 5 (s\<lparr>rdi := v\<rparr>)))
      else if b ! 0 = 0x48 \<and> b ! 1 = 0x89 \<and> b ! 2 = 0xC5 then Some (adv 3 (s\<lparr>rbp := rax s\<rparr>))
      else if b ! 0 = 0x48 \<and> b ! 1 = 0x89 \<and> b ! 2 = 0xE5 then Some (adv 3 (s\<lparr>rbp := rsp s\<rparr>))
      else if b ! 0 = 0x48 \<and> b ! 1 = 0x89 \<and> b ! 2 = 0xEC then Some (adv 3 (s\<lparr>rsp := rbp s\<rparr>))
      else None)"

text \<open>\<open>add\<close>, \<open>or\<close> and \<open>sub\<close> with an immediate; the other \<open>/r\<close> digits fall through.\<close>

definition alu_op :: "u8 \<Rightarrow> u64 \<Rightarrow> u64 \<Rightarrow> u64" where
  "alu_op opc cur imm =
     (if opc = 0 then cur + imm else if opc = 1 then cur OR imm
      else if opc = 5 then cur - imm else cur)"

definition exec_alu :: "u64 \<Rightarrow> bytes \<Rightarrow> machine \<Rightarrow> bool mrun option" where
  "exec_alu base b s =
     (let opc = drop_bit 3 (b ! 2) AND 0x07; reg = b ! 2 AND 0x07; cur = get_reg64 s reg;
          done = (opc = 0 \<or> opc = 1 \<or> opc = 5)
      in
      if b ! 0 = 0x48 \<and> b ! 1 = 0x83 \<and> b ! 2 AND 0xC0 = 0xC0 \<and> done then
        Some (adv 4 (set_reg64 reg (alu_op opc cur (sext8 (b ! 3))) s))
      else if b ! 0 = 0x48 \<and> b ! 1 = 0x81 \<and> b ! 2 AND 0xC0 = 0xC0 then
        (case imm_u32 base 3 s of
           Done v _ \<Rightarrow>
             if done then Some (adv 7 (set_reg64 reg (alu_op opc cur (scast v)) s)) else None
         | Fail e s \<Rightarrow> Some (Fail e s) | Panic \<Rightarrow> Some Panic | Hang \<Rightarrow> Some Hang)
      else None)"

definition exec_moves :: "bytes \<Rightarrow> machine \<Rightarrow> bool mrun option" where
  "exec_moves b s =
     (if b ! 0 = 0x48 \<and> b ! 1 = 0x89 \<and> b ! 2 = 0xC7 then Some (adv 3 (s\<lparr>rdi := rax s\<rparr>))
      else if b ! 0 = 0x48 \<and> b ! 1 = 0x89 \<and> b ! 2 = 0xF8 then Some (adv 3 (s\<lparr>rax := rdi s\<rparr>))
      else if b ! 0 = 0x4C \<and> b ! 1 = 0x89 \<and> b ! 2 = 0xC2 then Some (adv 3 (s\<lparr>rdx := r8 s\<rparr>))
      else if b ! 0 = 0x4C \<and> b ! 1 = 0x89 \<and> b ! 2 = 0xCE then Some (adv 3 (s\<lparr>rsi := r9 s\<rparr>))
      else if b ! 0 = 0x48 \<and> b ! 1 = 0x89 \<and> b ! 2 = 0xD7 then Some (adv 3 (s\<lparr>rdi := rdx s\<rparr>))
      else if b ! 0 = 0x48 \<and> b ! 1 = 0x89 \<and> b ! 2 = 0xD6 then Some (adv 3 (s\<lparr>rsi := rdx s\<rparr>))
      else if b ! 0 = 0x48 \<and> b ! 1 = 0x31 \<and> b ! 2 = 0xED then Some (adv 3 (s\<lparr>rbp := 0\<rparr>))
      else if b ! 0 = 0x48 \<and> b ! 1 = 0x89 \<and> b ! 2 = 0xE7 then Some (adv 3 (s\<lparr>rdi := rsp s\<rparr>))
      else None)"

text \<open>\<open>8B /r\<close>: \<open>mov r32, [r/m64 + disp]\<close> with no SIB byte.\<close>

definition exec_load :: "u64 \<Rightarrow> bytes \<Rightarrow> machine \<Rightarrow> bool mrun option" where
  "exec_load base b s =
     (if b ! 0 = 0x8B then
        (let modrm = b ! 1;
             md = drop_bit 6 modrm AND 0x03;
             reg = drop_bit 3 modrm AND 0x07;
             rm = modrm AND 0x07;
             setr = (\<lambda>v s. if reg = 0 then s\<lparr>rax := v\<rparr> else if reg = 1 then s\<lparr>rcx := v\<rparr>
                      else if reg = 2 then s\<lparr>rdx := v\<rparr> else if reg = 6 then s\<lparr>rsi := v\<rparr>
                      else if reg = 7 then s\<lparr>rdi := v\<rparr> else s);
             load = (\<lambda>addr. with_res s (read_u32 base (gmem s) addr) (\<lambda>v.
                      adv (if md = 1 then 3 else 2) (setr (ucast v) s)))
         in if rm \<noteq> 4 then
              (if md = 0 then (if rm = 5 then None else Some (load (get_reg64 s rm)))
               else if md = 1 then
                 Some (or_panic (checked_add_i64 (get_reg64 s rm) (sext8 (b ! 2))) load)
               else None)
            else None)
      else None)"

definition exec_lea :: "bytes \<Rightarrow> machine \<Rightarrow> bool mrun option" where
  "exec_lea b s =
     (let modrm = b ! 2;
          md = drop_bit 6 modrm AND 0x03;
          reg = drop_bit 3 modrm AND 0x07;
          rm = modrm AND 0x07;
          addr = checked_add_i64 (get_reg64 s rm) (sext8 (b ! 3))
      in
      if b ! 0 = 0x48 \<and> b ! 1 = 0x8D \<and> md = 1 \<and> rm \<noteq> 4 then
        Some (or_panic addr (\<lambda>addr.
          adv 4 (if reg = 0 then s\<lparr>rax := addr\<rparr> else if reg = 2 then s\<lparr>rdx := addr\<rparr>
                 else if reg = 5 then s\<lparr>rbp := addr\<rparr> else if reg = 6 then s\<lparr>rsi := addr\<rparr>
                 else if reg = 7 then s\<lparr>rdi := addr\<rparr> else s)))
      else if b ! 0 = 0x4C \<and> b ! 1 = 0x8D \<and> md = 1 \<and> rm \<noteq> 4 then
        Some (or_panic addr (\<lambda>addr.
          adv 4 (if reg = 0 then s\<lparr>r8 := addr\<rparr> else if reg = 1 then s\<lparr>r9 := addr\<rparr> else s)))
      else None)"

definition exec_moves2 :: "u64 \<Rightarrow> bytes \<Rightarrow> machine \<Rightarrow> bool mrun option" where
  "exec_moves2 base b s =
     (if b ! 0 = 0x48 \<and> b ! 1 = 0x8B \<and> b ! 2 = 0x37 then
        Some (with_res s (read_u64 base (gmem s) (rdi s)) (\<lambda>v. adv 3 (s\<lparr>rsi := v\<rparr>)))
      else if b ! 0 = 0x48 \<and> b ! 1 = 0x8D \<and> b ! 2 = 0x57 \<and> b ! 3 = 0x08 then
        Some (adv 4 (s\<lparr>rdx := rdi s + 8\<rparr>))
      else if b ! 0 = 0x48 \<and> b ! 1 = 0x89 \<and> b ! 2 = 0xE2 then Some (adv 3 (s\<lparr>rdx := rsp s\<rparr>))
      else if b ! 0 = 0x48 \<and> b ! 1 = 0x89 \<and> b ! 2 = 0xE6 then Some (adv 3 (s\<lparr>rsi := rsp s\<rparr>))
      else if b ! 0 = 0x49 \<and> b ! 1 = 0x89 \<and> b ! 2 = 0xD1 then Some (adv 3 (s\<lparr>r9 := rdx s\<rparr>))
      else if b ! 0 = 0x49 \<and> b ! 1 = 0x89 \<and> b ! 2 = 0xD0 then Some (adv 3 (s\<lparr>r8 := rdx s\<rparr>))
      else if b ! 0 = 0x48 \<and> b ! 1 = 0x83 \<and> b ! 2 = 0xE4 then
        Some (adv 4 (s\<lparr>rsp := rsp s AND sext8 (b ! 3)\<rparr>))
      else if b ! 0 = 0x4C \<and> b ! 1 = 0x8D \<and> b ! 2 = 0x4C \<and> b ! 3 = 0x24 then
        Some (or_panic (checked_add_i64 (rsp s) (sext8 (b ! 4))) (\<lambda>a. adv 5 (s\<lparr>r9 := a\<rparr>)))
      else if b ! 0 = 0x50 then Some (push_adv base (rax s) 1 s)
      else if b ! 0 = 0x54 then Some (push_adv base (rsp s) 1 s)
      else if b ! 0 = 0x5E then Some (pop_adv base (\<lambda>v s. s\<lparr>rsi := v\<rparr>) 1 s)
      else None)"

definition exec_zero :: "bytes \<Rightarrow> machine \<Rightarrow> bool mrun option" where
  "exec_zero b s =
     (if b ! 0 = 0x45 \<and> b ! 1 = 0x31 \<and> b ! 2 = 0xC0 then Some (adv 3 (s\<lparr>r8 := 0\<rparr>))
      else if b ! 0 = 0x45 \<and> b ! 1 = 0x31 \<and> b ! 2 = 0xC9 then Some (adv 3 (s\<lparr>r9 := 0\<rparr>))
      else if b ! 0 = 0x45 \<and> b ! 1 = 0x31 \<and> b ! 2 = 0xD2 then Some (adv 3 (s\<lparr>r10 := 0\<rparr>))
      else if b ! 0 = 0x31 \<and> b ! 1 = 0xED then Some (adv 2 (s\<lparr>rbp := 0\<rparr>))
      else if b ! 0 = 0x31 \<and> b ! 1 = 0xC9 then Some (adv 2 (s\<lparr>rcx := 0\<rparr>))
      else if b ! 0 = 0x31 \<and> b ! 1 = 0xD2 then Some (adv 2 (s\<lparr>rdx := 0\<rparr>))
      else if b ! 0 = 0x31 \<and> b ! 1 = 0xC0 then Some (adv 2 (s\<lparr>rax := 0\<rparr>))
      else if b ! 0 = 0x31 \<and> b ! 1 = 0xFF then Some (adv 2 (s\<lparr>rdi := 0\<rparr>))
      else None)"

definition exec_tests :: "u64 \<Rightarrow> bytes \<Rightarrow> machine \<Rightarrow> bool mrun option" where
  "exec_tests base b s =
     (if b ! 0 = 0x48 \<and> b ! 1 = 0x85 \<and> b ! 2 = 0xC0 then Some (adv 3 (set_flags (rax s) s))
      else if b ! 0 = 0x48 \<and> b ! 1 = 0x85 \<and> b ! 2 = 0xD2 then Some (adv 3 (set_flags (rdx s) s))
      else if b ! 0 = 0x48 \<and> b ! 1 = 0x0F \<and> b ! 2 = 0x49 \<and> b ! 3 = 0xD0 then
        Some (adv 4 (if \<not> sf s then s\<lparr>rdx := rax s\<rparr> else s))
      else if b ! 0 = 0x43 \<and> b ! 1 = 0x8A \<and> b ! 2 = 0x44 \<and> b ! 3 = 0x01 \<and> b ! 4 = 0xFF then
        Some (with_res s (read_u8 base (gmem s) (r9 s + r8 s - 1)) (\<lambda>v. adv 5 (set_al v s)))
      else if b ! 0 = 0x48 \<and> b ! 1 = 0x8D \<and> b ! 2 = 0x52 \<and> b ! 3 = 0xFF then
        Some (adv 4 (s\<lparr>rdx := rdx s - 1\<rparr>))
      else if b ! 0 = 0x3C then
        (let lhs = get_al s; rhs = b ! 1
         in Some (adv 2 (s\<lparr>zf := (lhs = rhs), sf := (sint (lhs - rhs) < 0)\<rparr>)))
      else None)"

definition exec_imm :: "u64 \<Rightarrow> bytes \<Rightarrow> machine \<Rightarrow> bool mrun option" where
  "exec_imm base b s =
     (let mov = (\<lambda>off n setr. and_then (imm_u32 base off s) (\<lambda>v s. adv n (setr (ucast v :: u64) s)))
      in
      if b ! 0 = 0x48 \<and> b ! 1 = 0xC7 \<and> b ! 2 = 0xC0 then Some (mov 3 7 (\<lambda>v s. s\<lparr>rax := v\<rparr>))
      else if b ! 0 = 0x48 \<and> b ! 1 = 0xC7 \<and> b ! 2 = 0xC7 then Some (mov 3 7 (\<lambda>v s. s\<lparr>rdi := v\<rparr>))
      else if b ! 0 = 0x48 \<and> b ! 1 = 0xC7 \<and> b ! 2 = 0xC6 then Some (mov 3 7 (\<lambda>v s. s\<lparr>rsi := v\<rparr>))
      else if b ! 0 = 0x48 \<and> b ! 1 = 0xC7 \<and> b ! 2 = 0xC2 then Some (mov 3 7 (\<lambda>v s. s\<lparr>rdx := v\<rparr>))
      else if b ! 0 = 0x41 \<and> 0xB8 \<le> b ! 1 \<and> b ! 1 \<le> 0xBF then
        Some (mov 2 6 (\<lambda>v s. if b ! 1 = 0xB8 then s\<lparr>r8 := v\<rparr>
                        else if b ! 1 = 0xB9 then s\<lparr>r9 := v\<rparr> else s))
      else if 0xB8 \<le> b ! 0 \<and> b ! 0 \<le> 0xBF then
        Some (mov 1 5 (\<lambda>v s. if b ! 0 = 0xB8 then s\<lparr>rax := v\<rparr>
                        else if b ! 0 = 0xB9 then s\<lparr>rcx := v\<rparr>
                        else if b ! 0 = 0xBA then s\<lparr>rdx := v\<rparr>
                        else if b ! 0 = 0xBB then s
                        else if b ! 0 = 0xBC then s\<lparr>rsp := v\<rparr>
                        else if b ! 0 = 0xBD then s\<lparr>rbp := v\<rparr>
                        else if b ! 0 = 0xBE then s\<lparr>rsi := v\<rparr>
                        else if b ! 0 = 0xBF then s\<lparr>rdi := v\<rparr> else s))
      else None)"

text \<open>\<open>lea r64, [rip + disp32]\<close>.\<close>

definition lea_rip :: "u64 \<Rightarrow> (u64 \<Rightarrow> machine \<Rightarrow> machine) \<Rightarrow> machine \<Rightarrow> bool mrun" where
  "lea_rip base setr s =
     and_then (imm_i32 base 3 s) (\<lambda>disp s.
     or_panic (checked_add_u64 (rip s) 7) (\<lambda>nxt.
     or_panic (checked_add_i64 nxt disp) (\<lambda>a. Done False ((setr a s)\<lparr>rip := nxt\<rparr>))))"

definition store_imm :: "u64 \<Rightarrow> u64 \<Rightarrow> u8 \<Rightarrow> u64 \<Rightarrow> u64 \<Rightarrow> machine \<Rightarrow> bool mrun" where
  "store_imm base reg disp off n s =
     or_panic (checked_add_i64 reg (sext8 disp)) (\<lambda>addr.
     and_then (imm_u32 base off s) (\<lambda>imm s.
     with_res s (write_u32 base (gmem s) addr imm) (\<lambda>m. adv n (s\<lparr>gmem := m\<rparr>))))"

definition exec_lea_rip :: "u64 \<Rightarrow> bytes \<Rightarrow> machine \<Rightarrow> bool mrun option" where
  "exec_lea_rip base b s =
     (if b ! 0 = 0x48 \<and> b ! 1 = 0x8D \<and> b ! 2 = 0x3D then Some (lea_rip base (\<lambda>v s. s\<lparr>rdi := v\<rparr>) s)
      else if b ! 0 = 0x4C \<and> b ! 1 = 0x8D \<and> b ! 2 = 0x05 then
        Some (lea_rip base (\<lambda>v s. s\<lparr>r8 := v\<rparr>) s)
      else if b ! 0 = 0x4C \<and> b ! 1 = 0x8D \<and> b ! 2 = 0x0D then
        Some (lea_rip base (\<lambda>v s. s\<lparr>r9 := v\<rparr>) s)
      else if b ! 0 = 0x48 \<and> b ! 1 = 0x8D \<and> b ! 2 = 0x35 then
        Some (lea_rip base (\<lambda>v s. s\<lparr>rsi := v\<rparr>) s)
      else if b ! 0 = 0xC7 then
        (let modrm = b ! 1;
             md = drop_bit 6 modrm AND 0x03;
             reg = drop_bit 3 modrm AND 0x07;
             rm = modrm AND 0x07
         in if reg = 0 then
              (if md = 1 \<and> rm \<noteq> 4 then Some (store_imm base (get_reg64 s rm) (b ! 2) 3 7 s)
               else if md = 1 \<and> rm = 4 \<and> b ! 2 = 0x24 then
                 Some (store_imm base (rsp s) (b ! 3) 4 8 s)
               else None)
            else None)
      else None)"

section \<open>Control flow\<close>

text \<open>\<open>cpu.rip = ((next as i64) + rel) as u64\<close>.\<close>

definition jump_rel :: "u64 \<Rightarrow> u64 \<Rightarrow> machine \<Rightarrow> bool mrun" where
  "jump_rel nxt rel s = or_panic (checked_add_i64 nxt rel) (\<lambda>t. Done False (s\<lparr>rip := t\<rparr>))"

text \<open>
  \<open>call [rip + disp32]\<close>: a target outside the guest becomes a jump to \<open>rdi\<close> when
  \<open>rdi\<close> is inside (the start-up code of a dynamically linked program passes \<open>main\<close>
  there).
\<close>

definition call_indirect :: "u64 \<Rightarrow> u64 \<Rightarrow> u64 \<Rightarrow> machine \<Rightarrow> bool mrun" where
  "call_indirect base nxt target s =
     (let limit = checked_add_u64 base (of_nat (length (gmem s)));
          call = and_then (push_u64 base nxt s) (\<lambda>_ s. Done False (s\<lparr>rip := target\<rparr>));
          outside =
            (if rdi s \<ge> base then
               or_panic limit (\<lambda>l. if rdi s < l then Done False (s\<lparr>rip := rdi s\<rparr>) else call)
             else call)
      in if target < base then outside
         else or_panic limit (\<lambda>l. if target \<ge> l then outside else call))"

definition exec_jumps :: "u64 \<Rightarrow> bytes \<Rightarrow> machine \<Rightarrow> bool mrun option" where
  "exec_jumps base b s =
     (if b ! 0 = 0xE8 then
        Some (and_then (imm_i32 base 1 s) (\<lambda>rel s.
              or_panic (checked_add_u64 (rip s) 5) (\<lambda>nxt.
              and_then (push_u64 base nxt s) (\<lambda>_. jump_rel nxt rel))))
      else if b ! 0 = 0xE9 then
        Some (and_then (imm_i32 base 1 s) (\<lambda>rel s.
              or_panic (checked_add_u64 (rip s) 5) (\<lambda>nxt. jump_rel nxt rel s)))
      else if b ! 0 = 0xEB then
        Some (or_panic (checked_add_u64 (rip s) 2) (\<lambda>nxt. jump_rel nxt (sext8 (b ! 1)) s))
      else if b ! 0 = 0x74 then
        Some (or_panic (checked_add_u64 (rip s) 2) (\<lambda>nxt.
              if zf s then jump_rel nxt (sext8 (b ! 1)) s else Done False (s\<lparr>rip := nxt\<rparr>)))
      else if b ! 0 = 0xFF \<and> b ! 1 = 0x15 then
        Some (and_then (imm_i32 base 2 s) (\<lambda>disp s.
              or_panic (checked_add_u64 (rip s) 6) (\<lambda>nxt.
              or_panic (checked_add_i64 nxt disp) (\<lambda>ptr_va.
              with_res s (read_u64 base (gmem s) ptr_va) (\<lambda>target.
                call_indirect base nxt target s)))))
      else None)"

section \<open>System calls of a guest\<close>

text \<open>A computation on the kernel's statics, as a step of the machine.\<close>

fun in_kernel :: "machine \<Rightarrow> (RunError, kernel, 'a) run \<Rightarrow> 'a mrun" where
  "in_kernel s (Done x k) = Done x (s\<lparr>kern := k\<rparr>)"
| "in_kernel s (Fail e k) = Fail e (s\<lparr>kern := k\<rparr>)"
| "in_kernel s Panic = Panic"
| "in_kernel s Hang = Hang"

text \<open>\<open>cpu.rax = v; return Ok(exit)\<close>.\<close>

definition ret_rax :: "bool \<Rightarrow> u64 \<Rightarrow> machine \<Rightarrow> bool mrun" where
  "ret_rax ex v s = Done ex (s\<lparr>rax := v\<rparr>)"

text \<open>The \<open>while got < cap\<close> loop: \<open>n\<close> bytes may still come.\<close>

fun stdin_loop :: "nat \<Rightarrow> nat \<Rightarrow> nat \<Rightarrow> machine \<Rightarrow> nat mrun" where
  "stdin_loop start got 0 s = Done got s"
| "stdin_loop start got (Suc n) s =
     and_then (in_kernel s (read_stdin_byte_blocking (kern s))) (\<lambda>r s.
       case r of
         None \<Rightarrow> Done got s
       | Some ch \<Rightarrow>
           (let mapped = (if ch = CR then LF else ch);
                s = s\<lparr>gmem := (gmem s)[start + got := mapped], screen := screen s @ [mapped]\<rparr>
            in if mapped = LF then Done (got + 1) s else stdin_loop start (got + 1) n s))"

text \<open>\<open>tmp\<close> is the address of the 256-byte buffer on the kernel's stack.\<close>

definition guest_read :: "u64 \<Rightarrow> u64 \<Rightarrow> machine \<Rightarrow> bool mrun" where
  "guest_read base tmp s =
     (let fd = rdi s; len = unat (rdx s) in
      with_res s (va_to_index base (gmem s) (rsi s)) (\<lambda>start.
        (let cap = min len (length (gmem s) - start) in
         if cap = 0 then ret_rax False 0 s
         else if fd = 0 then
           and_then (stdin_loop start 0 cap s) (\<lambda>got. ret_rax False (of_nat got))
         else
           (let want = min cap 256; k = poke tmp (replicate 256 0) (kern s) in
            and_then (in_kernel s (dispatch SYS_READ fd tmp (of_nat want) 0 0 0 k)) (\<lambda>n s.
              if sint n \<ge> 0 then
                (let got = unat n in
                 if got \<le> 256 \<and> start + got \<le> length (gmem s) then
                   ret_rax False n
                     (s\<lparr>gmem := put_slice (gmem s) start (mem_read (umem (kern s)) tmp got)\<rparr>)
                 else Panic)
              else ret_rax False n s)))))"

definition guest_write :: "u64 \<Rightarrow> machine \<Rightarrow> bool mrun" where
  "guest_write base s =
     (let fd = rdi s; len = unat (rdx s) in
      with_res s (va_to_index base (gmem s) (rsi s)) (\<lambda>start.
      with_res s (ok_or AddressOutOfRange (checked_add_usize start len)) (\<lambda>e.
        if e > length (gmem s) then Fail AddressOutOfRange s
        else
          (let s = (if fd = 1 \<or> fd = 2
                    then s\<lparr>screen := screen s @ sub_slice start len (gmem s)\<rparr> else s)
           in and_then (in_kernel s (dispatch SYS_WRITE fd (rsi s) (rdx s) 0 0 0 (kern s)))
                (ret_rax False)))))"

type_synonym console = "bytes \<times> kernel"

text \<open>Running another image on the same terminal and kernel.\<close>

type_synonym runner =
  "bytes \<Rightarrow> bytes list \<Rightarrow> bytes list \<Rightarrow> console \<Rightarrow> (RunError, console, unit) run"

text \<open>The registers after the new image has run: an \<open>Err\<close> of it becomes \<open>ENOEXEC\<close>.\<close>

fun exec_result :: "machine \<Rightarrow> (RunError, console, unit) run \<Rightarrow> bool mrun" where
  "exec_result s (Done _ con) = ret_rax True 0 (s\<lparr>screen := fst con, kern := snd con\<rparr>)"
| "exec_result s (Fail _ con) = ret_rax False (- ENOEXEC) (s\<lparr>screen := fst con, kern := snd con\<rparr>)"
| "exec_result s Panic = Panic"
| "exec_result s Hang = Hang"

definition guest_execve :: "runner \<Rightarrow> u64 \<Rightarrow> machine \<Rightarrow> bool mrun" where
  "guest_execve nested base s =
     with_res s (read_user_cstr base (gmem s) (rdi s)) (\<lambda>p.
       case p of
         None \<Rightarrow> ret_rax False (- EFAULT) s
       | Some path \<Rightarrow>
           and_then (read_user_str_array base (gmem s) (rsi s) 64 s) (\<lambda>argv s.
           and_then (read_user_str_array base (gmem s) (rdx s) 64 s) (\<lambda>envp s.
             (case normalize_exec_path path of
                None \<Rightarrow> ret_rax False (- ENOENT) s
              | Some name \<Rightarrow>
                  (case rootfs_image (kern s) of
                     None \<Rightarrow> ret_rax False (- ENOENT) s
                   | Some fs_img \<Rightarrow>
                       (case fs_open fs_img name of
                          Inl _ \<Rightarrow> ret_rax False (- ENOENT) s
                        | Inr rec \<Rightarrow>
                            (let arg_refs = (if argv = [] then [name] else argv);
                                 k = mark_exit_code 0 (kern s)
                             in exec_result s (nested (fr_data rec) arg_refs envp (screen s, k)))))))))"

definition handle_syscall :: "runner \<Rightarrow> u64 \<Rightarrow> u64 \<Rightarrow> machine \<Rightarrow> bool mrun" where
  "handle_syscall nested base tmp s =
     (let nr = rax s in
      if nr = SYS_READ then guest_read base tmp s
      else if nr = SYS_WRITE then guest_write base s
      else if nr = SYS_GETPID then
        and_then (in_kernel s (dispatch SYS_GETPID 0 0 0 0 0 0 (kern s))) (ret_rax False)
      else if nr = SYS_BRK then
        and_then (in_kernel s (dispatch SYS_BRK (rdi s) 0 0 0 0 0 (kern s))) (ret_rax False)
      else if nr = SYS_EXECVE then guest_execve nested base s
      else if nr = SYS_EXIT \<or> nr = SYS_EXIT_GROUP then
        and_then (in_kernel s (dispatch SYS_EXIT (rdi s) 0 0 0 0 0 (kern s))) (ret_rax True)
      else
        and_then (in_kernel s (dispatch nr (rdi s) (rsi s) (rdx s) (r10 s) (r8 s) (r9 s) (kern s)))
          (ret_rax False))"

definition exec_syscall :: "runner \<Rightarrow> u64 \<Rightarrow> u64 \<Rightarrow> bytes \<Rightarrow> machine \<Rightarrow> bool mrun option" where
  "exec_syscall nested base tmp b s =
     (if b ! 0 = 0x0F \<and> b ! 1 = 0x05 then
        Some (and_then (handle_syscall nested base tmp s) (\<lambda>ex s.
              or_panic (checked_add_u64 (rip s) 2) (\<lambda>r. Done ex (s\<lparr>rip := r\<rparr>))))
      else None)"

section \<open>One instruction, and a program\<close>

fun or_else :: "'a option \<Rightarrow> 'a option \<Rightarrow> 'a option" where
  "or_else (Some x) y = Some x"
| "or_else None y = y"

text \<open>The instructions that need nothing of the kernel, in the order of the code.\<close>

definition exec_plain :: "u64 \<Rightarrow> bytes \<Rightarrow> machine \<Rightarrow> bool mrun option" where
  "exec_plain base b s =
     or_else (exec_stack_ops base b s)
     (or_else (exec_alu base b s)
     (or_else (exec_moves b s)
     (or_else (exec_load base b s)
     (or_else (exec_lea b s)
     (or_else (exec_moves2 base b s)
     (or_else (exec_zero b s)
     (or_else (exec_tests base b s)
     (or_else (exec_imm base b s)
     (exec_lea_rip base b s)))))))))"

definition exec_one :: "runner \<Rightarrow> u64 \<Rightarrow> u64 \<Rightarrow> machine \<Rightarrow> bool mrun" where
  "exec_one nested base tmp s =
     with_res s (read_bytes base (gmem s) (rip s)) (\<lambda>b.
       case or_else (exec_plain base b s)
              (or_else (exec_syscall nested base tmp b s) (exec_jumps base b s)) of
         Some r \<Rightarrow> r
       | None \<Rightarrow> Fail (UnsupportedInstruction (rip s) b) s)"

text \<open>The \<open>for _ in 0..MAX_STEPS\<close> loop.\<close>

fun run_steps :: "(machine \<Rightarrow> bool mrun) \<Rightarrow> nat \<Rightarrow> machine \<Rightarrow> unit mrun" where
  "run_steps step 0 s = Fail (StepLimit MAX_STEPS (rip s)) s"
| "run_steps step (Suc n) s =
     and_then (step s) (\<lambda>done s. if done then Done () s else run_steps step n s)"

text \<open>Copying the segments into the buffer, which starts at \<open>min_vaddr\<close>.\<close>

fun copy_segments ::
  "bytes \<Rightarrow> u64 \<Rightarrow> LoadSegment list \<Rightarrow> bytes \<Rightarrow> (RunError, bytes, unit) run" where
  "copy_segments img min_vaddr [] mem = Done () mem"
| "copy_segments img min_vaddr (seg # segs) mem =
     (let dst_start = unat (vaddr seg - min_vaddr);
          dst_end = saturating_add_usize dst_start (unat (mem_size seg));
          src_start = unat (file_offset seg);
          src_end = saturating_add_usize src_start (unat (file_size seg));
          file_len = unat (file_size seg)
      in if dst_end > length mem then Fail AddressOutOfRange mem
         else if src_end > length img then Fail AddressOutOfRange mem
         else if dst_start + file_len > length mem then Panic
         else copy_segments img min_vaddr segs
                (put_slice mem dst_start (sub_slice src_start file_len img)))"

definition vaddr_range :: "LoadSegment list \<Rightarrow> u64 \<times> u64" where
  "vaddr_range segs =
     fold (\<lambda>seg (lo, hi). (min lo (vaddr seg), max hi (saturating_add_u64 (vaddr seg) (mem_size seg))))
       segs (- 1, 0)"

definition start_cpu :: "u64 \<Rightarrow> u64 \<Rightarrow> bytes \<Rightarrow> console \<Rightarrow> machine" where
  "start_cpu sp entry_va mem con =
     \<lparr>rax = 0, rbp = 0, rbx = 0, rsp = sp, rdi = 0, rsi = 0, rdx = 0, rcx = 0, r8 = 0, r9 = 0,
      r10 = 0, r12 = 0, r13 = 0, rip = entry_va, zf = False, sf = False,
      gmem = mem, screen = fst con, kern = snd con\<rparr>"

fun finish :: "unit mrun \<Rightarrow> (RunError, console, unit) run" where
  "finish (Done x s) = Done () (screen s, kern s)"
| "finish (Fail e s) = Fail e (screen s, kern s)"
| "finish Panic = Panic"
| "finish Hang = Hang"

text \<open>Computations on guest memory, before there is a machine.\<close>

fun with_mem ::
  "console \<Rightarrow> (RunError, bytes, 'a) run \<Rightarrow> ('a \<Rightarrow> bytes \<Rightarrow> (RunError, console, 'b) run) \<Rightarrow>
   (RunError, console, 'b) run" where
  "with_mem con (Done x m) f = f x m"
| "with_mem con (Fail e m) f = Fail e con"
| "with_mem con Panic f = Panic"
| "with_mem con Hang f = Hang"

definition load_and_run :: "runner \<Rightarrow> u64 \<Rightarrow> runner" where
  "load_and_run nested tmp img argv envp con =
     with_res con (map_err ParseError (parse_elf64 img)) (\<lambda>elf.
     if segments elf = [] then Fail NoLoadSegment con
     else
       (let (min_vaddr, max_vaddr) = vaddr_range (segments elf) in
        if max_vaddr \<le> min_vaddr then Fail AddressOutOfRange con
        else
          (let mem_len = unat (max_vaddr - min_vaddr) in
           if mem_len > MAX_INTERP_MEM \<or> length (segments elf) > 16 then
             Fail (UnsupportedComplexElf (entry elf) (length (segments elf)) mem_len) con
           else
             with_res con (ok_or AddressOutOfRange (checked_add_usize mem_len STACK_SIZE))
               (\<lambda>total_len.
             with_mem con (copy_segments img min_vaddr (segments elf) (replicate total_len 0))
               (\<lambda>_ mem.
             or_panic (Option.bind (checked_add_u64 min_vaddr (of_nat (length mem)))
                         (\<lambda>top. checked_sub_u64 top 0x10)) (\<lambda>stack_top.
             with_mem con (build_initial_stack min_vaddr stack_top argv envp mem) (\<lambda>sp mem.
               finish (run_steps (exec_one nested min_vaddr tmp) MAX_STEPS
                         (start_cpu sp (entry elf) mem con)))))))))"

text \<open>
  A guest's \<open>execve\<close> runs the new image inside \<open>handle_syscall\<close>, on top of the run that
  made the call. \<open>depth\<close> bounds that nesting; a run that nests deeper is \<open>Hang\<close>, and a run
  that ends some other way does so with every larger bound.
\<close>

fun run_linux_elf_with_args :: "nat \<Rightarrow> u64 \<Rightarrow> runner" where
  "run_linux_elf_with_args 0 tmp img argv envp con = Hang"
| "run_linux_elf_with_args (Suc depth) tmp img argv envp con =
     load_and_run (run_linux_elf_with_args depth tmp) tmp img argv envp con"

definition run_linux_elf :: "nat \<Rightarrow> u64 \<Rightarrow> bytes \<Rightarrow> console \<Rightarrow> (RunError, console, unit) run" where
  "run_linux_elf depth tmp img con = run_linux_elf_with_args depth tmp img [] [] con"

end
