(* ===== verification/Syscall_Inv.thy ===== *)
theory Syscall_Inv
  imports Syscall
begin

text \<open>
  What every system call keeps. \<open>fd_inv\<close> is the invariant of the descriptor table: 64
  slots, the first three never used, and every open file a slice of the mounted image. A
  locale states what a property of the kernel state has to survive (the elementary updates)
  to survive every call; it is interpreted on \<open>fd_inv\<close>, and on it together with the state
  no call changes.
\<close>

section \<open>The descriptor table\<close>

definition in_rootfs :: "bytes option \<Rightarrow> bytes \<Rightarrow> u16 \<Rightarrow> bool" where
  "in_rootfs R d m \<longleftrightarrow>
     (\<exists>img i r. R = Some img \<and> fs_entry_at img i = Inr r \<and> fr_data r = d \<and> fr_mode r = m)"

fun entry_ok :: "bytes option \<Rightarrow> FdEntry \<Rightarrow> bool" where
  "entry_ok R Free = True"
| "entry_ok R (RootDir p) = (unat p < isize_bound)"
| "entry_ok R (File d l p m) =
     (l = length d \<and> l < u32_bound \<and> unat p < isize_bound \<and> in_rootfs R d m)"

definition fd_inv :: "kernel \<Rightarrow> bool" where
  "fd_inv k \<longleftrightarrow>
     length (fd_table k) = MAX_FDS \<and> (\<forall>i < FD_BASE. fd_table k ! i = Free) \<and>
     (\<forall>i < MAX_FDS. entry_ok (rootfs k) (fd_table k ! i))"

lemma fd_inv_entry: "fd_inv k \<Longrightarrow> i < 64 \<Longrightarrow> entry_ok (rootfs k) (fd_table k ! i)"
  by (simp add: fd_inv_def sys_consts)

lemma fd_inv_low: "fd_inv k \<Longrightarrow> i < 64 \<Longrightarrow> fd_table k ! i \<noteq> Free \<Longrightarrow> 3 \<le> i"
  by (rule ccontr) (simp add: fd_inv_def sys_consts)

lemma fd_inv_boot: "fd_inv (boot_kernel m)"
  by (simp add: fd_inv_def boot_kernel_def sys_consts)

lemma fd_inv_set_rootfs: "fd_inv (set_rootfs img k)"
  by (simp add: fd_inv_def set_rootfs_def sys_consts)

lemma fd_inv_set_fd:
  "fd_inv k \<Longrightarrow> 3 \<le> fd \<Longrightarrow> entry_ok (rootfs k) e \<Longrightarrow> fd_inv (set_fd fd e k)"
  by (cases "fd < 64") (auto simp: fd_inv_def set_fd_def sys_consts nth_list_update list_update_beyond)

lemma fd_inv_updates:
  "fd_inv k \<Longrightarrow> fd_inv (k\<lparr>umem := m\<rparr>)"
  "fd_inv k \<Longrightarrow> fd_inv (k\<lparr>brk := b\<rparr>)"
  "fd_inv k \<Longrightarrow> fd_inv (k\<lparr>stdin_reader := ps\<rparr>)"
  "fd_inv k \<Longrightarrow> fd_inv (k\<lparr>last_exit := c\<rparr>)"
  "fd_inv k \<Longrightarrow> fd_inv (k\<lparr>exit_waitable := w\<rparr>)"
  "fd_inv k \<Longrightarrow> fd_inv (k\<lparr>mmap_base := b\<rparr>)"
  "fd_inv k \<Longrightarrow> fd_inv (k\<lparr>arch_fs := b\<rparr>)"
  "fd_inv k \<Longrightarrow> fd_inv (k\<lparr>arch_gs := b\<rparr>)"
  "fd_inv k \<Longrightarrow> fd_inv (k\<lparr>cwd_buf := cb\<rparr>)"
  "fd_inv k \<Longrightarrow> fd_inv (k\<lparr>cwd_len := n\<rparr>)"
  by (simp_all add: fd_inv_def)

lemma seek_pos_bound: "seek_pos pos e off wh = Some p \<Longrightarrow> unat p < isize_bound"
  by (auto simp: seek_pos_def Let_def not_less sint_nonneg_iff split: if_splits option.splits)

lemma free_slot_spec:
  "free_slot t i n = Some j \<longleftrightarrow> i \<le> j \<and> j < i + n \<and> t ! j = Free \<and> (\<forall>l. i \<le> l \<and> l < j \<longrightarrow> t ! l \<noteq> Free)"
proof (induction n arbitrary: i)
  case 0
  then show ?case by simp
next
  case (Suc n)
  show ?case
  proof (cases "t ! i = Free")
    case True
    have "i = j" if "i \<le> j" "\<forall>l. i \<le> l \<and> l < j \<longrightarrow> t ! l \<noteq> Free"
      using that True le_neq_implies_less by blast
    with True show ?thesis by auto
  next
    case False
    then have "i \<le> j \<and> t ! j = Free \<longleftrightarrow> Suc i \<le> j \<and> t ! j = Free"
      by (metis Suc_le_eq le_neq_implies_less less_imp_le)
    moreover have "(\<forall>l. i \<le> l \<and> l < j \<longrightarrow> t ! l \<noteq> Free) \<longleftrightarrow>
        (\<forall>l. Suc i \<le> l \<and> l < j \<longrightarrow> t ! l \<noteq> Free)"
      using False by (metis Suc_le_eq le_neq_implies_less less_imp_le)
    ultimately show ?thesis using False Suc.IH [of "Suc i"] by auto
  qed
qed

lemma free_slot_None:
  assumes "free_slot t i n = None" "i \<le> j" "j < i + n"
  shows "t ! j \<noteq> Free"
  using assms
proof (induction n arbitrary: i)
  case 0
  then show ?case by simp
next
  case (Suc n)
  then have "t ! i \<noteq> Free" "free_slot t (Suc i) n = None" by (auto split: if_splits)
  with Suc show ?case by (cases "i = j") auto
qed

section \<open>What a property has to survive to survive every call\<close>

locale call_invariant =
  fixes I :: "kernel \<Rightarrow> bool"
  assumes I_fd_inv: "I k \<Longrightarrow> fd_inv k"
    and I_umem: "I k \<Longrightarrow> I (k\<lparr>umem := m\<rparr>)"
    and I_set_fd: "I k \<Longrightarrow> 3 \<le> fd \<Longrightarrow> fd < 64 \<Longrightarrow> entry_ok (rootfs k) e \<Longrightarrow> I (set_fd fd e k)"
    and I_cwd: "I k \<Longrightarrow> I (k\<lparr>cwd_buf := (cwd_buf k)[0 := slash], cwd_len := 1\<rparr>)"
    and I_brk: "I k \<Longrightarrow> I (k\<lparr>brk := b\<rparr>)"
    and I_stdin: "I k \<Longrightarrow> I (k\<lparr>stdin_reader := ps\<rparr>)"
    and I_waitable: "I k \<Longrightarrow> I (k\<lparr>exit_waitable := w\<rparr>)"
    and I_mmap: "I k \<Longrightarrow> I (k\<lparr>mmap_base := b\<rparr>)"
    and I_arch_fs: "I k \<Longrightarrow> I (k\<lparr>arch_fs := b\<rparr>)"
    and I_arch_gs: "I k \<Longrightarrow> I (k\<lparr>arch_gs := b\<rparr>)"
begin

lemmas updates = I_umem I_cwd I_brk I_stdin I_waitable I_mmap I_arch_fs I_arch_gs

lemma entry: "I k \<Longrightarrow> i < 64 \<Longrightarrow> entry_ok (rootfs k) (fd_table k ! i)"
  by (rule fd_inv_entry [OF I_fd_inv])

lemma low: "I k \<Longrightarrow> i < 64 \<Longrightarrow> fd_table k ! i \<noteq> Free \<Longrightarrow> 3 \<le> i"
  by (rule fd_inv_low [OF I_fd_inv])

lemma I_poke: "I k \<Longrightarrow> I (poke a bs k)"
  by (simp add: poke_def I_umem)

lemma I_alloc: "I k \<Longrightarrow> entry_ok (rootfs k) e \<Longrightarrow> I (snd (alloc_fd e k))"
  by (auto simp: alloc_fd_def free_slot_spec sys_consts intro!: I_set_fd split: option.splits)

lemma I_openat: "I k \<Longrightarrow> I (snd (sys_openat d p f m k))"
proof -
  assume k: "I k"
  have opened: "length (fr_data r) < u32_bound \<and> in_rootfs (Some img) (fr_data r) (fr_mode r)"
    if "fs_open img n = Inr r" for img n r
    using lfs.lookup_entry [OF that] entry_at_ok(6) by (auto simp: in_rootfs_def)
  show ?thesis
    using k by (auto simp: sys_openat_def intro!: I_alloc
        dest!: opened split: option.splits sum.splits)
qed

lemma I_read: "I k \<Longrightarrow> I (snd (sys_read fd buf len k))"
proof -
  assume k: "I k"
  show ?thesis
  proof (cases "buf \<noteq> 0 \<and> unat fd < 64")
    case False
    then show ?thesis using k by (auto simp: sys_read_def sys_consts)
  next
    case True
    show ?thesis
    proof (cases "fd_table k ! unat fd")
      case (File d l p m)
      with True k entry [OF k, of "unat fd"] low [OF k, of "unat fd"]
      have e: "entry_ok (rootfs k) (File d l p m)" "3 \<le> unat fd" by auto
      then have l: "l < u32_bound" by simp
      have "unat (p + of_nat (min (unat len) (l - unat p))) < isize_bound" if "unat p < l"
      proof -
        have "min (unat len) (l - unat p) \<le> l - unat p" by simp
        then have "unat p + min (unat len) (l - unat p) \<le> l" using that by linarith
        with l show ?thesis by (simp add: unat_word_ariths unat_of_nat)
      qed
      with e have "entry_ok (rootfs k) (File d l (p + of_nat (min (unat len) (l - unat p))) m)"
        if "unat p < l" using that by simp
      moreover have "rootfs (poke a bs k) = rootfs k" for a bs by (simp add: poke_def)
      ultimately show ?thesis
        using k True File e
        by (auto simp: sys_read_def sys_consts Let_def not_le intro!: I_set_fd I_poke)
    qed (use k True in \<open>auto simp: sys_read_def\<close>)
  qed
qed

lemma I_close: "I k \<Longrightarrow> I (snd (sys_close fd k))"
  by (auto simp: sys_close_def sys_consts not_le low intro!: I_set_fd split: FdEntry.splits)

lemma I_lseek: "I k \<Longrightarrow> I (snd (sys_lseek fd off wh k))"
proof -
  assume k: "I k"
  show ?thesis
  proof (cases "unat fd < 64")
    case False
    then show ?thesis using k by (simp add: sys_lseek_def sys_consts)
  next
    case True
    with k entry [OF k, of "unat fd"] low [OF k, of "unat fd"] show ?thesis
      by (cases "fd_table k ! unat fd")
        (auto simp: sys_lseek_def sys_consts seek_pos_bound intro!: I_set_fd split: option.splits)
  qed
qed

lemma I_dup: "I k \<Longrightarrow> I (snd (sys_dup fd k))"
proof -
  assume k: "I k"
  show ?thesis
  proof (cases "unat fd < 64")
    case True
    with k entry [OF k, of "unat fd"] show ?thesis
      by (cases "fd_table k ! unat fd") (auto simp: sys_dup_def sys_consts intro!: I_alloc)
  qed (use k in \<open>simp add: sys_dup_def sys_consts\<close>)
qed

lemma I_dup2: "I k \<Longrightarrow> I (snd (sys_dup2 oldfd newfd k))"
proof -
  assume k: "I k"
  show ?thesis
  proof (cases "unat oldfd < 64 \<and> unat newfd < 64 \<and> 3 \<le> unat newfd")
    case True
    with k entry [OF k, of "unat oldfd"] show ?thesis
      by (cases "fd_table k ! unat oldfd") (auto simp: sys_dup2_def sys_consts intro!: I_set_fd)
  qed (use k in \<open>auto simp: sys_dup2_def sys_consts not_less\<close>)
qed

lemma I_write_stat: "I k \<Longrightarrow> I (snd (write_stat p d s m i k))"
  by (simp add: write_stat_def I_poke)

lemma I_stat_path: "I k \<Longrightarrow> I (snd (sys_stat_path p s k))"
  by (auto simp: sys_stat_path_def I_write_stat split: option.splits sum.splits)

lemma I_fstat: "I k \<Longrightarrow> I (snd (sys_fstat fd s k))"
  by (auto simp: sys_fstat_def I_write_stat split: FdEntry.splits)

lemma I_newfstatat: "I k \<Longrightarrow> I (snd (sys_newfstatat d p s f k))"
  by (auto simp: sys_newfstatat_def I_write_stat I_fstat I_stat_path split: option.splits)

lemma getdents_loop_pos:
  "getdents_loop k dirp count r pos w m = (m', pos', x) \<Longrightarrow> pos \<le> pos' \<and> pos' \<le> pos + r"
  by (induction r arbitrary: pos w m)
    (fastforce simp: Let_def split: option.splits if_splits prod.splits)+

lemma root_entries_bound: "root_entries_count k \<le> 65537"
proof -
  have "unat (c :: u16) \<le> 65535" for c using unat_u16_bound [of c] by linarith
  then show ?thesis by (auto simp: root_entries_count_def split: option.splits sum.splits)
qed

lemma I_getdents: "I k \<Longrightarrow> I (snd (sys_getdents64 fd dirp count k))"
proof -
  assume k: "I k"
  show ?thesis
  proof (cases "dirp \<noteq> 0 \<and> unat fd < 64 \<and> (\<exists>pos. fd_table k ! unat fd = RootDir pos)")
    case False
    then show ?thesis using k
      by (auto simp: sys_getdents64_def sys_consts not_less split: FdEntry.splits)
  next
    case True
    then obtain pos where pos: "fd_table k ! unat fd = RootDir pos" by blast
    show ?thesis
    proof (cases "unat pos < root_entries_count k")
      case False
      with True pos k show ?thesis by (simp add: sys_getdents64_def sys_consts)
    next
      case lt: True
      obtain m' p' x where l: "getdents_loop k dirp (unat count)
          (root_entries_count k - unat pos) (unat pos) 0 (umem k) = (m', p', x)"
        by (metis prod_cases3)
      have "p' < isize_bound"
        using getdents_loop_pos [OF l] lt root_entries_bound [of k] by linarith
      then have "I (set_fd (unat fd) (RootDir (of_nat p')) (k\<lparr>umem := m'\<rparr>))"
        using True pos low [OF k, of "unat fd"] k by (intro I_set_fd I_umem) auto
      then show ?thesis
        using True pos lt k l
        by (cases x) (auto simp: sys_getdents64_def sys_consts Let_def)
    qed
  qed
qed

lemma I_getcwd: "I k \<Longrightarrow> I (snd (sys_getcwd b s k))"
  by (simp add: sys_getcwd_def I_poke)

lemma I_chdir: "I k \<Longrightarrow> I (snd (sys_chdir p k))"
  by (auto simp: sys_chdir_def I_cwd [simplified] split: option.splits)

lemma I_access: "I k \<Longrightarrow> I (snd (sys_access p k))"
  by (auto simp: sys_access_def split: option.splits)

lemma I_readlink: "I k \<Longrightarrow> I (snd (sys_readlink p b s k))"
  by (auto simp: sys_readlink_def readlink_impl_def Let_def I_poke split: option.splits)

lemma I_uname: "I k \<Longrightarrow> I (snd (sys_uname b k))"
proof -
  have "I (write_utsfield b i s k)" if "I k" for i s k
    using that by (simp add: write_utsfield_def Let_def I_poke)
  then have "I k \<Longrightarrow> I (fold (\<lambda>i. write_utsfield b i (utsname_vals ! i)) is k)" for "is" k
    by (induction "is" arbitrary: k) auto
  then show "I k \<Longrightarrow> I (snd (sys_uname b k))" by (simp add: sys_uname_def)
qed

lemma I_clock: "I k \<Longrightarrow> I (snd (sys_clock_gettime c t k))" "I k \<Longrightarrow> I (snd (sys_gettimeofday t z k))"
  by (auto simp: sys_clock_gettime_def sys_gettimeofday_def I_poke)

lemma I_getrandom: "I k \<Longrightarrow> I (snd (sys_getrandom b l k))"
  by (simp add: sys_getrandom_def I_poke)

lemma I_arch_prctl: "I k \<Longrightarrow> I (snd (sys_arch_prctl a b k))"
  by (simp add: sys_arch_prctl_def I_arch_fs I_arch_gs)

lemma I_brk_set: "I k \<Longrightarrow> I (snd (brk_set b k))"
  by (simp add: brk_set_def Let_def I_brk)

lemma I_wait4: "I k \<Longrightarrow> I (snd (sys_wait4 p s o' r k))"
  by (simp add: sys_wait4_def Let_def I_poke I_waitable)

lemma I_mmap_call: "I k \<Longrightarrow> state_ok I (sys_mmap l k)"
  by (auto simp: sys_mmap_def Let_def I_mmap intro!: run_intro)

lemma I_posix_read: "I k \<Longrightarrow> state_ok I (posix_read fd b l k)"
proof -
  assume k: "I k"
  have "k\<lparr>umem := m, stdin_reader := ps\<rparr> = (k\<lparr>umem := m\<rparr>)\<lparr>stdin_reader := ps\<rparr>" for m ps by simp
  with k show ?thesis
    by (auto simp: posix_read_def simp del: posix_layer.simps intro: updates split: option.splits)
qed

lemma state_ok_ret: "I (snd r) \<Longrightarrow> state_ok I (ret r)"
  by (cases r) simp

lemmas handlers = I_openat I_read I_close I_lseek I_dup I_dup2 I_stat_path I_fstat I_newfstatat
  I_getdents I_getcwd I_chdir I_access I_readlink I_uname I_clock I_getrandom I_arch_prctl
  I_brk_set I_wait4

text \<open>Every call but \<open>exit\<close>, whatever its arguments, keeps the property.\<close>

lemma I_dispatch_live:
  "I k \<Longrightarrow> nr \<noteq> SYS_EXIT \<Longrightarrow> nr \<noteq> SYS_EXIT_GROUP \<Longrightarrow> state_ok I (dispatch nr a0 a1 a2 a3 a4 a5 k)"
  unfolding dispatch_def
  by (intro state_ok_if_cond)
    (simp_all add: state_ok_ret handlers I_mmap_call I_posix_read sys_faccessat_def sys_readlinkat_def)

end

text \<open>A property that does not speak of the exit code survives every call.\<close>

locale kernel_invariant = call_invariant +
  assumes I_last_exit: "I k \<Longrightarrow> I (k\<lparr>last_exit := c\<rparr>)"
begin

lemma I_exit: "I k \<Longrightarrow> I (k\<lparr>last_exit := c, exit_waitable := w\<rparr>)"
  using I_waitable [OF I_last_exit] by simp

lemma I_dispatch: "I k \<Longrightarrow> state_ok I (dispatch nr a0 a1 a2 a3 a4 a5 k)"
proof (cases "nr = SYS_EXIT \<or> nr = SYS_EXIT_GROUP")
  case True
  then show "I k \<Longrightarrow> ?thesis" by (auto simp: dispatch_def sys_nrs I_exit)
qed (simp add: I_dispatch_live)

end

interpretation fds: kernel_invariant fd_inv
  by unfold_locales (simp_all add: fd_inv_updates fd_inv_set_fd)

text \<open>
  No call remounts the file system, changes the process id, or moves the working directory
  away from the root.
\<close>

definition steady :: "bytes option \<Rightarrow> u32 \<Rightarrow> kernel \<Rightarrow> bool" where
  "steady R p k \<longleftrightarrow>
     fd_inv k \<and> rootfs k = R \<and> pid k = p \<and>
     cwd_len k = 1 \<and> length (cwd_buf k) = 64 \<and> cwd_buf k ! 0 = slash"

interpretation steady: kernel_invariant "steady R p" for R p
  by unfold_locales (simp_all add: steady_def fd_inv_updates fd_inv_set_fd, simp add: set_fd_def)

section \<open>Reachable kernel states\<close>

text \<open>
  From boot, in any order: the ram disk is mounted (only after its header was accepted), the
  keyboard is attached, a program runs and exits, writes its memory, and makes system calls.
\<close>

inductive sys_reach :: "kernel \<Rightarrow> bool" where
  boot: "sys_reach (boot_kernel m)"
| mount: "sys_reach k \<Longrightarrow> fs_header img = Inr h \<Longrightarrow> sys_reach (set_rootfs img k)"
| keyboard: "sys_reach k \<Longrightarrow> sys_reach (set_stdin_reader ps k)"
| start: "sys_reach k \<Longrightarrow> sys_reach (mark_exit_code c k)"
| store: "sys_reach k \<Longrightarrow> sys_reach (poke a bs k)"
| call: "sys_reach k \<Longrightarrow>
    (dispatch nr a0 a1 a2 a3 a4 a5 k :: (unit, kernel, u64) run) = Done v k' \<Longrightarrow> sys_reach k'"

lemma sys_reach_fd_inv: "sys_reach k \<Longrightarrow> fd_inv k"
proof (induction rule: sys_reach.induct)
  case (boot m)
  show ?case by (rule fd_inv_boot)
next
  case (mount k img h)
  show ?case by (rule fd_inv_set_rootfs)
next
  case (keyboard k ps)
  then show ?case by (simp add: set_stdin_reader_def fd_inv_updates)
next
  case (start k c)
  then show ?case by (simp add: mark_exit_code_def fd_inv_updates)
next
  case (store k a bs)
  then show ?case by (simp add: poke_def fd_inv_updates)
next
  case (call k nr a0 a1 a2 a3 a4 a5 v k')
  have "state_ok fd_inv (dispatch nr a0 a1 a2 a3 a4 a5 k :: (unit, kernel, u64) run)"
    by (rule fds.I_dispatch [OF call.IH])
  then show ?case unfolding call.hyps(2) by simp
qed

end
