(* ===== verification/Interp_Laws.thy ===== *)
theory Interp_Laws
  imports Interp Syscall_Inv
begin

text \<open>
  What every instruction keeps: the guest cannot grow its memory, only a system call reaches
  the kernel or the terminal, and every property of the kernel state that survives all
  system calls survives running a program.
\<close>

unbundle bit_operations_syntax

section \<open>Instructions other than \<open>syscall\<close>\<close>

definition opt_ok :: "('s \<Rightarrow> bool) \<Rightarrow> ('e, 's, 'a) run option \<Rightarrow> bool" where
  "opt_ok P r \<longleftrightarrow> (\<forall>x. r = Some x \<longrightarrow> state_ok P x)"

lemma opt_ok_simps [simp]: "opt_ok P None" "opt_ok P (Some r) = state_ok P r"
  by (simp_all add: opt_ok_def)

lemma opt_ok_if: "opt_ok P x \<Longrightarrow> opt_ok P y \<Longrightarrow> opt_ok P (if c then x else y)"
  by simp

lemma opt_ok_or_else: "opt_ok P x \<Longrightarrow> opt_ok P y \<Longrightarrow> opt_ok P (or_else x y)"
  by (cases x) auto

text \<open>The part of the machine that these instructions leave alone.\<close>

definition outside_same :: "machine \<Rightarrow> machine \<Rightarrow> bool" where
  "outside_same s s' \<longleftrightarrow>
     length (gmem s') = length (gmem s) \<and> kern s' = kern s \<and> screen s' = screen s"

lemma outside_refl [simp]: "outside_same s s"
  by (simp add: outside_same_def)

lemma outside_set_reg [simp]: "outside_same s (set_reg64 r v s') = outside_same s s'"
  by (simp add: outside_same_def set_reg64_def)

lemma outside_regs [simp]:
  "outside_same s (s'\<lparr>rax := v\<rparr>) = outside_same s s'" "outside_same s (s'\<lparr>rbp := v\<rparr>) = outside_same s s'"
  "outside_same s (s'\<lparr>rbx := v\<rparr>) = outside_same s s'" "outside_same s (s'\<lparr>rsp := v\<rparr>) = outside_same s s'"
  "outside_same s (s'\<lparr>rdi := v\<rparr>) = outside_same s s'" "outside_same s (s'\<lparr>rsi := v\<rparr>) = outside_same s s'"
  "outside_same s (s'\<lparr>rdx := v\<rparr>) = outside_same s s'" "outside_same s (s'\<lparr>rcx := v\<rparr>) = outside_same s s'"
  "outside_same s (s'\<lparr>r8 := v\<rparr>) = outside_same s s'" "outside_same s (s'\<lparr>r9 := v\<rparr>) = outside_same s s'"
  "outside_same s (s'\<lparr>r10 := v\<rparr>) = outside_same s s'" "outside_same s (s'\<lparr>r12 := v\<rparr>) = outside_same s s'"
  "outside_same s (s'\<lparr>r13 := v\<rparr>) = outside_same s s'" "outside_same s (s'\<lparr>rip := v\<rparr>) = outside_same s s'"
  "outside_same s (s'\<lparr>zf := z, sf := n\<rparr>) = outside_same s s'"
  by (simp_all add: outside_same_def)

lemma outside_flags [simp]:
  "outside_same s (set_flags v s') = outside_same s s'"
  "outside_same s (set_al b s') = outside_same s s'"
  by (simp_all add: set_flags_def set_al_def)

lemma outside_gmem: "outside_same s s' \<Longrightarrow> length m = length (gmem s') \<Longrightarrow> outside_same s (s'\<lparr>gmem := m\<rparr>)"
  by (simp add: outside_same_def)

named_theorems step_ok

lemmas [step_ok] = run_intro

lemma adv_ok [step_ok]: "outside_same s s' \<Longrightarrow> state_ok (outside_same s) (adv n s')"
  by (cases "checked_add_u64 (rip s') n") (simp_all add: adv_def)

lemma push_ok [step_ok]: "outside_same s s' \<Longrightarrow> state_ok (outside_same s) (push_u64 base v s')"
  unfolding push_u64_def
  by (intro step_ok) (auto simp: outside_same_def dest: length_write_u64)

lemma pop_ok [step_ok]: "outside_same s s' \<Longrightarrow> state_ok (outside_same s) (pop_u64 base s')"
  unfolding pop_u64_def by (intro step_ok) auto

lemma push_adv_ok [step_ok]: "outside_same s s' \<Longrightarrow> state_ok (outside_same s) (push_adv base v n s')"
  unfolding push_adv_def by (intro step_ok)

lemma pop_adv_ok [step_ok]:
  "outside_same s s' \<Longrightarrow> (\<And>v s'. outside_same s s' \<Longrightarrow> outside_same s (setr v s')) \<Longrightarrow>
   state_ok (outside_same s) (pop_adv base setr n s')"
  unfolding pop_adv_def by (intro step_ok)

lemma imm_ok [step_ok]:
  "outside_same s s' \<Longrightarrow> state_ok (outside_same s) (imm_u32 base n s')"
  "outside_same s s' \<Longrightarrow> state_ok (outside_same s) (imm_i32 base n s')"
  unfolding imm_u32_def imm_i32_def by (intro step_ok; simp)+

lemma exec_stack_ops_ok: "opt_ok (outside_same s) (exec_stack_ops base b s)"
  unfolding exec_stack_ops_def
  by (intro opt_ok_if) (auto intro!: step_ok outside_gmem dest: length_write_u64)

lemma exec_alu_ok: "opt_ok (outside_same s) (exec_alu base b s)"
  using imm_ok(1) [OF outside_refl [of s], of base 3]
  by (auto simp: exec_alu_def Let_def intro!: step_ok split: run.splits)

lemma exec_moves_ok: "opt_ok (outside_same s) (exec_moves b s)"
  unfolding exec_moves_def by (intro opt_ok_if) (auto intro!: step_ok)

lemma exec_load_ok: "opt_ok (outside_same s) (exec_load base b s)"
  unfolding exec_load_def Let_def by (intro opt_ok_if) (auto intro!: step_ok)

lemma exec_lea_ok: "opt_ok (outside_same s) (exec_lea b s)"
  unfolding exec_lea_def Let_def by (intro opt_ok_if) (auto intro!: step_ok)

lemma exec_moves2_ok: "opt_ok (outside_same s) (exec_moves2 base b s)"
  unfolding exec_moves2_def by (intro opt_ok_if) (auto intro!: step_ok)

lemma exec_zero_ok: "opt_ok (outside_same s) (exec_zero b s)"
  unfolding exec_zero_def by (intro opt_ok_if) (auto intro!: step_ok)

lemma exec_tests_ok: "opt_ok (outside_same s) (exec_tests base b s)"
  unfolding exec_tests_def Let_def by (intro opt_ok_if) (auto intro!: step_ok)

lemma exec_imm_ok: "opt_ok (outside_same s) (exec_imm base b s)"
  unfolding exec_imm_def Let_def by (intro opt_ok_if) (auto intro!: step_ok)

lemma lea_rip_ok [step_ok]:
  "outside_same s s' \<Longrightarrow> (\<And>v s'. outside_same s s' \<Longrightarrow> outside_same s (setr v s')) \<Longrightarrow>
   state_ok (outside_same s) (lea_rip base setr s')"
  unfolding lea_rip_def by (intro step_ok) auto

lemma store_imm_ok [step_ok]:
  "outside_same s s' \<Longrightarrow> state_ok (outside_same s) (store_imm base r d off n s')"
  unfolding store_imm_def by (intro step_ok) (auto intro!: outside_gmem dest: length_write_u32)

lemma exec_lea_rip_ok: "opt_ok (outside_same s) (exec_lea_rip base b s)"
  unfolding exec_lea_rip_def Let_def by (intro opt_ok_if) (auto intro!: step_ok)

lemma exec_plain_ok: "opt_ok (outside_same s) (exec_plain base b s)"
  unfolding exec_plain_def
  by (intro opt_ok_or_else exec_stack_ops_ok exec_alu_ok exec_moves_ok exec_load_ok exec_lea_ok
      exec_moves2_ok exec_zero_ok exec_tests_ok exec_imm_ok exec_lea_rip_ok)

lemma jump_rel_ok [step_ok]: "outside_same s s' \<Longrightarrow> state_ok (outside_same s) (jump_rel n r s')"
  unfolding jump_rel_def by (intro step_ok) auto

lemma call_indirect_ok [step_ok]:
  "outside_same s s' \<Longrightarrow> state_ok (outside_same s) (call_indirect base n t s')"
  unfolding call_indirect_def Let_def by (intro step_ok) auto

lemma exec_jumps_ok: "opt_ok (outside_same s) (exec_jumps base b s)"
  unfolding exec_jumps_def by (intro opt_ok_if) (auto intro!: step_ok)

section \<open>Programs and the kernel state\<close>

lemma outside_same_state_ok:
  "state_ok (outside_same s) r \<Longrightarrow> P s \<Longrightarrow> (\<And>s'. outside_same s s' \<Longrightarrow> P s') \<Longrightarrow> state_ok P r"
  by (cases r) auto

context kernel_invariant begin

text \<open>The memory has its size and the kernel its property.\<close>

definition good :: "nat \<Rightarrow> machine \<Rightarrow> bool" where
  "good n s \<longleftrightarrow> length (gmem s) = n \<and> I (kern s)"

definition good_runner :: "runner \<Rightarrow> bool" where
  "good_runner nested \<longleftrightarrow>
     (\<forall>img argv envp con. I (snd con) \<longrightarrow>
        state_ok (\<lambda>c. I (snd c)) (nested img argv envp con))"

lemma good_outside: "good n s \<Longrightarrow> outside_same s s' \<Longrightarrow> good n s'"
  by (simp add: good_def outside_same_def)

lemma good_rax [simp]: "good n (s\<lparr>rax := v\<rparr>) = good n s"
  by (simp add: good_def)

lemma good_rip [simp]: "good n (s\<lparr>rip := v\<rparr>) = good n s"
  by (simp add: good_def)

lemma good_in_kernel [step_ok]:
  "good n s \<Longrightarrow> state_ok I r \<Longrightarrow> state_ok (good n) (in_kernel s r)"
  by (cases r) (auto simp: good_def)

lemma good_ret_rax [step_ok]: "good n s \<Longrightarrow> state_ok (good n) (ret_rax ex v s)"
  by (simp add: ret_rax_def)

lemma I_stdin_byte: "I k \<Longrightarrow> state_ok I (read_stdin_byte_blocking k)"
  by (auto simp: read_stdin_byte_blocking_def intro: I_stdin split: option.splits)

lemma good_stdin_loop [step_ok]: "good n s \<Longrightarrow> state_ok (good n) (stdin_loop st got c s)"
proof (induction c arbitrary: got s)
  case 0
  then show ?case by simp
next
  case (Suc c)
  have byte: "state_ok (good n) (in_kernel s (read_stdin_byte_blocking (kern s)))"
    using Suc.prems by (intro step_ok I_stdin_byte) (simp_all add: good_def)
  have rest: "state_ok (good n) (stdin_loop st (got + 1) c
      (s'\<lparr>gmem := (gmem s')[i := x], screen := z\<rparr>))" if "good n s'" for s' i x z
    by (rule Suc.IH) (use that in \<open>simp add: good_def\<close>)
  have upd: "good n (s'\<lparr>gmem := (gmem s')[i := x], screen := z\<rparr>)" if "good n s'" for s' i x z
    using that by (simp add: good_def)
  show ?case unfolding stdin_loop.simps
  proof (rule state_ok_and_then [OF byte])
    fix r s' assume "good n s'"
    then show "state_ok (good n) (case r of None \<Rightarrow> Done got s' | Some ch \<Rightarrow>
        let mapped = if ch = CR then LF else ch;
            s = s'\<lparr>gmem := (gmem s')[st + got := mapped], screen := screen s' @ [mapped]\<rparr>
        in if mapped = LF then Done (got + 1) s else stdin_loop st (got + 1) c s)"
      using rest upd by (cases r) (simp_all add: Let_def)
  qed
qed

lemma good_guest_read [step_ok]:
  assumes "good n s"
  shows "state_ok (good n) (guest_read base tmp s)"
proof -
  have I: "I (kern s)" and len: "length (gmem s) = n" using assms by (simp_all add: good_def)
  have call: "state_ok I (dispatch SYS_READ fd tmp w 0 0 0 (poke tmp bs (kern s)))" for fd w bs
    by (rule I_dispatch [OF I_poke [OF I]])
  have put: "good n (s'\<lparr>gmem := put_slice (gmem s') st (mem_read m tmp got)\<rparr>)"
    if "good n s'" "st + got \<le> length (gmem s')" for s' st got m
    using that by (simp add: good_def)
  show ?thesis
    unfolding guest_read_def Let_def
    by (intro state_ok_with_res state_ok_and_then state_ok_if_cond good_stdin_loop good_ret_rax
        good_in_kernel call assms) (simp_all add: put)
qed

lemma good_guest_write [step_ok]:
  assumes "good n s"
  shows "state_ok (good n) (guest_write base s)"
proof -
  have scr: "good n (s\<lparr>screen := z\<rparr>)" for z using assms by (simp add: good_def)
  have I: "I (kern s)" using assms by (simp add: good_def)
  show ?thesis
    unfolding guest_write_def Let_def
    by (intro step_ok) (use assms scr in \<open>simp_all add: I_dispatch [OF I]\<close>)
qed

lemma state_ok_ptr_loop: "P s \<Longrightarrow> state_ok P (ptr_array_loop base mem va i n s)"
proof (induction n arbitrary: i)
  case 0
  then show ?case by simp
next
  case (Suc n)
  show ?case unfolding ptr_array_loop.simps by (intro step_ok Suc) (use Suc.prems in simp_all)
qed

lemma state_ok_str_array [step_ok]: "P s \<Longrightarrow> state_ok P (read_user_str_array base mem va n s)"
  unfolding read_user_str_array_def read_user_ptr_array_def
  by (intro step_ok) (auto intro: state_ok_ptr_loop)

lemma good_guest_execve [step_ok]:
  assumes nested: "good_runner nested" and s: "good n s"
  shows "state_ok (good n) (guest_execve nested base s)"
proof -
  have run: "state_ok (good n)
      (exec_result s' (nested img av ev (screen s', mark_exit_code 0 (kern s'))))"
    if "good n s'" for img av ev s'
  proof -
    let ?r = "nested img av ev (screen s', mark_exit_code 0 (kern s'))"
    have k: "I (mark_exit_code 0 (kern s'))"
      using that I_waitable [OF I_last_exit] by (simp add: good_def mark_exit_code_def)
    have "state_ok (\<lambda>c. I (snd c)) ?r" using nested k by (simp add: good_runner_def)
    then show ?thesis
      using that by (cases ?r) (auto simp: good_def ret_rax_def)
  qed
  have cont: "state_ok (good n) (case normalize_exec_path path of
      None \<Rightarrow> ret_rax False (- ENOENT) s'
    | Some name \<Rightarrow>
        (case rootfs_image (kern s') of
           None \<Rightarrow> ret_rax False (- ENOENT) s'
         | Some fs_img \<Rightarrow>
             (case fs_open fs_img name of
                Inl _ \<Rightarrow> ret_rax False (- ENOENT) s'
              | Inr rec \<Rightarrow>
                  (let arg_refs = (if argv = [] then [name] else argv);
                       k = mark_exit_code 0 (kern s')
                   in exec_result s' (nested (fr_data rec) arg_refs envp (screen s', k))))))"
    if "good n s'" for path argv envp s'
    using that run [OF that]
    by (auto simp: Let_def intro!: step_ok split: option.split sum.split)
  have path: "state_ok (good n) (case p of None \<Rightarrow> ret_rax False (- EFAULT) s
      | Some path \<Rightarrow> f path)" if "\<And>path. state_ok (good n) (f path)" for p f
    using that s by (cases p) (auto intro!: step_ok)
  show ?thesis
    unfolding guest_execve_def
    by (intro state_ok_with_res s path state_ok_and_then state_ok_str_array cont)
qed

lemma good_handle_syscall:
  assumes nested: "good_runner nested" and s: "good n s"
  shows "state_ok (good n) (handle_syscall nested base tmp s)"
proof -
  have I: "I (kern s)" using s by (simp add: good_def)
  show ?thesis
    unfolding handle_syscall_def Let_def
    by (intro step_ok nested s I_dispatch [OF I])
qed

lemma good_exec_one:
  assumes nested: "good_runner nested" and s: "good n s"
  shows "state_ok (good n) (exec_one nested base tmp s)"
proof -
  have out: "opt_ok (good n) r" if "opt_ok (outside_same s) r" for r :: "bool mrun option"
    using that s by (cases r) (auto intro: outside_same_state_ok good_outside)
  have sys: "opt_ok (good n) (exec_syscall nested base tmp b s)" for b
    unfolding exec_syscall_def
    by (intro opt_ok_if) (auto intro!: step_ok good_handle_syscall [OF nested s])
  have all: "opt_ok (good n)
      (or_else (exec_plain base b s) (or_else (exec_syscall nested base tmp b s) (exec_jumps base b s)))" for b
    by (intro opt_ok_or_else out [OF exec_plain_ok] sys out [OF exec_jumps_ok])
  have "state_ok (good n) (case or_else (exec_plain base b s)
        (or_else (exec_syscall nested base tmp b s) (exec_jumps base b s)) of
       Some r \<Rightarrow> r | None \<Rightarrow> Fail (UnsupportedInstruction (rip s) b) s)" for b
    using all [of b] s by (auto split: option.split)
  then show ?thesis unfolding exec_one_def by (intro step_ok s)
qed

lemma good_run_steps:
  assumes "\<And>s. good n s \<Longrightarrow> state_ok (good n) (step s)"
  shows "good n s \<Longrightarrow> state_ok (good n) (run_steps step i s)"
proof (induction i arbitrary: s)
  case 0
  then show ?case by simp
next
  case (Suc i)
  show ?case unfolding run_steps.simps
    by (intro step_ok assms Suc.prems) (simp_all add: Suc.IH)
qed

lemma state_ok_with_mem:
  "P con \<Longrightarrow> (\<And>x m. state_ok P (f x m)) \<Longrightarrow> state_ok P (with_mem con r f)"
  by (cases r) auto

lemma good_load_and_run:
  assumes nested: "good_runner nested"
  shows "good_runner (load_and_run nested tmp)"
proof -
  have fin: "state_ok (\<lambda>c. I (snd c)) (finish r)" if "state_ok (good n) r" for n r
    using that by (cases r) (auto simp: good_def)
  have run: "state_ok (\<lambda>c. I (snd c)) (finish (run_steps (exec_one nested base tmp) i
      (start_cpu sp e mem con)))" if "I (snd con)" for base i sp e mem con
  proof (rule fin [OF good_run_steps [of "length mem"]])
    show "good (length mem) (start_cpu sp e mem con)"
      using that by (simp add: good_def start_cpu_def)
  qed (rule good_exec_one [OF nested])
  show ?thesis
    unfolding good_runner_def load_and_run_def Let_def
    by (auto intro!: step_ok state_ok_with_mem run split: prod.split)
qed

lemma good_run_elf: "good_runner (run_linux_elf_with_args depth tmp)"
proof (induction depth)
  case 0
  show ?case by (simp add: good_runner_def)
next
  case (Suc depth)
  have "run_linux_elf_with_args (Suc depth) tmp =
      load_and_run (run_linux_elf_with_args depth tmp) tmp"
    by (intro ext) simp
  with good_load_and_run [OF Suc] show ?case by simp
qed

text \<open>Whatever a guest does, the property still holds when its run is over.\<close>

lemma I_run_elf:
  "I (snd con) \<Longrightarrow> state_ok (\<lambda>c. I (snd c)) (run_linux_elf_with_args depth tmp img argv envp con)"
  using good_run_elf [of depth tmp] unfolding good_runner_def by blast

end

end
