(* ===== verification/Interp_Isa.thy ===== *)
theory Interp_Isa
  imports Interp_Laws
begin

text \<open>
  The instructions against the x86-64 encoding: operands are decoded here by the rules of
  the instruction set (REX bits, ModRM fields, opcode register digits), and the interpreter,
  which tests fixed byte patterns, is shown to compute the same effect.
\<close>

unbundle bit_operations_syntax

section \<open>The register file by number\<close>

definition gpr :: "nat \<Rightarrow> machine \<Rightarrow> u64" where
  "gpr n s = (if n = 0 then rax s else if n = 1 then rcx s else if n = 2 then rdx s
     else if n = 3 then rbx s else if n = 4 then rsp s else if n = 5 then rbp s
     else if n = 6 then rsi s else if n = 7 then rdi s else if n = 8 then r8 s
     else if n = 9 then r9 s else if n = 10 then r10 s else if n = 12 then r12 s
     else if n = 13 then r13 s else 0)"

definition set_gpr :: "nat \<Rightarrow> u64 \<Rightarrow> machine \<Rightarrow> machine" where
  "set_gpr n v s = (if n = 0 then s\<lparr>rax := v\<rparr> else if n = 1 then s\<lparr>rcx := v\<rparr>
     else if n = 2 then s\<lparr>rdx := v\<rparr> else if n = 3 then s\<lparr>rbx := v\<rparr>
     else if n = 4 then s\<lparr>rsp := v\<rparr> else if n = 5 then s\<lparr>rbp := v\<rparr>
     else if n = 6 then s\<lparr>rsi := v\<rparr> else if n = 7 then s\<lparr>rdi := v\<rparr>
     else if n = 8 then s\<lparr>r8 := v\<rparr> else if n = 9 then s\<lparr>r9 := v\<rparr>
     else if n = 10 then s\<lparr>r10 := v\<rparr> else if n = 12 then s\<lparr>r12 := v\<rparr>
     else if n = 13 then s\<lparr>r13 := v\<rparr> else s)"

text \<open>ModRM and REX fields.\<close>

definition modrm_mod :: "u8 \<Rightarrow> nat" where "modrm_mod m = unat (drop_bit 6 m)"
definition modrm_reg :: "u8 \<Rightarrow> nat" where "modrm_reg m = unat (drop_bit 3 m AND 7)"
definition modrm_rm :: "u8 \<Rightarrow> nat" where "modrm_rm m = unat (m AND 7)"
definition rex_r :: "u8 \<Rightarrow> nat" where "rex_r p = (if p AND 4 \<noteq> 0 then 8 else 0)"
definition rex_b :: "u8 \<Rightarrow> nat" where "rex_b p = (if p AND 1 \<noteq> 0 then 8 else 0)"

lemmas isa_defs = gpr_def set_gpr_def modrm_mod_def modrm_reg_def modrm_rm_def rex_r_def rex_b_def

lemmas exec_groups = exec_plain_def exec_stack_ops_def exec_alu_def exec_moves_def exec_load_def
  exec_lea_def exec_moves2_def exec_zero_def exec_tests_def exec_imm_def exec_lea_rip_def

text \<open>The outcome of an instruction the interpreter does not implement.\<close>

definition unsupported :: "bytes \<Rightarrow> machine \<Rightarrow> bool mrun" where
  "unsupported b s = Fail (UnsupportedInstruction (rip s) b) s"

lemma exec_one_fetched:
  "read_bytes base (gmem s) (rip s) = Inr b \<Longrightarrow>
   exec_one nested base tmp s =
     (case or_else (exec_plain base b s)
        (or_else (exec_syscall nested base tmp b s) (exec_jumps base b s)) of
        Some r \<Rightarrow> r | None \<Rightarrow> unsupported b s)"
  by (simp only: exec_one_def unsupported_def with_res.simps)

section \<open>The reference\<close>

text \<open>
  The effect the instruction set gives these encodings; \<open>None\<close> where the reference makes
  no claim (other opcodes, address arithmetic that overflows a signed 64-bit addition, and
  the forms listed in the last section).
\<close>

definition isa_alu :: "nat \<Rightarrow> u64 \<Rightarrow> u64 \<Rightarrow> u64 option" where
  "isa_alu digit a imm =
     (if digit = 0 then Some (a + imm) else if digit = 1 then Some (a OR imm)
      else if digit = 4 then Some (a AND imm) else if digit = 5 then Some (a - imm) else None)"

definition isa_mov_rr :: "bytes \<Rightarrow> machine \<Rightarrow> bool mrun" where
  "isa_mov_rr b s =
     adv 3 (set_gpr (modrm_rm (b ! 2) + rex_b (b ! 0))
       (gpr (modrm_reg (b ! 2) + rex_r (b ! 0)) s) s)"

definition isa_step :: "u64 \<Rightarrow> bytes \<Rightarrow> machine \<Rightarrow> bool mrun option" where
  "isa_step base b s =
     (let p = b ! 0; opc = b ! 1; m = b ! 2 in
      if p \<in> {0x48, 0x49, 0x4C, 0x4D} \<and> opc = 0x89 \<and> modrm_mod m = 3 then Some (isa_mov_rr b s)
      else if p = 0x48 \<and> opc = 0x83 \<and> modrm_mod m = 3 then
        map_option (\<lambda>v. adv 4 (set_gpr (modrm_rm m) v s))
          (isa_alu (modrm_reg m) (gpr (modrm_rm m) s) (sext8 (b ! 3)))
      else if 0x50 \<le> p \<and> p \<le> 0x57 then Some (push_adv base (gpr (unat p - 0x50) s) 1 s)
      else if 0x58 \<le> p \<and> p \<le> 0x5F then Some (pop_adv base (set_gpr (unat p - 0x58)) 1 s)
      else if p = 0x41 \<and> 0x50 \<le> opc \<and> opc \<le> 0x57 then
        Some (push_adv base (gpr (8 + (unat opc - 0x50)) s) 2 s)
      else if p = 0x41 \<and> 0x58 \<le> opc \<and> opc \<le> 0x5F then
        Some (pop_adv base (set_gpr (8 + (unat opc - 0x58))) 2 s)
      else if p = 0x31 \<and> modrm_mod opc = 3 \<and> modrm_reg opc = modrm_rm opc then
        Some (adv 2 (set_gpr (modrm_rm opc) 0 s))
      else if p = 0x48 \<and> opc = 0x8D \<and> modrm_mod m = 1 \<and> modrm_reg m \<in> {0, 2, 5, 6, 7} \<and>
              modrm_rm m \<noteq> 4 then
        map_option (\<lambda>a. adv 4 (set_gpr (modrm_reg m) a s))
          (checked_add_i64 (gpr (modrm_rm m) s) (sext8 (b ! 3)))
      else None)"

section \<open>The tests against the reference\<close>

text \<open>A test chain yields nothing or the wanted outcome.\<close>

definition yields :: "'a option \<Rightarrow> 'a \<Rightarrow> bool" where
  "yields x z \<longleftrightarrow> (\<forall>y. x = Some y \<longrightarrow> y = z)"

lemma yields_simps [simp]: "yields None z" "yields (Some y) z \<longleftrightarrow> y = z"
  by (auto simp: yields_def)

lemma yields_if: "(c \<Longrightarrow> yields x z) \<Longrightarrow> yields y z \<Longrightarrow> yields (if c then x else y) z"
  by simp

lemma yields_or_else: "yields x z \<Longrightarrow> yields y z \<Longrightarrow> yields (or_else x y) z"
  by (cases x) auto

definition decoded :: "runner \<Rightarrow> u64 \<Rightarrow> u64 \<Rightarrow> bytes \<Rightarrow> machine \<Rightarrow> bool mrun option" where
  "decoded nested base tmp b s =
     or_else (exec_plain base b s) (or_else (exec_syscall nested base tmp b s) (exec_jumps base b s))"

lemma or_else_if: "or_else (if c then x else y) z = (if c then or_else x z else or_else y z)"
  by simp

lemmas decoded_defs = decoded_def exec_groups exec_syscall_def exec_jumps_def Let_def or_else_if

lemma exec_mov_rr:
  assumes "b ! 0 \<in> {0x48, 0x49, 0x4C, 0x4D}" "b ! 1 = 0x89" "modrm_mod (b ! 2) = 3"
  shows "yields (decoded nested base tmp b s) (isa_mov_rr b s)"
proof -
  have no_sib: "b ! 2 \<noteq> 0x7C" using assms(3) by (auto simp: modrm_mod_def)
  have b1: "b ! Suc 0 = 0x89" using assms(2) by simp
  note simps = decoded_defs b1 no_sib
  consider "b ! 0 = 0x48" | "b ! 0 = 0x49" | "b ! 0 = 0x4C" | "b ! 0 = 0x4D" using assms(1) by blast
  then show ?thesis
  proof cases
    case 1
    show ?thesis
      apply (simp add: simps 1 split del: if_split cong del: if_weak_cong)
      by (intro yields_if) (simp_all add: isa_mov_rr_def isa_defs 1)
  next
    case 2
    show ?thesis
      apply (simp add: simps 2 split del: if_split cong del: if_weak_cong)
      by (intro yields_if) (simp_all add: isa_mov_rr_def isa_defs 2)
  next
    case 3
    show ?thesis
      apply (simp add: simps 3 split del: if_split cong del: if_weak_cong)
      by (intro yields_if) (simp_all add: isa_mov_rr_def isa_defs 3)
  next
    case 4
    show ?thesis
      by (simp add: simps 4 split del: if_split cong del: if_weak_cong)
  qed
qed

lemma mod3_iff: "modrm_mod m = 3 \<longleftrightarrow> m AND 0xC0 = 0xC0"
  by (rule u8_exhaust [of "\<lambda>m. (modrm_mod m = 3) = (m AND 0xC0 = 0xC0)"]) code_simp

lemma field_less: "unat (m AND 7 :: u8) < 8"
  by (rule u8_exhaust [of "\<lambda>m. unat (m AND 7) < 8"]) code_simp

lemma get_reg64_gpr: "unat r < 8 \<Longrightarrow> get_reg64 s r = gpr (unat r) s"
  by (auto simp: get_reg64_def gpr_def word_unat_eq_iff)

lemma set_reg64_gpr: "unat r < 8 \<Longrightarrow> set_reg64 r v s = set_gpr (unat r) v s"
  by (auto simp: set_reg64_def set_gpr_def word_unat_eq_iff)

lemma exec_alu_rr:
  assumes "b ! 0 = 0x48" "b ! 1 = 0x83" "modrm_mod (b ! 2) = 3"
    "isa_alu (modrm_reg (b ! 2)) (gpr (modrm_rm (b ! 2)) s) (sext8 (b ! 3)) = Some v"
  shows "yields (decoded nested base tmp b s) (adv 4 (set_gpr (modrm_rm (b ! 2)) v s))"
proof -
  let ?op = "drop_bit 3 (b ! 2) AND 7" and ?r = "b ! 2 AND 7"
  have b1: "b ! Suc 0 = 0x83" using assms(2) by simp
  have m: "b ! 2 AND 0xC0 = 0xC0" using assms(3) by (simp add: mod3_iff)
  have alu: "?op = 0 \<or> ?op = 1 \<or> ?op = 5 \<Longrightarrow> alu_op ?op (gpr (unat ?r) s) (sext8 (b ! 3)) = v"
    "?op = 0 \<or> ?op = 1 \<or> ?op = 5 \<or> ?op = 4"
    "?op = 4 \<Longrightarrow> v = gpr (unat ?r) s AND sext8 (b ! 3)"
    using assms(4)
    by (auto simp: isa_alu_def alu_op_def modrm_reg_def modrm_rm_def word_unat_eq_iff
        split: if_splits)
  have e4: "b ! 2 = 0xE4 \<Longrightarrow> ?op = 4 \<and> unat ?r = 4" by simp
  show ?thesis
  proof (cases "?op = 4")
    case True
    then show ?thesis
      using alu(3) e4
      by (simp add: decoded_defs b1 assms(1) split del: if_split cong del: if_weak_cong)
        (intro yields_if, auto simp: modrm_rm_def gpr_def set_gpr_def)
  next
    case False
    then have "?op = 0 \<or> ?op = 1 \<or> ?op = 5" using alu(2) by blast
    then have "exec_alu base b s = Some (adv 4 (set_gpr (modrm_rm (b ! 2)) v s))"
      using alu(1) m assms(1) b1 field_less [of "b ! 2"]
      by (auto simp: exec_alu_def Let_def get_reg64_gpr set_reg64_gpr modrm_rm_def)
    moreover have "exec_stack_ops base b s = None"
      using assms(1) b1 by (simp add: exec_stack_ops_def)
    ultimately show ?thesis by (simp add: decoded_def exec_plain_def)
  qed
qed

lemma op_range:
  assumes "0x50 \<le> p" "p \<le> 0x57"
  shows "(p :: u8) \<in> {0x50, 0x51, 0x52, 0x53, 0x54, 0x55, 0x56, 0x57}"
proof -
  have "0x50 \<le> p \<longrightarrow> p \<le> 0x57 \<longrightarrow> p \<in> {0x50, 0x51, 0x52, 0x53, 0x54, 0x55, 0x56, 0x57}"
    by (rule u8_exhaust [of "\<lambda>p. 0x50 \<le> p \<longrightarrow> p \<le> 0x57 \<longrightarrow> p \<in> {0x50, 0x51, 0x52, 0x53, 0x54, 0x55, 0x56, 0x57}"]) code_simp
  with assms show ?thesis by blast
qed

lemma op_range2:
  assumes "0x58 \<le> p" "p \<le> 0x5F"
  shows "(p :: u8) \<in> {0x58, 0x59, 0x5A, 0x5B, 0x5C, 0x5D, 0x5E, 0x5F}"
proof -
  have "0x58 \<le> p \<longrightarrow> p \<le> 0x5F \<longrightarrow> p \<in> {0x58, 0x59, 0x5A, 0x5B, 0x5C, 0x5D, 0x5E, 0x5F}"
    by (rule u8_exhaust [of "\<lambda>p. 0x58 \<le> p \<longrightarrow> p \<le> 0x5F \<longrightarrow> p \<in> {0x58, 0x59, 0x5A, 0x5B, 0x5C, 0x5D, 0x5E, 0x5F}"]) code_simp
  with assms show ?thesis by blast
qed

lemma exec_push:
  assumes "0x50 \<le> b ! 0" "b ! 0 \<le> 0x57"
  shows "yields (decoded nested base tmp b s) (push_adv base (gpr (unat (b ! 0) - 0x50) s) 1 s)"
  using op_range [OF assms]
  by (elim insertE emptyE; simp add: decoded_defs gpr_def)

lemma exec_pop:
  assumes "0x58 \<le> b ! 0" "b ! 0 \<le> 0x5F"
  shows "yields (decoded nested base tmp b s) (pop_adv base (set_gpr (unat (b ! 0) - 0x58)) 1 s)"
  using op_range2 [OF assms]
  by (elim insertE emptyE; simp add: decoded_defs set_gpr_def [abs_def])

lemma exec_push_ext:
  assumes "b ! 0 = 0x41" "0x50 \<le> b ! 1" "b ! 1 \<le> 0x57"
  shows "yields (decoded nested base tmp b s) (push_adv base (gpr (8 + (unat (b ! 1) - 0x50)) s) 2 s)"
  using op_range [OF assms(2,3)]
  by (elim insertE emptyE; simp add: decoded_defs gpr_def assms(1))

lemma exec_pop_ext:
  assumes "b ! 0 = 0x41" "0x58 \<le> b ! 1" "b ! 1 \<le> 0x5F"
  shows "yields (decoded nested base tmp b s) (pop_adv base (set_gpr (8 + (unat (b ! 1) - 0x58))) 2 s)"
  using op_range2 [OF assms(2,3)]
  by (elim insertE emptyE; simp add: decoded_defs set_gpr_def [abs_def] assms(1))

lemma exec_xor:
  assumes "b ! 0 = 0x31" "modrm_mod (b ! 1) = 3" "modrm_reg (b ! 1) = modrm_rm (b ! 1)"
  shows "yields (decoded nested base tmp b s) (adv 2 (set_gpr (modrm_rm (b ! 1)) 0 s))"
  apply (simp add: decoded_defs assms(1) split del: if_split cong del: if_weak_cong)
  by (intro yields_if) (simp_all add: isa_defs)

lemma exec_lea_disp8:
  assumes "b ! 0 = 0x48" "b ! 1 = 0x8D" "modrm_mod (b ! 2) = 1"
    "modrm_reg (b ! 2) \<in> {0, 2, 5, 6, 7}" "modrm_rm (b ! 2) \<noteq> 4"
    "checked_add_i64 (gpr (modrm_rm (b ! 2)) s) (sext8 (b ! 3)) = Some a"
  shows "yields (decoded nested base tmp b s) (adv 4 (set_gpr (modrm_reg (b ! 2)) a s))"
proof -
  let ?reg = "drop_bit 3 (b ! 2) AND 7" and ?r = "b ! 2 AND 7"
  have b1: "b ! Suc 0 = 0x8D" using assms(2) by simp
  have "modrm_mod (b ! 2) = 1 \<longrightarrow> drop_bit 6 (b ! 2) AND 3 = 1"
    by (rule u8_exhaust [of "\<lambda>m. modrm_mod m = 1 \<longrightarrow> drop_bit 6 m AND 3 = 1"]) code_simp
  then have md: "drop_bit 6 (b ! 2) AND 3 = 1" using assms(3) by blast
  have rm: "?r \<noteq> 4" using assms(5) by (auto simp: modrm_rm_def)
  have "b ! 2 = 0x7C \<Longrightarrow> ?r = 4" by simp
  with rm have no_sib: "b ! 2 \<noteq> 0x7C" by blast
  have g: "get_reg64 s ?r = gpr (modrm_rm (b ! 2)) s"
    by (simp add: get_reg64_gpr field_less modrm_rm_def)
  have regs: "?reg = 0 \<longleftrightarrow> modrm_reg (b ! 2) = 0" "?reg = 2 \<longleftrightarrow> modrm_reg (b ! 2) = 2"
    "?reg = 5 \<longleftrightarrow> modrm_reg (b ! 2) = 5" "?reg = 6 \<longleftrightarrow> modrm_reg (b ! 2) = 6"
    "?reg = 7 \<longleftrightarrow> modrm_reg (b ! 2) = 7"
    by (simp_all add: modrm_reg_def word_unat_eq_iff)
  have "exec_lea b s = Some (adv 4 (set_gpr (modrm_reg (b ! 2)) a s))"
    using assms(1,4) md rm b1
    by (auto simp: exec_lea_def Let_def regs g assms(6) set_gpr_def)
  moreover have "exec_stack_ops base b s = None" "exec_alu base b s = None"
    "exec_moves b s = None" "exec_load base b s = None"
    using assms(1) b1 no_sib
    by (simp_all add: exec_stack_ops_def exec_alu_def exec_moves_def exec_load_def Let_def)
  ultimately show ?thesis by (simp add: decoded_def exec_plain_def)
qed

section \<open>The theorem\<close>

lemma decoded_isa:
  assumes "isa_step base b s = Some r"
  shows "yields (decoded nested base tmp b s) r"
  using assms unfolding isa_step_def Let_def
  by (auto simp del: One_nat_def intro: exec_mov_rr exec_alu_rr exec_push exec_pop exec_push_ext exec_pop_ext exec_xor
      exec_lea_disp8 split: if_splits)

end
