(* ===== verification/Guest_Stack.thy ===== *)
theory Guest_Stack
  imports Guest_Mem
begin

text \<open>
  The initial process stack: what \<open>build_initial_stack\<close> leaves in guest memory (argument
  count, argument and environment pointers, auxiliary vector, strings), that it succeeds
  when there is room, and that the kernel's own reader gets the strings back.
\<close>

unbundle bit_operations_syntax

section \<open>Strings below the stack pointer\<close>

lemma unat_diff_base: "base \<le> p \<Longrightarrow> unat (p - base) = unat p - unat base" for base p :: u64
  by (simp add: unat_sub word_le_nat_alt)

lemma unat_diff_mono:
  "base \<le> q \<Longrightarrow> q \<le> p \<Longrightarrow> unat (q - base) \<le> unat (p - base)" for base p q :: u64
  using unat_diff_base [of base q] unat_diff_base [of base p]
  by (simp add: word_le_nat_alt diff_le_mono)

text \<open>The string \<open>s\<close> and its terminator lie at \<open>p\<close>.\<close>

definition string_at :: "u64 \<Rightarrow> bytes \<Rightarrow> u64 \<Rightarrow> bytes \<Rightarrow> bool" where
  "string_at base mem p s \<longleftrightarrow>
     base \<le> p \<and> unat (p - base) + length s + 1 \<le> length mem \<and>
     sub_slice (unat (p - base)) (length s + 1) mem = s @ [0]"

text \<open>Nothing at or above \<open>p\<close> has changed.\<close>

definition kept_above :: "u64 \<Rightarrow> u64 \<Rightarrow> bytes \<Rightarrow> bytes \<Rightarrow> bool" where
  "kept_above base p mem mem' \<longleftrightarrow>
     length mem' = length mem \<and>
     (\<forall>i. unat (p - base) \<le> i \<and> i < length mem \<longrightarrow> mem' ! i = mem ! i)"

lemma kept_above_refl: "kept_above base p mem mem"
  by (simp add: kept_above_def)

lemma kept_above_trans:
  "kept_above base p a b \<Longrightarrow> kept_above base q b c \<Longrightarrow> base \<le> q \<Longrightarrow> q \<le> p \<Longrightarrow> kept_above base p a c"
proof -
  assume a: "kept_above base p a b" "kept_above base q b c" "base \<le> q" "q \<le> p"
  have "unat (q - base) \<le> unat (p - base)"
    using a(3,4) by (rule unat_diff_mono)
  with a(1,2) show "kept_above base p a c" by (simp add: kept_above_def)
qed

lemma string_at_kept:
  assumes "string_at base mem p s" "kept_above base q mem mem'" "base \<le> q" "q \<le> p"
  shows "string_at base mem' p s"
proof -
  let ?i = "unat (p - base)"
  have le: "unat (q - base) \<le> ?i"
    using assms(3,4) by (rule unat_diff_mono)
  have len: "length mem' = length mem" using assms(2) by (simp add: kept_above_def)
  have fit: "?i + (length s + 1) \<le> length mem" using assms(1) by (simp add: string_at_def)
  have "sub_slice ?i (length s + 1) mem' = sub_slice ?i (length s + 1) mem"
  proof (rule nth_equalityI)
    show "length (sub_slice ?i (length s + 1) mem') = length (sub_slice ?i (length s + 1) mem)"
      using fit len by (simp add: sub_slice_def)
    fix j assume "j < length (sub_slice ?i (length s + 1) mem')"
    then have j: "j < length s + 1" using fit len by simp
    then have "mem' ! (?i + j) = mem ! (?i + j)"
      using assms(2) le fit by (simp add: kept_above_def)
    then show "sub_slice ?i (length s + 1) mem' ! j = sub_slice ?i (length s + 1) mem ! j"
      using j fit len by (simp add: nth_sub_slice)
  qed
  with assms(1) len show ?thesis by (simp add: string_at_def)
qed

lemma checked_sub_Some:
  "checked_sub_u64 a b = Some c \<longleftrightarrow> unat b \<le> unat a \<and> c = a - b"
  by (auto simp: checked_sub_u64_def word_le_nat_alt)

text \<open>Pushing one string.\<close>

lemma push_cstr_done:
  assumes "push_cstr base sp s mem = Done p mem'" "length mem < usize_bound"
  shows "string_at base mem' p s" "kept_above base sp mem mem'"
    "unat p + length s + 1 = unat sp" "base \<le> p"
proof -
  let ?len = "length s + 1"
  from assms(1) obtain i where sub: "checked_sub_u64 sp (of_nat ?len) = Some p"
    and idx: "va_to_index base mem p = Inr i"
    and fit: "i + ?len \<le> length mem"
    and mem': "mem' = (put_slice mem i s)[i + length s := 0]"
    by (cases "checked_sub_u64 sp (of_nat ?len)"; cases "va_to_index base mem (the (checked_sub_u64 sp (of_nat ?len)))")
      (auto simp: push_cstr_def Let_def checked_add_usize_def split: if_splits)
  have len: "unat (of_nat ?len :: u64) = ?len" using fit assms(2) by (intro unat_of_nat_u64) linarith
  have p: "?len \<le> unat sp" "p = sp - of_nat ?len"
    using sub len unfolding checked_sub_Some by auto
  then show up: "unat p + length s + 1 = unat sp"
    using len by (simp add: unat_sub word_le_nat_alt)
  from idx show base: "base \<le> p" by (simp add: va_to_index_iff)
  from idx have i: "i = unat (p - base)" by (simp add: va_to_index_iff)
  have l: "length mem' = length mem" using fit by (simp add: mem')
  have nth: "mem' ! j = (if j = i + length s then 0
      else if i \<le> j \<and> j < i + length s then s ! (j - i) else mem ! j)" if "j < length mem" for j
    using that fit by (auto simp: mem' nth_list_update nth_put_slice)
  have "sub_slice i ?len mem' = s @ [0]"
  proof (rule nth_equalityI)
    show "length (sub_slice i ?len mem') = length (s @ [0])" using fit l by simp
    fix j assume "j < length (sub_slice i ?len mem')"
    then have "j < ?len" using fit l by simp
    then show "sub_slice i ?len mem' ! j = (s @ [0]) ! j"
      using fit l by (auto simp: nth_sub_slice nth nth_append)
  qed
  with base fit l show "string_at base mem' p s" by (simp add: string_at_def i)
  have "base \<le> sp" using base up by (simp add: word_le_nat_alt)
  then have "unat (sp - base) = i + ?len"
    using up base by (simp add: i unat_diff_base word_le_nat_alt)
  with l nth show "kept_above base sp mem mem'" by (auto simp: kept_above_def)
qed

lemma push_cstr_room:
  assumes "unat base + length s + 1 \<le> unat sp" "unat sp \<le> unat base + length mem"
    "length mem < usize_bound"
  shows "\<exists>p mem'. push_cstr base sp s mem = Done p mem'"
proof -
  let ?len = "length s + 1" and ?p = "sp - of_nat (length s + 1)"
  have len: "unat (of_nat ?len :: u64) = ?len"
    using assms(1) unat_u64_bound [of sp] by (intro unat_of_nat_u64) linarith
  have sub: "checked_sub_u64 sp (of_nat ?len) = Some ?p"
    unfolding checked_sub_Some len using assms(1) by simp
  have up: "unat ?p = unat sp - ?len"
    using len assms(1) by (simp only: unat_sub word_le_nat_alt)
  have b: "base \<le> ?p" using up assms(1) by (simp add: word_le_nat_alt)
  have i: "unat (?p - base) + ?len = unat sp - unat base"
    using up assms(1) unat_diff_base [OF b] by linarith
  then have "va_to_index base mem ?p = Inr (unat (?p - base))"
    unfolding va_to_index_iff using b assms(2) by linarith
  moreover have "checked_add_usize (unat (?p - base)) ?len = Some (unat (?p - base) + ?len)"
    using i assms(2,3) by (simp add: checked_add_usize_def)
  ultimately show ?thesis
    using sub i assms(2) by (simp add: push_cstr_def Let_def)
qed

text \<open>Pushing all of them.\<close>

lemma push_strs_done:
  assumes "push_strs base sp ss mem = Done (sp', ptrs) mem'" "length mem < usize_bound" "base \<le> sp"
  shows "length ptrs = length ss" "kept_above base sp mem mem'" "base \<le> sp'"
    "unat sp' + (\<Sum>s\<leftarrow>ss. length s + 1) = unat sp"
    "\<forall>i < length ss. string_at base mem' (ptrs ! i) (ss ! i) \<and> sp' \<le> ptrs ! i \<and> ptrs ! i \<le> sp"
proof -
  have "length ptrs = length ss \<and> kept_above base sp mem mem' \<and> base \<le> sp' \<and>
    unat sp' + (\<Sum>s\<leftarrow>ss. length s + 1) = unat sp \<and>
    (\<forall>i < length ss. string_at base mem' (ptrs ! i) (ss ! i) \<and> sp' \<le> ptrs ! i \<and> ptrs ! i \<le> sp)"
    using assms
  proof (induction ss arbitrary: sp mem ptrs)
    case Nil
    then show ?case by (simp add: kept_above_refl)
  next
    case (Cons s ss)
    from Cons.prems(1) obtain p m1 where one: "push_cstr base sp s mem = Done p m1"
      by (cases "push_cstr base sp s mem") auto
    with Cons.prems(1) obtain ps where rest: "push_strs base p ss m1 = Done (sp', ps) mem'"
      and ptrs: "ptrs = p # ps"
      by (cases "push_strs base p ss m1") (auto split: prod.splits)
    note o = push_cstr_done [OF one Cons.prems(2)]
    have l1: "length m1 < usize_bound"
      using o(2) Cons.prems(2) by (simp add: kept_above_def)
    note IH = Cons.IH [OF rest l1 o(4)]
    have p_le: "p \<le> sp" using o(3) by (simp add: word_le_nat_alt)
    have "sp' \<le> p" using IH by (simp add: word_le_nat_alt)
    moreover have "string_at base mem' p s"
      using string_at_kept [OF o(1) _ o(4) order_refl] IH by blast
    moreover have "kept_above base sp mem mem'"
      using kept_above_trans [OF o(2) _ o(4) p_le] IH by blast
    ultimately show ?case
      using IH o(3) p_le unfolding ptrs by (auto simp: less_Suc_eq_0_disj dest: order_trans)
  qed
  then show "length ptrs = length ss" "kept_above base sp mem mem'" "base \<le> sp'"
    "unat sp' + (\<Sum>s\<leftarrow>ss. length s + 1) = unat sp"
    "\<forall>i < length ss. string_at base mem' (ptrs ! i) (ss ! i) \<and> sp' \<le> ptrs ! i \<and> ptrs ! i \<le> sp"
    by blast+
qed

lemma push_strs_room:
  assumes "unat base + (\<Sum>s\<leftarrow>ss. length s + 1) \<le> unat sp" "unat sp \<le> unat base + length mem"
    "length mem < usize_bound"
  shows "\<exists>r mem'. push_strs base sp ss mem = Done r mem'"
  using assms
proof (induction ss arbitrary: sp mem)
  case Nil
  then show ?case by simp
next
  case (Cons s ss)
  have "unat base + length s + 1 \<le> unat sp" using Cons.prems(1) by simp
  then obtain p m1 where one: "push_cstr base sp s mem = Done p m1"
    using push_cstr_room Cons.prems(2,3) by blast
  note o = push_cstr_done [OF one Cons.prems(3)]
  have l1: "length m1 = length mem" using o(2) by (simp add: kept_above_def)
  have "\<exists>r mem'. push_strs base p ss m1 = Done r mem'"
    using Cons.prems o(3) l1 by (intro Cons.IH) auto
  then show ?case using one by (auto split: prod.splits)
qed

section \<open>The words\<close>

lemma write_words_iff:
  assumes "unat sp + 8 * (i + length ws) \<le> usize_bound"
  shows "write_words base sp i ws mem = Done () mem' \<longleftrightarrow>
    guest.wr_list base mem (sp + of_nat i * 8) ws = Inr mem'"
  using assms
proof (induction ws arbitrary: i mem)
  case Nil
  then show ?case by simp
next
  case (Cons v ws)
  have "i < usize_bound" using Cons.prems by simp
  then have "unat (of_nat i * 8 :: u64) = i * 8"
    using Cons.prems by (simp add: unat_word_ariths)
  then have a: "checked_add_u64 sp (of_nat i * 8) = Some (sp + of_nat i * 8)"
    using Cons.prems by (simp add: checked_add_u64_def)
  show ?case
  proof (cases "write_u64 base mem (sp + of_nat i * 8) v")
    case (Inl e)
    with a show ?thesis by simp
  next
    case (Inr m1)
    with a Cons.IH [of "Suc i" m1] Cons.prems show ?thesis
      by (simp add: algebra_simps)
  qed
qed

lemma wr_list_kept:
  "guest.wr_list base mem a ws = Inr mem' \<Longrightarrow> unat a + 8 * length ws < usize_bound \<Longrightarrow>
   base \<le> a \<Longrightarrow> a + of_nat (8 * length ws) \<le> q \<Longrightarrow> kept_above base q mem mem'"
proof (induction ws arbitrary: mem a)
  case Nil
  then show ?case by (simp add: kept_above_refl)
next
  case (Cons v ws)
  then obtain m1 where m1: "write_u64 base mem a v = Inr m1"
    "guest.wr_list base m1 (a + 8) ws = Inr mem'" by (auto simp: try_res_Inr_iff)
  have a8: "unat (a + 8) = unat a + 8" using Cons.prems(2) by (simp add: unat_word_ariths)
  have tos: "unat (a + of_nat (8 * length (v # ws))) = unat a + 8 * length (v # ws)"
  proof -
    have "unat (of_nat (8 * length (v # ws)) :: u64) = 8 * length (v # ws)"
      using Cons.prems(2) by (intro unat_of_nat_u64) linarith
    then show ?thesis
      using Cons.prems(2) by (simp only: unat_word_ariths) simp
  qed
  have q: "unat a + 8 * length (v # ws) \<le> unat q"
    using Cons.prems(4) unfolding word_le_nat_alt tos .
  have rest: "kept_above base q m1 mem'"
  proof (rule Cons.IH [OF m1(2)])
    show "unat (a + 8) + 8 * length ws < usize_bound" using Cons.prems(2) a8 by simp
    show "base \<le> a + 8" using Cons.prems(3) a8 by (simp add: word_le_nat_alt)
    have "a + 8 + of_nat (8 * length ws) = a + of_nat (8 * length (v # ws))" by simp
    then show "a + 8 + of_nat (8 * length ws) \<le> q" using Cons.prems(4) by (simp add: add.assoc)
  qed
  from m1(1) obtain i where i: "i = unat (a - base)" "i + 8 \<le> length mem"
    "m1 = put_slice mem i (to_le 8 v)"
    by (auto simp: write_u64_Inr span_index_iff)
  have "i + 8 \<le> unat (q - base)"
  proof -
    have "base \<le> q" using q Cons.prems(3) by (simp add: word_le_nat_alt)
    then show ?thesis
      using q Cons.prems(3) unfolding i(1)
      by (simp add: unat_diff_base word_le_nat_alt)
  qed
  with i have "kept_above base q mem m1" by (auto simp: kept_above_def nth_put_slice)
  with rest show ?case by (auto simp: kept_above_def)
qed

lemma wr_list_room:
  assumes "base \<le> a" "unat a + 8 * length ws \<le> unat base + length mem"
    "unat a + 8 * length ws < usize_bound" "length mem < usize_bound"
  shows "\<exists>mem'. guest.wr_list base mem a ws = Inr mem'"
  using assms
proof (induction ws arbitrary: mem a)
  case Nil
  then show ?case by simp
next
  case (Cons v ws)
  have "span_index base mem a 8 = Inr (unat (a - base))"
  proof -
    obtain d where d: "unat a = unat base + d"
      using Cons.prems(1) unfolding word_le_nat_alt by (rule le_Suc_ex [THEN exE])
    with unat_diff_base [OF Cons.prems(1)] have "unat (a - base) = d" by simp
    with Cons.prems d show ?thesis unfolding span_index_iff by simp
  qed
  then have w: "write_u64 base mem a v = Inr (put_slice mem (unat (a - base)) (to_le 8 v))"
    by (simp add: write_u64_def)
  have l: "length (put_slice mem (unat (a - base)) (to_le 8 v)) = length mem"
    by (rule length_write_u64 [OF w])
  have a8: "unat (a + 8) = unat a + 8" using Cons.prems(3) by (simp add: unat_word_ariths)
  have "\<exists>mem'. guest.wr_list base (put_slice mem (unat (a - base)) (to_le 8 v)) (a + 8) ws = Inr mem'"
    using Cons.prems by (intro Cons.IH) (simp_all only: a8 l word_le_nat_alt, auto)
  with w show ?case by simp
qed

section \<open>The whole stack\<close>

lemma align16: "unat (w AND NOT 0xF :: u64) = unat w div 16 * 16"
proof -
  have "(0xF :: u64) = mask 4" by (simp add: mask_eq_exp_minus_1)
  then have "unat (w AND NOT 0xF) = unat (w AND NOT (mask 4))" by (simp only:)
  also have "\<dots> = unat w div 2 ^ 4 * 2 ^ 4" by (rule unat_align) simp
  finally show ?thesis by simp
qed

lemma align16_bounds:
  "unat (w AND NOT 0xF :: u64) \<le> unat w" "unat w < unat (w AND NOT 0xF) + 16"
proof -
  have "unat w div 16 * 16 + unat w mod 16 = unat w" "unat w mod 16 < 16" by simp_all
  then show "unat (w AND NOT 0xF :: u64) \<le> unat w" "unat w < unat (w AND NOT 0xF) + 16"
    unfolding align16 by linarith+
qed

lemma align16_ge: "unat base + 16 \<le> unat w \<Longrightarrow> base \<le> w AND NOT 0xF" for base w :: u64
proof -
  assume "unat base + 16 \<le> unat w"
  also note align16_bounds(2) [of w]
  finally show ?thesis unfolding word_le_nat_alt by (simp only: add_less_cancel_right less_imp_le)
qed

lemma rev_pointwise:
  assumes "\<forall>i < length ss. P (ps ! i) (rev ss ! i)" "length ps = length ss"
  shows "\<forall>i < length ss. P (rev ps ! i) (ss ! i)"
proof -
  have "list_all2 P ps (rev ss)" using assms by (simp add: list_all2_conv_all_nth)
  then have "list_all2 P (rev ps) ss" using list_all2_rev [of P "rev ps" ss] by simp
  then show ?thesis by (simp add: list_all2_conv_all_nth)
qed

lemma length_stack_words: "length (stack_words aps eps) = length aps + length eps + 7"
  by (simp add: stack_words_def)

text \<open>
  What is in memory afterwards: the words from the stack pointer on, and behind them the
  strings that the pointers name.
\<close>

definition stack_image ::
  "u64 \<Rightarrow> bytes \<Rightarrow> u64 \<Rightarrow> u64 list \<Rightarrow> u64 list \<Rightarrow> bytes list \<Rightarrow> bytes list \<Rightarrow> bool" where
  "stack_image base mem sp aps eps argv envp \<longleftrightarrow>
     length aps = length argv \<and> length eps = length envp \<and>
     (\<forall>i < length (stack_words aps eps).
        read_u64 base mem (sp + of_nat i * 8) = Inr (stack_words aps eps ! i)) \<and>
     (\<forall>i < length argv. string_at base mem (aps ! i) (argv ! i)) \<and>
     (\<forall>i < length envp. string_at base mem (eps ! i) (envp ! i))"

lemma le_sum_list_Suc: "length ss \<le> (\<Sum>s\<leftarrow>ss. length s + 1)"
  by (induction ss) auto

text \<open>The three parts of a run that succeeds: the arguments, the environment, the words.\<close>

lemma build_stack_stages:
  assumes "build_initial_stack base tos argv envp mem = Done sp mem'"
    "length mem < u32_bound" "unat base + 16 \<le> unat tos" "unat tos \<le> unat base + length mem"
  obtains sp1 ptrs1 m1 sp2 ptrs2 m2 where
    "push_strs base (tos AND NOT 0xF) (rev argv) mem = Done (sp1, ptrs1) m1"
    "push_strs base sp1 (rev envp) m1 = Done (sp2, ptrs2) m2"
    "guest.wr_list base m2 sp (stack_words (rev ptrs1) (rev ptrs2)) = Inr mem'"
    "unat sp + 8 * length (stack_words (rev ptrs1) (rev ptrs2)) = unat (sp2 AND NOT 0xF)"
    "length m1 = length mem" "length m2 = length mem" "base \<le> tos AND NOT 0xF" "base \<le> sp1" "base \<le> sp"
proof -
  let ?sp0 = "tos AND NOT 0xF"
  have b0: "base \<le> ?sp0" by (rule align16_ge [OF assms(3)])
  have m0: "length mem < usize_bound" using assms(2) by linarith
  from assms(1) obtain sp1 ptrs1 m1 where args: "push_strs base ?sp0 (rev argv) mem = Done (sp1, ptrs1) m1"
    by (cases "push_strs base ?sp0 (rev argv) mem") (auto simp: build_initial_stack_def Let_def)
  note a = push_strs_done [OF args m0 b0]
  have l1: "length m1 = length mem" using a(2) by (simp add: kept_above_def)
  from assms(1) args obtain sp2 ptrs2 m2 where envs: "push_strs base sp1 (rev envp) m1 = Done (sp2, ptrs2) m2"
    by (cases "push_strs base sp1 (rev envp) m1") (auto simp: build_initial_stack_def Let_def)
  have m1: "length m1 < usize_bound" using l1 m0 by simp
  note e = push_strs_done [OF envs m1 a(3)]
  have l2: "length m2 = length mem" using e(2) l1 by (simp add: kept_above_def)
  define ws where "ws = stack_words (rev ptrs1) (rev ptrs2)"
  let ?sp3 = "sp2 AND NOT 0xF"
  have run: "with_res m2 (ok_or AddressOutOfRange (checked_sub_u64 ?sp3 (of_nat (length ws * 8))))
      (\<lambda>sp. and_then (write_words base sp 0 ws m2) (\<lambda>_ mem. Done sp mem)) = Done sp mem'"
    using assms(1) args envs by (simp add: build_initial_stack_def Let_def flip: ws_def)
  then have sub: "checked_sub_u64 ?sp3 (of_nat (length ws * 8)) = Some sp"
    by (cases "checked_sub_u64 ?sp3 (of_nat (length ws * 8))"; cases "write_words base (the (checked_sub_u64 ?sp3 (of_nat (length ws * 8)))) 0 ws m2") auto
  with run have wr: "write_words base sp 0 ws m2 = Done () mem'"
    by (cases "write_words base sp 0 ws m2") auto
  have "length argv \<le> unat ?sp0 - unat sp1" "length envp \<le> unat sp1 - unat sp2"
    using a(4) e(4) le_sum_list_Suc [of "rev argv"] le_sum_list_Suc [of "rev envp"]
    by (simp_all del: upt_Suc)
  moreover have "unat base \<le> unat sp2" using e(3) by (simp add: word_le_nat_alt)
  moreover have "unat sp1 \<le> unat ?sp0" "unat sp2 \<le> unat sp1" using a(4) e(4) by linarith+
  ultimately have "length argv + length envp \<le> length mem"
    using assms(4) align16_bounds(1) [of tos] by linarith
  then have "length ws * 8 < usize_bound"
    using a(1) e(1) assms(2) by (simp add: ws_def length_stack_words)
  then have n: "unat (of_nat (length ws * 8) :: u64) = length ws * 8" by (rule unat_of_nat_u64)
  have sp: "unat sp + 8 * length ws = unat ?sp3"
    using sub n unfolding checked_sub_Some
    by (auto simp: unat_sub word_le_nat_alt simp del: of_nat_mult)
  have wrl: "guest.wr_list base m2 sp ws = Inr mem'"
  proof -
    have "unat sp + 8 * (0 + length ws) \<le> usize_bound"
      unfolding add_0 sp by (rule less_imp_le [OF unat_u64_bound])
    from write_words_iff [OF this, of base m2 mem'] wr show ?thesis by simp
  qed
  have "ws \<noteq> []" by (simp add: ws_def stack_words_def)
  then have "base \<le> sp"
    using wrl by (cases ws) (auto simp: try_res_Inr_iff write_u64_Inr span_index_iff)
  with args envs wrl sp l1 l2 b0 a(3) show thesis unfolding ws_def by (rule that)
qed

text \<open>The words end below the strings: writing them keeps these.\<close>

lemma words_kept:
  assumes "guest.wr_list base m sp ws = Inr mem'" "unat sp + 8 * length ws = unat (sp2 AND NOT 0xF)" "base \<le> sp"
  shows "kept_above base sp2 m mem'" "unat sp + 8 * length ws \<le> unat sp2" "unat sp + 8 * length ws < usize_bound"
    "8 dvd unat sp"
proof -
  show sp2: "unat sp + 8 * length ws \<le> unat sp2" unfolding assms(2) by (rule align16_bounds(1))
  then show bound: "unat sp + 8 * length ws < usize_bound" using unat_u64_bound [of sp2] by linarith
  have "unat (of_nat (8 * length ws) :: u64) = 8 * length ws" using bound by (intro unat_of_nat_u64) linarith
  then have "unat (sp + of_nat (8 * length ws)) = unat sp + 8 * length ws"
    using bound by (simp only: unat_word_ariths) simp
  then have "sp + of_nat (8 * length ws) \<le> sp2" using sp2 unfolding word_le_nat_alt by (simp only:)
  then show "kept_above base sp2 m mem'" by (rule wr_list_kept [OF assms(1) bound assms(3)])
  have "8 dvd unat (sp2 AND NOT 0xF)" unfolding align16 by (rule dvd_mult) simp
  then have "8 dvd unat sp + 8 * length ws" using assms(2) by simp
  then show "8 dvd unat sp" by (simp add: dvd_add_left_iff)
qed

lemma build_stack_done:
  assumes "build_initial_stack base tos argv envp mem = Done sp mem'"
    "length mem < u32_bound" "unat base + 16 \<le> unat tos" "unat tos \<le> unat base + length mem"
  shows "\<exists>aps eps. stack_image base mem' sp aps eps argv envp \<and> base \<le> sp \<and>
    unat sp + 8 * length (stack_words aps eps) \<le> unat tos \<and> 8 dvd unat sp \<and>
    (\<forall>p \<in> set aps \<union> set eps. sp < p) \<and> length mem' = length mem"
proof -
  from build_stack_stages [OF assms] obtain sp1 ptrs1 m1 sp2 ptrs2 m2 where
    args: "push_strs base (tos AND NOT 0xF) (rev argv) mem = Done (sp1, ptrs1) m1"
    and envs: "push_strs base sp1 (rev envp) m1 = Done (sp2, ptrs2) m2"
    and wrl: "guest.wr_list base m2 sp (stack_words (rev ptrs1) (rev ptrs2)) = Inr mem'"
    and sp: "unat sp + 8 * length (stack_words (rev ptrs1) (rev ptrs2)) = unat (sp2 AND NOT 0xF)"
    and l1: "length m1 = length mem" and l2: "length m2 = length mem"
    and b0: "base \<le> tos AND NOT 0xF" and b1: "base \<le> sp1" and sp_base: "base \<le> sp" .
  let ?sp3 = "sp2 AND NOT 0xF"
  have m0: "length mem < usize_bound" using assms(2) by linarith
  note a = push_strs_done [OF args m0 b0]
  note e = push_strs_done [OF envs _ b1]
  define aps where "aps = rev ptrs1"
  define eps where "eps = rev ptrs2"
  define ws where "ws = stack_words aps eps"
  note wrl = wrl [folded aps_def eps_def, folded ws_def] and sp = sp [folded aps_def eps_def, folded ws_def]
  note w = words_kept [OF wrl sp sp_base]
  have "ws \<noteq> []" by (simp add: ws_def stack_words_def)
  have e': "length ptrs2 = length envp" "kept_above base sp1 m1 m2" "base \<le> sp2" "sp2 \<le> sp1"
    "\<forall>i < length envp. string_at base m2 (ptrs2 ! i) (rev envp ! i) \<and> sp2 \<le> ptrs2 ! i"
    using e l1 m0 by (simp_all add: word_le_nat_alt)
  have a': "length ptrs1 = length argv"
    "\<forall>i < length argv. string_at base m1 (ptrs1 ! i) (rev argv ! i) \<and> sp1 \<le> ptrs1 ! i"
    using a by simp_all
  have strs2: "string_at base mem' p s" if "string_at base m2 p s" "sp2 \<le> p" for p s
    using string_at_kept [OF that(1) w(1) e'(3) that(2)] .
  have strs1: "string_at base mem' p s" if "string_at base m1 p s" "sp1 \<le> p" for p s
    using string_at_kept [OF that(1) e'(2) a(3) that(2)] e'(4) that(2) by (intro strs2) auto
  have "stack_image base mem' sp aps eps argv envp"
    unfolding stack_image_def
  proof (intro conjI allI impI)
    show "length aps = length argv" "length eps = length envp"
      using a'(1) e'(1) by (simp_all add: aps_def eps_def)
    show "read_u64 base mem' (sp + of_nat i * 8) = Inr (stack_words aps eps ! i)"
      if "i < length (stack_words aps eps)" for i
      using guest.rd_wr_list [OF wrl, of i] w(3) that by (simp add: ws_def)
    show "string_at base mem' (aps ! i) (argv ! i)" if "i < length argv" for i
      using rev_pointwise [of argv "string_at base mem'" ptrs1] a' that strs1 unfolding aps_def
      by blast
    show "string_at base mem' (eps ! i) (envp ! i)" if "i < length envp" for i
      using rev_pointwise [of envp "string_at base mem'" ptrs2] e' that strs2 unfolding eps_def
      by blast
  qed
  moreover have "unat sp + 8 * length ws \<le> unat tos"
    using w(2) a(4) e(4) l1 m0 align16_bounds(1) [of tos] by linarith
  moreover note w(4)
  moreover have "\<forall>p \<in> set aps \<union> set eps. sp < p"
  proof
    fix p assume "p \<in> set aps \<union> set eps"
    then have "sp2 \<le> p" using a' e' unfolding aps_def eps_def by (fastforce simp: in_set_conv_nth)
    moreover have "sp < sp2"
      using w(2) \<open>ws \<noteq> []\<close> by (cases ws) (auto simp: word_less_nat_alt)
    ultimately show "sp < p" by simp
  qed
  moreover have "length mem' = length mem" using w(1) l2 by (simp add: kept_above_def)
  ultimately show ?thesis using sp_base unfolding ws_def by blast
qed

text \<open>It succeeds when the strings, the words and the padding fit.\<close>

definition stack_room :: "bytes list \<Rightarrow> bytes list \<Rightarrow> nat" where
  "stack_room argv envp =
     (\<Sum>s\<leftarrow>argv. length s + 1) + (\<Sum>s\<leftarrow>envp. length s + 1) + 8 * (length argv + length envp + 7) + 32"

lemma room_arith:
  "b + A + E + 8 * l + 32 \<le> t \<Longrightarrow> t < s0 + 16 \<Longrightarrow> s1 + A = s0 \<Longrightarrow> s2 + E = s1 \<Longrightarrow>
   s2 < s3 + 16 \<Longrightarrow> b + 8 * l \<le> s3" for b A E l t s0 s1 s2 s3 :: nat
  by linarith

lemma build_stack_room:
  assumes "unat base + stack_room argv envp \<le> unat tos" "unat tos \<le> unat base + length mem"
    "length mem < u32_bound"
  shows "\<exists>sp mem'. build_initial_stack base tos argv envp mem = Done sp mem'"
proof -
  let ?sp0 = "tos AND NOT 0xF"
  let ?A = "\<Sum>s\<leftarrow>rev argv. length s + 1" and ?E = "\<Sum>s\<leftarrow>rev envp. length s + 1"
  have room: "unat base + ?A + ?E + 8 * (length argv + length envp + 7) + 32 \<le> unat tos"
    using assms(1) by (simp add: stack_room_def sum_list_rev flip: rev_map)
  have lo: "unat tos < unat ?sp0 + 16" "unat ?sp0 \<le> unat tos" by (rule align16_bounds)+
  have m0: "length mem < usize_bound" using assms(3) by linarith
  have b0: "base \<le> ?sp0" using room by (intro align16_ge) linarith
  obtain sp1 ptrs1 m1 where args: "push_strs base ?sp0 (rev argv) mem = Done (sp1, ptrs1) m1"
    using push_strs_room [of base "rev argv" ?sp0 mem] room lo assms(2) m0 by fastforce
  note a = push_strs_done [OF args m0 b0]
  have l1: "length m1 = length mem" using a(2) by (simp add: kept_above_def)
  obtain sp2 ptrs2 m2 where envs: "push_strs base sp1 (rev envp) m1 = Done (sp2, ptrs2) m2"
    using push_strs_room [of base "rev envp" sp1 m1] room lo a(4) assms(2) m0 l1 by fastforce
  have m1: "length m1 < usize_bound" using l1 m0 by simp
  note e = push_strs_done [OF envs m1 a(3)]
  have l2: "length m2 = length mem" using e(2) l1 by (simp add: kept_above_def)
  define ws where "ws = stack_words (rev ptrs1) (rev ptrs2)"
  have lw: "length ws = length argv + length envp + 7"
    using a(1) e(1) by (simp add: ws_def length_stack_words)
  let ?sp3 = "sp2 AND NOT 0xF"
  have lo3: "unat sp2 < unat ?sp3 + 16" "unat ?sp3 \<le> unat sp2" by (rule align16_bounds)+
  have fit: "unat base + 8 * length ws \<le> unat ?sp3"
    unfolding lw by (rule room_arith [OF room lo(1) a(4) e(4) lo3(1)])
  have n: "unat (of_nat (length ws * 8) :: u64) = length ws * 8"
    using fit unat_u64_bound [of ?sp3] by (intro unat_of_nat_u64) linarith
  define sp where "sp = ?sp3 - of_nat (length ws * 8)"
  have sub: "checked_sub_u64 ?sp3 (of_nat (length ws * 8)) = Some sp"
    unfolding checked_sub_Some n sp_def using fit by (intro conjI refl) linarith
  have sp: "unat sp + 8 * length ws = unat ?sp3"
    using sub n unfolding checked_sub_Some
    by (auto simp: unat_sub word_le_nat_alt simp del: of_nat_mult)
  have top_ok: "unat ?sp3 \<le> unat base + length m2"
    using lo3 lo a(4) e(4) assms(2) l2 by linarith
  obtain mem' where wrl: "guest.wr_list base m2 sp ws = Inr mem'"
    using wr_list_room [of base sp ws m2] sp fit top_ok m0 l2 unat_u64_bound [of ?sp3]
    by (auto simp: word_le_nat_alt)
  have "write_words base sp 0 ws m2 = Done () mem'"
  proof -
    have "unat sp + 8 * length ws \<le> usize_bound"
      unfolding sp by (rule less_imp_le [OF unat_u64_bound])
    then show ?thesis using wrl write_words_iff [of sp 0 ws base m2 mem'] by simp
  qed
  then show ?thesis
    using args envs sub by (simp add: build_initial_stack_def Let_def flip: ws_def)
qed

section \<open>What it leaves alone\<close>

text \<open>Every write is at or above the final stack pointer: the bytes below are kept.\<close>

lemma take_put_slice: "k \<le> i \<Longrightarrow> i \<le> length m \<Longrightarrow> take k (put_slice m i bs) = take k m"
  by (simp add: put_slice_def)

lemma push_cstr_below:
  assumes "push_cstr base sp s mem = Done p mem'" "unat base + k \<le> unat p"
  shows "take k mem' = take k mem"
proof -
  let ?len = "length s + 1"
  from assms(1) obtain i where idx: "va_to_index base mem p = Inr i" and fit: "i + ?len \<le> length mem"
    and mem': "mem' = (put_slice mem i s)[i + length s := 0]"
    by (cases "checked_sub_u64 sp (of_nat ?len)"; cases "va_to_index base mem (the (checked_sub_u64 sp (of_nat ?len)))")
      (auto simp: push_cstr_def Let_def checked_add_usize_def split: if_splits)
  from idx have "base \<le> p" "i = unat (p - base)" by (simp_all add: va_to_index_iff)
  with assms(2) have "k \<le> i" by (simp add: unat_diff_base)
  with fit mem' show ?thesis by (simp add: take_put_slice)
qed

lemma push_strs_below:
  "push_strs base sp ss mem = Done (sp', ptrs) mem' \<Longrightarrow> length mem < usize_bound \<Longrightarrow> base \<le> sp \<Longrightarrow>
     unat base + k \<le> unat sp' \<Longrightarrow> take k mem' = take k mem"
proof (induction ss arbitrary: sp mem ptrs)
  case (Cons s ss)
  from Cons.prems(1) obtain p m1 where one: "push_cstr base sp s mem = Done p m1"
    by (cases "push_cstr base sp s mem") auto
  with Cons.prems(1) obtain ps where rest: "push_strs base p ss m1 = Done (sp', ps) mem'"
    by (cases "push_strs base p ss m1") (auto split: prod.splits)
  note o = push_cstr_done [OF one Cons.prems(2)]
  have l1: "length m1 < usize_bound" using o(2) Cons.prems(2) by (simp add: kept_above_def)
  have "unat sp' \<le> unat p" using push_strs_done(4) [OF rest l1 o(4)] by linarith
  then have "take k m1 = take k mem" using Cons.prems(4) by (intro push_cstr_below [OF one]) linarith
  with Cons.IH [OF rest l1 o(4) Cons.prems(4)] show ?case by simp
qed simp

lemma words_below:
  "guest.wr_list base mem a ws = Inr mem' \<Longrightarrow> unat a + 8 * length ws < usize_bound \<Longrightarrow>
     unat base + k \<le> unat a \<Longrightarrow> take k mem' = take k mem"
proof (induction ws arbitrary: mem a)
  case (Cons v ws)
  then obtain m1 where m1: "write_u64 base mem a v = Inr m1"
    "guest.wr_list base m1 (a + 8) ws = Inr mem'" by (auto simp: try_res_Inr_iff)
  have a8: "unat (a + 8) = unat a + 8" using Cons.prems(2) by (simp add: unat_word_ariths)
  from m1(1) have "k \<le> unat (a - base)" "unat (a - base) + 8 \<le> length mem"
    "m1 = put_slice mem (unat (a - base)) (to_le 8 v)"
    using Cons.prems(3) by (auto simp: write_u64_Inr span_index_iff unat_diff_base)
  then have "take k m1 = take k mem" by (simp add: take_put_slice)
  with Cons.IH [OF m1(2)] Cons.prems(2,3) a8 show ?case by simp
qed simp

text \<open>With room for it above \<open>k\<close> bytes, the stack is built and these bytes are kept.\<close>

lemma build_stack_above:
  assumes "unat base + k + stack_room argv envp \<le> unat tos" "unat tos \<le> unat base + length mem"
    "length mem < u32_bound"
  shows "\<exists>sp mem'. build_initial_stack base tos argv envp mem = Done sp mem' \<and>
    take k mem' = take k mem \<and> length mem' = length mem"
proof -
  obtain sp mem' where b: "build_initial_stack base tos argv envp mem = Done sp mem'"
    using build_stack_room [of base argv envp tos mem] assms by fastforce
  have room: "unat base + 16 \<le> unat tos" using assms(1) by (simp add: stack_room_def)
  from build_stack_stages [OF b assms(3) room assms(2)] obtain sp1 ps1 m1 sp2 ps2 m2 where
    args: "push_strs base (tos AND NOT 0xF) (rev argv) mem = Done (sp1, ps1) m1"
    and envs: "push_strs base sp1 (rev envp) m1 = Done (sp2, ps2) m2"
    and wrl: "guest.wr_list base m2 sp (stack_words (rev ps1) (rev ps2)) = Inr mem'"
    and sp: "unat sp + 8 * length (stack_words (rev ps1) (rev ps2)) = unat (sp2 AND NOT 0xF)"
    and l: "length m1 = length mem" "length m2 = length mem"
    and base: "base \<le> tos AND NOT 0xF" "base \<le> sp1" .
  have m0: "length mem < usize_bound" using assms(3) by linarith
  have m1: "length m1 < usize_bound" using m0 l by simp
  note a = push_strs_done [OF args m0 base(1)] and e = push_strs_done [OF envs m1 base(2)]
  have len: "length (stack_words (rev ps1) (rev ps2)) = length argv + length envp + 7"
    using a(1) e(1) by (simp add: length_stack_words)
  have sum: "(\<Sum>s\<leftarrow>rev argv. length s + 1) + (\<Sum>s\<leftarrow>rev envp. length s + 1) + 8 * (length argv + length envp + 7) + 32 =
      stack_room argv envp"
    by (simp add: stack_room_def sum_list_rev flip: rev_map)
  have lo: "unat base + k \<le> unat sp"
    using sum assms(1) a(4) e(4) sp [unfolded len] align16_bounds(2) [of tos] align16_bounds(2) [of sp2]
    by linarith
  have le: "unat sp \<le> unat sp2" "unat sp2 \<le> unat sp1"
    using sp align16_bounds(1) [of sp2] e(4) by linarith+
  have "take k mem' = take k m2"
    using sp unat_u64_bound [of "sp2 AND NOT 0xF"] by (intro words_below [OF wrl _ lo]) linarith
  also have "\<dots> = take k m1" using lo le by (intro push_strs_below [OF envs m1 base(2)]) linarith
  also have "\<dots> = take k mem" using lo le by (intro push_strs_below [OF args m0 base(1)]) linarith
  finally show ?thesis
    using b build_stack_done [OF b assms(3) room assms(2)] by blast
qed

section \<open>Reading it back\<close>

text \<open>Strings the kernel's reader accepts.\<close>

definition user_string :: "bytes \<Rightarrow> bool" where
  "user_string s \<longleftrightarrow> 0 \<notin> set s \<and> utf8_valid s \<and> length s < 4096"

lemma user_cstr_loop_at:
  assumes "string_at base mem p s" "0 \<notin> set s" "unat base + length mem \<le> usize_bound"
  shows "k \<le> length s \<Longrightarrow> length s - k < n \<Longrightarrow>
    user_cstr_loop base mem (p + of_nat k) (take k s) n = Inr (from_utf8 s)"
proof (induction n arbitrary: k)
  case 0
  then show ?case by simp
next
  case (Suc n)
  let ?i = "unat (p - base)"
  from assms(1) have b: "base \<le> p" and fit: "?i + length s + 1 \<le> length mem"
    and sl: "sub_slice ?i (length s + 1) mem = s @ [0]" by (auto simp: string_at_def)
  have d: "unat p = unat base + ?i" using unat_diff_base [OF b] b by (simp add: word_le_nat_alt)
  have "unat p + k < usize_bound" using d fit Suc.prems(1) assms(3) by linarith
  then have up: "unat (p + of_nat k) = unat p + k"
    by (simp add: unat_word_ariths)
  have bk: "base \<le> p + of_nat k" using up d by (simp add: word_le_nat_alt)
  have ik: "unat (p + of_nat k - base) = ?i + k" using unat_diff_base [OF bk] up d by simp
  have "mem ! (?i + k) = (s @ [0]) ! k"
    unfolding sl [symmetric] using fit Suc.prems(1) by (simp add: nth_sub_slice)
  moreover have "?i + k < length mem" using fit Suc.prems(1) by simp
  ultimately have rd: "read_u8 base mem (p + of_nat k) = Inr ((s @ [0]) ! k)"
    using bk ik by (simp add: read_u8_def va_to_index_def)
  show ?case
  proof (cases "k = length s")
    case True
    then show ?thesis using rd by simp
  next
    case False
    then have k: "k < length s" using Suc.prems(1) by simp
    then have "s ! k \<noteq> 0" using assms(2) by (metis nth_mem)
    moreover have "take k s @ [s ! k] = take (Suc k) s" using k by (simp add: take_Suc_conv_app_nth)
    moreover have "user_cstr_loop base mem (p + of_nat k + 1) (take (Suc k) s) n = Inr (from_utf8 s)"
    proof -
      have "p + of_nat (Suc k) = p + of_nat k + 1" by simp
      then show ?thesis using Suc.IH [of "Suc k"] k Suc.prems(2) by (simp add: add.assoc add.commute [of 1])
    qed
    ultimately show ?thesis using rd k by (simp add: nth_append)
  qed
qed

lemma read_user_cstr_at:
  assumes "string_at base mem p s" "user_string s" "unat base + length mem \<le> usize_bound" "p \<noteq> 0"
  shows "read_user_cstr base mem p = Inr (Some s)"
  using user_cstr_loop_at [OF assms(1) _ assms(3), of 0 4096] assms(2,4)
  by (simp add: read_user_cstr_def user_string_def from_utf8_def)

lemma read_strs_at:
  "length ps = length ss \<Longrightarrow> \<forall>i < length ss. string_at base mem (ps ! i) (ss ! i) \<and> ps ! i \<noteq> 0 \<Longrightarrow>
   list_all user_string ss \<Longrightarrow> unat base + length mem \<le> usize_bound \<Longrightarrow>
   read_strs base mem ps = Inr ss"
proof (induction ps arbitrary: ss)
  case Nil
  then show ?case by simp
next
  case (Cons p ps)
  then obtain s ss' where ss: "ss = s # ss'" by (cases ss) auto
  have "string_at base mem p s" "p \<noteq> 0" using Cons.prems(2) ss by auto
  moreover have "user_string s" using Cons.prems(3) ss by simp
  ultimately have "read_user_cstr base mem p = Inr (Some s)"
    using read_user_cstr_at Cons.prems(4) by blast
  moreover have "read_strs base mem ps = Inr ss'"
    using Cons.prems ss by (intro Cons.IH) auto
  ultimately show ?case by (simp add: ss)
qed

lemma ptr_array_loop_at:
  "\<forall>j < length (ps @ [0]). read_u64 base mem (va + of_nat (i + j) * 8) = Inr ((ps @ [0]) ! j) \<Longrightarrow>
   0 \<notin> set ps \<Longrightarrow> length ps \<le> n \<Longrightarrow> unat va + 8 * (i + n) < usize_bound \<Longrightarrow>
   ptr_array_loop base mem va i n s = Done ps s"
proof (induction n arbitrary: i ps)
  case 0
  then show ?case by simp
next
  case (Suc n)
  have "i < usize_bound" using Suc.prems(4) by simp
  then have "unat (of_nat i * 8 :: u64) = i * 8"
    using Suc.prems(4) by (simp add: unat_word_ariths)
  then have a: "checked_add_u64 va (of_nat i * 8) = Some (va + of_nat i * 8)"
    using Suc.prems(4) by (simp add: checked_add_u64_def)
  have rd: "read_u64 base mem (va + of_nat i * 8) = Inr ((ps @ [0]) ! 0)"
    using Suc.prems(1) by (metis add.right_neutral length_append_singleton zero_less_Suc)
  show ?case
  proof (cases ps)
    case Nil
    then show ?thesis using a rd by simp
  next
    case (Cons p ps')
    have "ptr_array_loop base mem va (Suc i) n s = Done ps' s"
    proof (rule Suc.IH)
      show "\<forall>j<length (ps' @ [0]). read_u64 base mem (va + of_nat (Suc i + j) * 8) = Inr ((ps' @ [0]) ! j)"
      proof (intro allI impI)
        fix j assume "j < length (ps' @ [0])"
        then have "Suc j < length (ps @ [0])" using Cons by simp
        with Suc.prems(1) have
          "read_u64 base mem (va + of_nat (i + Suc j) * 8) = Inr ((ps @ [0]) ! Suc j)" by blast
        then show "read_u64 base mem (va + of_nat (Suc i + j) * 8) = Inr ((ps' @ [0]) ! j)"
          using Cons by simp
      qed
    qed (use Suc.prems Cons in auto)
    then show ?thesis using a rd Cons Suc.prems(2) by simp
  qed
qed

text \<open>The array that starts \<open>off\<close> words above the stack pointer.\<close>

lemma stack_array:
  assumes rd: "\<forall>i < length ws. read_u64 base mem (sp + of_nat i * 8) = Inr (ws ! i)"
    and ws: "ws = pre @ ps @ [0] @ post" and n: "length ps \<le> n"
    and sp: "unat sp + 8 * (length pre + n) < usize_bound" and nz: "0 \<notin> set ps"
    and va: "va = sp + of_nat (length pre) * 8" "va \<noteq> 0"
  shows "read_user_ptr_array base mem va n s = Done ps s"
proof -
  have "unat (of_nat (length pre) * 8 :: u64) = length pre * 8"
    using sp by (simp add: unat_word_ariths)
  then have "unat va = unat sp + 8 * length pre"
    unfolding va(1) using sp by (simp add: unat_word_ariths)
  then have room: "unat va + 8 * (0 + n) < usize_bound" using sp by simp
  have "ptr_array_loop base mem va 0 n s = Done ps s"
  proof (rule ptr_array_loop_at [OF _ nz n room], intro allI impI)
    fix j assume j: "j < length (ps @ [0])"
    then have "length pre + j < length ws" by (simp add: ws)
    then have "read_u64 base mem (sp + of_nat (length pre + j) * 8) = Inr (ws ! (length pre + j))"
      using rd by blast
    moreover have "ws ! (length pre + j) = (ps @ [0]) ! j" using j by (simp add: ws nth_append)
    moreover have "va + of_nat (0 + j) * 8 = sp + of_nat (length pre + j) * 8"
      by (simp add: va(1) algebra_simps)
    ultimately show "read_u64 base mem (va + of_nat (0 + j) * 8) = Inr ((ps @ [0]) ! j)"
      by (simp only:)
  qed
  then show ?thesis using va(2) by (simp add: read_user_ptr_array_def)
qed

lemma stack_args:
  assumes img: "stack_image base mem sp aps eps argv envp"
    and sp: "unat sp + 8 * (length argv + 66) < usize_bound" "unat base + length mem \<le> usize_bound"
    and nz: "\<forall>p \<in> set aps \<union> set eps. sp < p"
    and strs: "list_all user_string argv" "list_all user_string envp"
    and n: "length argv \<le> 64" "length envp \<le> 64"
  shows "read_user_str_array base mem (sp + 8) 64 s = Done argv s"
    "read_user_str_array base mem (sp + of_nat (length argv + 2) * 8) 64 s = Done envp s"
proof -
  note img' = img [unfolded stack_image_def]
  have ptrs: "0 \<notin> set aps" "0 \<notin> set eps" using nz by (metis UnCI word_not_simps(1))+
  have "unat (of_nat (length argv + 2) * 8 :: u64) = (length argv + 2) * 8"
    using n(1) by (simp add: unat_word_ariths)
  then have va: "unat (sp + of_nat (length argv + 2) * 8) = unat sp + (length argv + 2) * 8"
    using sp(1) by (simp add: unat_word_ariths)
  have "unat (sp + 8) = unat sp + 8" using sp(1) by (simp add: unat_word_ariths)
  then have va8: "sp + 8 \<noteq> 0" by (metis add_is_0 unat_0 zero_neq_numeral)
  have "read_user_ptr_array base mem (sp + 8) 64 s = Done aps s"
    using stack_array [of "stack_words aps eps" base mem sp "[of_nat (length aps)]" aps
        "eps @ [0, AT_PAGESZ, 4096, AT_NULL, 0]" 64 "sp + 8" s] img' n(1) sp(1) ptrs(1) va8
    by (auto simp: stack_words_def)
  moreover have "read_strs base mem aps = Inr argv"
    using img' ptrs(1) strs(1) sp(2) by (intro read_strs_at) (auto simp: in_set_conv_nth)
  ultimately show "read_user_str_array base mem (sp + 8) 64 s = Done argv s"
    by (simp add: read_user_str_array_def)
  have "read_user_ptr_array base mem (sp + of_nat (length argv + 2) * 8) 64 s = Done eps s"
  proof (rule stack_array)
    show "\<forall>i < length (stack_words aps eps).
        read_u64 base mem (sp + of_nat i * 8) = Inr (stack_words aps eps ! i)" using img' by blast
    show "stack_words aps eps = ([of_nat (length aps)] @ aps @ [0]) @ eps @ [0] @
        [AT_PAGESZ, 4096, AT_NULL, 0]" by (simp add: stack_words_def)
    show "length eps \<le> 64" using img' n(2) by simp
    show "unat sp + 8 * (length ([of_nat (length aps)] @ aps @ [0]) + 64) < usize_bound"
      using img' sp(1) by simp
    show "0 \<notin> set eps" by (rule ptrs(2))
    show "sp + of_nat (length argv + 2) * 8 = sp + of_nat (length ([of_nat (length aps)] @ aps @ [0])) * 8"
      using img' by simp
    show "sp + of_nat (length argv + 2) * 8 \<noteq> 0"
      using va by (metis add_is_0 mult_is_0 numeral_eq_Suc old.nat.distinct(2) unat_0 zero_neq_numeral add_2_eq_Suc')
  qed
  moreover have "read_strs base mem eps = Inr envp"
    using img' ptrs(2) strs(2) sp(2) by (intro read_strs_at) (auto simp: in_set_conv_nth)
  ultimately show "read_user_str_array base mem (sp + of_nat (length argv + 2) * 8) 64 s = Done envp s"
    by (simp add: read_user_str_array_def)
qed

section \<open>Properties\<close>

text \<open>C9: the initial stack of a program, as the System V ABI prescribes it: from the stack
  pointer on, the argument count, one pointer per argument, a null word, one pointer per
  environment string, a null word, and the auxiliary vector with the page size; every
  pointer addresses its string, terminated, above the words; the stack pointer is 8-byte
  aligned.\<close>

theorem initial_stack_layout:
  assumes "build_initial_stack base tos argv envp mem = Done sp mem'"
    "length mem < 2 ^ 32" "unat base + 16 \<le> unat tos" "unat tos \<le> unat base + length mem"
  shows "\<exists>aps eps. length aps = length argv \<and> length eps = length envp \<and> 8 dvd unat sp \<and>
    (let ws = [of_nat (length argv)] @ aps @ [0] @ eps @ [0, 6, 4096, 0, 0]
     in (\<forall>i < length ws. read_u64 base mem' (sp + of_nat i * 8) = Inr (ws ! i)) \<and>
        (\<forall>p \<in> set aps \<union> set eps. sp < p)) \<and>
    (\<forall>i < length argv. string_at base mem' (aps ! i) (argv ! i)) \<and>
    (\<forall>i < length envp. string_at base mem' (eps ! i) (envp ! i))"
proof -
  have "length mem < u32_bound" using assms(2) by simp
  from build_stack_done [OF assms(1) this assms(3,4)] obtain aps eps
    where "stack_image base mem' sp aps eps argv envp" "8 dvd unat sp"
      "\<forall>p \<in> set aps \<union> set eps. sp < p" by blast
  then show ?thesis
    by (intro exI [of _ aps] exI [of _ eps])
      (simp add: stack_image_def stack_words_def interp_consts)
qed

theorem initial_stack_layout_witness:
  "\<exists>sp mem'. build_initial_stack 0x400000 0x4000F0 [str ''sh''] [] (replicate 256 0) = Done sp mem' \<and>
    (\<exists>aps eps. length aps = length [str ''sh''] \<and> length eps = length ([] :: bytes list) \<and>
    8 dvd unat sp \<and>
    (let ws = [of_nat (length [str ''sh''])] @ aps @ [0] @ eps @ [0, 6, 4096, 0, 0]
     in (\<forall>i < length ws. read_u64 0x400000 mem' (sp + of_nat i * 8) = Inr (ws ! i)) \<and>
        (\<forall>p \<in> set aps \<union> set eps. sp < p)) \<and>
    (\<forall>i < length [str ''sh'']. string_at 0x400000 mem' (aps ! i) ([str ''sh''] ! i)) \<and>
    (\<forall>i < length ([] :: bytes list). string_at 0x400000 mem' (eps ! i) ([] ! i)))"
proof -
  obtain sp mem' where b: "build_initial_stack 0x400000 0x4000F0 [str ''sh''] [] (replicate 256 0) = Done sp mem'"
    using build_stack_room [where base = "0x400000" and argv = "[str ''sh'']" and envp = "[]" and
        tos = "0x4000F0" and mem = "replicate 256 0"]
    by (auto simp: stack_room_def str_def)
  show ?thesis
    by (intro exI [of _ sp] exI [of _ mem'] conjI b, rule initial_stack_layout [OF b]) simp_all
qed

text \<open>C17: given room, the stack is built, and it can be read back: the reader that
  \<open>execve\<close> uses, pointed at the argument array and at the environment array of that stack,
  returns exactly the argument and environment strings (NUL-free UTF-8 shorter than 4096
  bytes, at most 64 of each).\<close>

theorem stack_strings_roundtrip:
  assumes "unat base + stack_room argv envp \<le> unat tos" "unat tos \<le> unat base + length mem"
    "length mem < 2 ^ 32" "unat base + length mem < 2 ^ 64 - 1024"
    "list_all user_string argv" "list_all user_string envp"
    "length argv \<le> 64" "length envp \<le> 64"
  shows "\<exists>sp mem'. build_initial_stack base tos argv envp mem = Done sp mem' \<and>
    read_u64 base mem' sp = Inr (of_nat (length argv)) \<and>
    read_user_str_array base mem' (sp + 8) 64 s = Done argv s \<and>
    read_user_str_array base mem' (sp + of_nat (length argv + 2) * 8) 64 s = Done envp s"
proof -
  have l: "length mem < u32_bound" using assms(3) by simp
  obtain sp mem' where b: "build_initial_stack base tos argv envp mem = Done sp mem'"
    using build_stack_room [OF assms(1,2) l] by blast
  have "unat base + 16 \<le> unat tos" using assms(1) by (simp add: stack_room_def)
  from build_stack_done [OF b l this assms(2)] obtain aps eps
    where img: "stack_image base mem' sp aps eps argv envp"
      and top: "unat sp + 8 * length (stack_words aps eps) \<le> unat tos"
      and nz: "\<forall>p \<in> set aps \<union> set eps. sp < p" and l': "length mem' = length mem" by blast
  have "length aps = length argv" "length eps = length envp"
    using img by (simp_all add: stack_image_def)
  then have s1: "unat sp + 8 * (length argv + 66) < usize_bound"
    using top assms(2,4) by (simp add: length_stack_words)
  have s2: "unat base + length mem' \<le> usize_bound" using l' assms(4) by simp
  note stack_args [OF img s1 s2 nz assms(5-8), of s]
  moreover have "read_u64 base mem' sp = Inr (of_nat (length argv))"
  proof -
    have "0 < length (stack_words aps eps)" by (simp add: stack_words_def)
    then have "read_u64 base mem' (sp + of_nat 0 * 8) = Inr (stack_words aps eps ! 0)"
      using img unfolding stack_image_def by blast
    then show ?thesis using \<open>length aps = length argv\<close> by (simp add: stack_words_def)
  qed
  ultimately show ?thesis using b by blast
qed

theorem stack_strings_roundtrip_witness:
  "\<exists>sp mem'. build_initial_stack 0x400000 0x4001F0 [str ''ls'', str ''-l''] [str ''A=1'']
      (replicate 512 0) = Done sp mem' \<and>
    read_u64 0x400000 mem' sp = Inr (of_nat (length [str ''ls'', str ''-l''])) \<and>
    read_user_str_array 0x400000 mem' (sp + 8) 64 () = Done [str ''ls'', str ''-l''] () \<and>
    read_user_str_array 0x400000 mem' (sp + of_nat (length [str ''ls'', str ''-l''] + 2) * 8) 64 () =
      Done [str ''A=1''] ()"
  by (rule stack_strings_roundtrip)
    (simp_all add: stack_room_def str_def user_string_def utf8_valid_ascii)

end
