(* ===== verification/Syscall_Laws.thy ===== *)
theory Syscall_Laws
  imports Syscall_Inv
begin

text \<open>
  The functional behaviour of the system calls: descriptors, reading and seeking, paths,
  directory listing, memory mapping, exit status.
\<close>

unbundle bit_operations_syntax

section \<open>Opening and reading files\<close>

lemma set_fd_same: "fd_inv k \<Longrightarrow> fd < 64 \<Longrightarrow> fd_table (set_fd fd e k) ! fd = e"
  by (simp add: set_fd_def fd_inv_def sys_consts)

lemma set_fd_other: "i \<noteq> fd \<Longrightarrow> fd_table (set_fd fd e k) ! i = fd_table k ! i"
  by (simp add: set_fd_def)

lemma set_fd_frame [simp]:
  "umem (set_fd fd e k) = umem k" "rootfs (set_fd fd e k) = rootfs k" "pid (set_fd fd e k) = pid k"
  by (simp_all add: set_fd_def)

lemma poke_frame [simp]:
  "fd_table (poke a bs k) = fd_table k" "rootfs (poke a bs k) = rootfs k"
  "umem (poke a bs k) = mem_write (umem k) a bs"
  by (simp_all add: poke_def)

text \<open>\<open>alloc_fd\<close> takes the lowest free slot from 3 on, and fails only when there is none.\<close>

lemma alloc_fd_lowest:
  assumes "fd_inv k" "3 \<le> i" "i < 64" "fd_table k ! i = Free"
    "\<forall>j. 3 \<le> j \<and> j < i \<longrightarrow> fd_table k ! j \<noteq> Free"
  shows "alloc_fd e k = (of_nat i, set_fd i e k)"
proof -
  have "free_slot (fd_table k) 3 61 = Some i" using assms by (simp add: free_slot_spec)
  then show ?thesis by (simp add: alloc_fd_def sys_consts)
qed

lemma alloc_fd_full:
  assumes "\<forall>j. 3 \<le> j \<and> j < 64 \<longrightarrow> fd_table k ! j \<noteq> Free"
  shows "alloc_fd e k = (- EBUSY, k)"
proof -
  have "free_slot (fd_table k) 3 61 = None"
  proof (rule ccontr)
    assume "free_slot (fd_table k) 3 61 \<noteq> None"
    then obtain j where "free_slot (fd_table k) 3 61 = Some j" by blast
    with assms show False by (auto simp: free_slot_spec)
  qed
  then show ?thesis by (simp add: alloc_fd_def sys_consts)
qed

text \<open>One \<open>read\<close> of an open file.\<close>

lemma read_file:
  fixes len :: u64
  assumes "buf \<noteq> 0" "unat fd < 64" "fd_table k ! unat fd = File d l pos m" "unat pos < l"
  defines "n \<equiv> min (unat len) (l - unat pos)"
  shows "sys_read fd buf len k =
    (of_nat n, set_fd (unat fd) (File d l (pos + of_nat n) m) (poke buf (sub_slice (unat pos) n d) k))"
  using assms by (simp add: sys_read_def sys_consts Let_def)

text \<open>
  A sequence of reads into given buffers: the bytes each one delivered, read back from the
  buffer right after the call.
\<close>

fun read_chunks :: "u64 \<Rightarrow> (u64 \<times> u64) list \<Rightarrow> kernel \<Rightarrow> bytes \<times> kernel" where
  "read_chunks fd [] k = ([], k)"
| "read_chunks fd ((buf, len) # cs) k =
     (let (n, k1) = sys_read fd buf len k;
          (bs, k2) = read_chunks fd cs k1
      in (mem_read (umem k1) buf (unat n) @ bs, k2))"

lemma read_chunks_Cons:
  "sys_read fd buf len k = (n, k1) \<Longrightarrow>
   fst (read_chunks fd ((buf, len) # cs) k) =
     mem_read (umem k1) buf (unat n) @ fst (read_chunks fd cs k1)"
  by (simp split: prod.splits)

text \<open>A prefix in two parts, the first of which ends at the end of the list at the latest.\<close>

lemma take_part:
  assumes "n = min a (length d - p)"
  shows "take (a + s) (drop p d) = sub_slice p n d @ take s (drop (p + n) d)"
proof (cases "a \<le> length d - p")
  case True
  then show ?thesis
    using assms take_add [of a s "drop p d"] by (simp add: sub_slice_def add.commute)
next
  case False
  then show ?thesis using assms by (simp add: sub_slice_def)
qed

lemma read_chunks_take:
  assumes "fd_inv k" "unat fd < 64" "fd_table k ! unat fd = File d l pos m"
    "\<forall>(buf, len) \<in> set cs. buf \<noteq> 0"
  shows "fst (read_chunks fd cs k) = take (\<Sum>c\<leftarrow>cs. unat (snd c)) (drop (unat pos) d)"
  using assms
proof (induction cs arbitrary: k pos)
  case Nil
  then show ?case by simp
next
  case (Cons c cs)
  obtain buf len where c: "c = (buf, len)" by fastforce
  have e: "entry_ok (rootfs k) (File d l pos m)"
    using fd_inv_entry [OF Cons.prems(1,2)] Cons.prems(3) by simp
  then have l: "l = length d" "l < u32_bound" by auto
  have buf: "buf \<noteq> 0" using Cons.prems(4) c by simp
  have inv1: "fd_inv (snd (sys_read fd buf len k))"
    by (rule fds.I_read [OF Cons.prems(1)])
  show ?case
  proof (cases "unat pos < l")
    case True
    define n where "n = min (unat len) (l - unat pos)"
    define k1 where "k1 = set_fd (unat fd) (File d l (pos + of_nat n) m)
      (poke buf (sub_slice (unat pos) n d) k)"
    have r: "sys_read fd buf len k = (of_nat n, k1)"
      using read_file [OF buf Cons.prems(2,3) True] by (simp add: n_def k1_def)
    have nb: "n < u32_bound" "unat pos + n \<le> length d" using l True by (auto simp: n_def)
    have pos': "unat (pos + of_nat n) = unat pos + n"
      using nb l by (simp add: unat_word_ariths unat_of_nat)
    have "mem_read (umem k1) buf n = sub_slice (unat pos) n d"
      using mem_read_write_same [of "sub_slice (unat pos) n d"] nb by (simp add: k1_def)
    moreover have "fst (read_chunks fd cs k1) =
        take (\<Sum>c\<leftarrow>cs. unat (snd c)) (drop (unat (pos + of_nat n)) d)"
    proof (rule Cons.IH)
      show "fd_inv k1" using inv1 r by simp
      show "fd_table k1 ! unat fd = File d l (pos + of_nat n) m"
        using Cons.prems(1,2)
        by (auto simp: k1_def set_fd_def poke_def fd_inv_def sys_consts)
    qed (use Cons.prems in auto)
    moreover have "take (unat len + s) (drop (unat pos) d) =
        sub_slice (unat pos) n d @ take s (drop (unat pos + n) d)" for s
      using take_part [of n "unat len" d "unat pos" s] l by (simp add: n_def)
    moreover have "unat (of_nat n :: u64) = n" using nb by simp
    ultimately show ?thesis
      unfolding c read_chunks_Cons [OF r] by (simp add: pos' comp_def)
  next
    case False
    then have r: "sys_read fd buf len k = (0, k)"
      using Cons.prems(2,3) buf by (simp add: sys_read_def sys_consts)
    moreover have "fst (read_chunks fd cs k) = take (\<Sum>c\<leftarrow>cs. unat (snd c)) (drop (unat pos) d)"
      using Cons by simp
    ultimately show ?thesis
      using False l unfolding c read_chunks_Cons [OF r] by (simp add: mem_read_def)
  qed
qed

section \<open>Paths\<close>

text \<open>A plain name: printable, without a slash, and not a name of the root directory.\<close>

definition plain_name :: "bytes \<Rightarrow> bool" where
  "plain_name s \<longleftrightarrow> graphic s \<and> \<not> contains_slash s \<and> s \<noteq> [] \<and> s \<noteq> str ''.'' \<and> s \<noteq> str ''..''"

lemma normalize_plain:
  assumes "graphic s" "\<not> contains_slash s"
  shows "normalize_path s = Some s"
proof -
  have "strip_prefix (str ''./'') s = None"
  proof -
    have "take 2 s \<noteq> str ''./''"
    proof
      assume "take 2 s = str ''./''"
      then have "slash \<in> set (take 2 s)" by (simp add: str_def)
      then have "slash \<in> set s" by (rule in_set_takeD)
      then show False using assms(2) by (simp add: contains_slash_def)
    qed
    then show ?thesis by (simp add: strip_prefix_def str_def numeral_2_eq_2)
  qed
  then show ?thesis
    using assms graphic_trim [OF assms(1)] no_slash_after_trim [OF assms(2)]
    by (simp add: normalize_path_def)
qed

lemma normalize_dot_slash:
  assumes "graphic s" "\<not> contains_slash s" "s \<noteq> []"
  shows "normalize_path (str ''./'' @ s) = Some s" "normalize_path (str ''/'' @ s) = Some s"
proof -
  have g: "graphic (str ''./'' @ s)" "graphic (str ''/'' @ s)"
    using assms(1) by (auto simp: graphic_def str_def)
  have "strip_prefix (str ''/'' @ s) (str ''./'') = None" by (simp add: strip_prefix_def str_def)
  show "normalize_path (str ''./'' @ s) = Some s"
    using assms no_slash_after_trim [OF assms(2)]
    by (simp add: normalize_path_def graphic_trim [OF g(1)])
      (simp add: strip_prefix_def str_def Let_def)
  have "trim_start_slashes (str ''/'' @ s) = s"
    using no_slash_after_trim [OF assms(2)] by (simp add: trim_start_slashes_def str_def)
  then show "normalize_path (str ''/'' @ s) = Some s"
    using assms by (simp add: normalize_path_def graphic_trim [OF g(2)])
      (simp add: strip_prefix_def str_def Let_def)
qed

text \<open>The result of \<open>normalize_path\<close> never has a slash.\<close>

lemma normalize_no_slash: "normalize_path p = Some s \<Longrightarrow> \<not> contains_slash s"
  by (auto simp: normalize_path_def Let_def contains_slash_def split: if_splits option.splits)

text \<open>Opening an existing file by a plain name.\<close>

lemma openat_plain:
  assumes "fd_inv k" "read_cstr (umem k) ptr = Some name" "ptr \<noteq> 0" "plain_name name"
    "rootfs k = Some img" "fs_open img name = Inr r" "flags AND O_DIRECTORY = 0"
  shows "sys_openat AT_FDCWD ptr flags mode k =
    alloc_fd (File (fr_data r) (length (fr_data r)) 0 (fr_mode r)) k"
proof -
  from assms(4) have "normalize_path name = Some name" "name \<noteq> []" "name \<noteq> str ''.''"
    "name \<noteq> str ''..''" "name \<noteq> str ''/''"
    by (auto simp: plain_name_def normalize_plain contains_slash_def str_def)
  with assms show ?thesis by (simp add: sys_openat_def is_dirfd_ok_def)
qed

text \<open>A C string in memory is read back by \<open>read_cstr\<close>.\<close>

lemma cstr_len_spec:
  assumes "\<forall>i. len \<le> i \<and> i < len + n \<longrightarrow> m (p + of_nat i) \<noteq> 0" "m (p + of_nat (len + n)) = 0"
    "n < fuel"
  shows "cstr_len m p len fuel = Some (len + n)"
  using assms
proof (induction fuel arbitrary: len n)
  case 0
  then show ?case by simp
next
  case (Suc fuel)
  show ?case
  proof (cases n)
    case 0
    with Suc.prems show ?thesis by simp
  next
    case (Suc n')
    have "m (p + of_nat len) \<noteq> 0" using Suc.prems(1) \<open>n = Suc n'\<close> by simp
    moreover have "cstr_len m p (Suc len) fuel = Some (Suc len + n')"
      using Suc.prems \<open>n = Suc n'\<close> by (intro Suc.IH) (auto simp del: of_nat_Suc)
    ultimately show ?thesis using Suc by simp
  qed
qed

lemma read_cstr_string:
  assumes "mem_read m p (Suc (length s)) = s @ [0]" "0 \<notin> set s" "length s < 256" "utf8_valid s"
  shows "read_cstr m p = Some s"
proof -
  have at: "m (p + of_nat i) = (s @ [0]) ! i" if "i \<le> length s" for i
  proof -
    have "mem_read m p (Suc (length s)) ! i = m (p + of_nat i)"
      using that by (simp add: mem_read_def del: upt_Suc)
    then show ?thesis using assms(1) by simp
  qed
  have "cstr_len m p 0 256 = Some (0 + length s)"
  proof (rule cstr_len_spec)
    show "\<forall>i. 0 \<le> i \<and> i < 0 + length s \<longrightarrow> m (p + of_nat i) \<noteq> 0"
      using assms(2) at by (auto simp: nth_append) (metis nth_mem)
    show "m (p + of_nat (0 + length s)) = 0" using at [of "length s"] by simp
  qed (use assms in simp)
  moreover have "mem_read m p (length s) = s"
    using at by (intro nth_equalityI) (auto simp: mem_read_def nth_append)
  ultimately show ?thesis
    using assms(4) by (simp add: read_cstr_def sys_consts from_utf8_def)
qed

end
