(* ===== verification/Syscall_Dir.thy ===== *)
theory Syscall_Dir
  imports Syscall_Laws
begin

text \<open>
  Moving within a descriptor and listing the root directory: \<open>lseek\<close> against a signed
  specification, and \<open>getdents64\<close> as the longest run of whole records that fits.
\<close>

unbundle bit_operations_syntax

section \<open>Seeking\<close>

text \<open>
  What \<open>lseek\<close> should compute: the saturated sum of base and offset as signed integers,
  refused when negative.
\<close>

definition seek_spec :: "int \<Rightarrow> int \<Rightarrow> int option" where
  "seek_spec base off =
     (let p = min (base + off) 9223372036854775807 in if p < 0 then None else Some p)"

lemma sint_u64_bounds:
  "- 9223372036854775808 \<le> sint (w :: u64)" "sint (w :: u64) < 9223372036854775808"
  using sint_greater_eq [of w] sint_less [of w] by simp_all

lemma sint_small: "unat (w :: u64) < isize_bound \<Longrightarrow> sint w = int (unat w)"
proof -
  assume "unat w < isize_bound"
  then have "\<not> bit (uint w) 63"
    using sint_nonneg_iff [of w] by (simp add: sint_uint signed_take_bit_nonnegative_iff)
  then have "sint w = take_bit 63 (uint w)"
    by (simp add: sint_uint signed_take_bit_eq_if_positive)
  also have "\<dots> = uint w"
  proof (rule take_bit_int_eq_self)
    show "0 \<le> uint w" by simp
    have "uint w < 9223372036854775808"
      using \<open>unat w < isize_bound\<close> by (simp only: uint_nat)
    then show "uint w < 2 ^ 63" by simp
  qed
  finally show ?thesis by (simp only: uint_nat)
qed

lemma unat_nonneg: "0 \<le> sint (w :: u64) \<Longrightarrow> int (unat w) = sint w"
  using sint_nonneg_iff [of w] sint_small [of w] by simp

lemma sint_add_no_overflow:
  assumes "- 9223372036854775808 \<le> sint a + sint b" "sint a + sint b < 9223372036854775808"
  shows "sint (a + b :: u64) = sint a + sint b"
  using assms by (simp add: sint_word_ariths signed_take_bit_int_eq_self)

lemma saturating_add_i64_sint:
  "sint (saturating_add_i64 a b) =
     max (- 9223372036854775808) (min (sint a + sint b) 9223372036854775807)"
  using sint_add_no_overflow [of a b]
  by (auto simp: saturating_add_i64_def Let_def max_def min_def)

lemma seek_pos_spec:
  assumes "unat base < isize_bound"
  shows "(let p = saturating_add_i64 base off in if sint p < 0 then None else Some p) =
    map_option (\<lambda>p. of_nat (nat p)) (seek_spec (int (unat base)) (sint off))"
proof -
  let ?p = "saturating_add_i64 base off"
  have b: "sint base = int (unat base)" by (rule sint_small [OF assms])
  have sp: "sint ?p = min (int (unat base) + sint off) 9223372036854775807"
    if "0 \<le> int (unat base) + sint off"
    using that by (simp add: saturating_add_i64_sint b)
  have neg: "sint ?p < 0 \<longleftrightarrow> int (unat base) + sint off < 0"
    by (auto simp: saturating_add_i64_sint b max_def min_def)
  show ?thesis
  proof (cases "int (unat base) + sint off < 0")
    case True
    then show ?thesis using neg by (simp add: seek_spec_def Let_def min_def)
  next
    case False
    then have "unat ?p = nat (min (int (unat base) + sint off) 9223372036854775807)"
      using sp neg unat_nonneg [of ?p] by (metis not_less nat_int)
    then have "of_nat (unat ?p) =
        (of_nat (nat (min (int (unat base) + sint off) 9223372036854775807)) :: u64)"
      by (rule arg_cong)
    then have "?p = of_nat (nat (min (int (unat base) + sint off) 9223372036854775807))"
      by simp
    with False neg show ?thesis by (simp add: seek_spec_def Let_def)
  qed
qed

section \<open>Listing the root directory\<close>

text \<open>The bytes of one \<open>linux_dirent64\<close>.\<close>

definition dirent_bytes :: "bytes \<times> u8 \<times> u64 \<Rightarrow> nat \<Rightarrow> bytes" where
  "dirent_bytes ent pos =
     (case ent of (name, ty, ino) \<Rightarrow>
        to_le 8 ino @ to_le 8 (of_nat pos + 1 :: u64) @
        to_le 2 (of_nat (dirent_record_len (length name)) :: u16) @ [ty] @ name @
        replicate (dirent_record_len (length name) - (19 + length name)) 0)"

lemma dirent_record_len_bounds:
  "20 + n \<le> dirent_record_len n" "dirent_record_len n < 28 + n" "8 dvd dirent_record_len n"
  by (simp_all add: dirent_record_len_def Let_def)

lemma length_dirent_bytes:
  "length (dirent_bytes (name, ty, ino) pos) = dirent_record_len (length name)"
  using dirent_record_len_bounds(1) [of "length name"] by (simp add: dirent_bytes_def)

lemma write_dirent_bytes:
  assumes "length name < u32_bound" "reclen = dirent_record_len (length name)"
  shows "write_dirent m rec name ty ino pos reclen =
    mem_write m rec (dirent_bytes (name, ty, ino) pos)"
proof -
  let ?o = "to_le 8 ino" and ?n = "to_le 8 (of_nat pos + 1 :: u64)"
  let ?r = "to_le 2 (of_nat reclen :: u16)" and ?k = "reclen - (20 + length name)"
  have rl: "20 + length name \<le> reclen" "reclen < 28 + length name"
    using dirent_record_len_bounds [of "length name"] assms by auto
  have glue: "mem_write (mem_write m rec bs) (rec + of_nat n) cs = mem_write m rec (bs @ cs)"
    if "length bs = n" "n + length cs < usize_bound" for bs n cs
    using that mem_write_append [of bs cs m rec] by simp
  have tail: "replicate (reclen - (19 + length name)) (0 :: u8) = [0] @ replicate ?k 0"
  proof -
    have "reclen - (19 + length name) = Suc ?k" using rl by simp
    then show ?thesis by simp
  qed
  have "write_dirent m rec name ty ino pos reclen =
      mem_write m rec (((((?o @ ?n) @ ?r) @ [ty]) @ name) @ [0] @ replicate ?k 0)"
    unfolding write_dirent_def Let_def
    using assms(1) rl glue [of "?o" 8 ?n] glue [of "?o @ ?n" 16 ?r]
      glue [of "(?o @ ?n) @ ?r" 18 "[ty]"] glue [of "((?o @ ?n) @ ?r) @ [ty]" 19 name]
      glue [of "(((?o @ ?n) @ ?r) @ [ty]) @ name" "19 + length name" "[0]"]
      glue [of "((((?o @ ?n) @ ?r) @ [ty]) @ name) @ [0]" "20 + length name" "replicate ?k 0"]
    by simp
  then show ?thesis
    by (simp only: dirent_bytes_def prod.case assms(2) [symmetric] tail append_assoc)
qed

text \<open>The records from \<open>pos\<close> on, up to the first that cannot be read.\<close>

fun dir_records :: "kernel \<Rightarrow> nat \<Rightarrow> nat \<Rightarrow> bytes list" where
  "dir_records k pos 0 = []"
| "dir_records k pos (Suc r) =
     (case dirent_at k pos of
        None \<Rightarrow> []
      | Some ent \<Rightarrow> dirent_bytes ent pos # dir_records k (Suc pos) r)"

text \<open>The longest run of records that fits in \<open>count\<close> bytes.\<close>

fun fitting :: "nat \<Rightarrow> bytes list \<Rightarrow> bytes list" where
  "fitting count [] = []"
| "fitting count (b # bs) =
     (if length b \<le> count then b # fitting (count - length b) bs else [])"

lemma fitting_length: "length (concat (fitting count bs)) \<le> count"
proof (induction bs arbitrary: count)
  case Nil
  then show ?case by simp
next
  case (Cons b bs)
  show ?case
  proof (cases "length b \<le> count")
    case True
    with Cons [of "count - length b"] show ?thesis by simp
  qed simp
qed

lemma fitting_prefix: "\<exists>rest. bs = fitting count bs @ rest"
  by (induction bs arbitrary: count) auto

lemma dirent_at_name: "dirent_at k pos = Some (name, ty, ino) \<Longrightarrow> length name \<le> 48"
proof -
  assume d: "dirent_at k pos = Some (name, ty, ino)"
  show ?thesis
  proof (cases "pos < 2")
    case True
    with d have "name = str ''.'' \<or> name = str ''..''"
      by (auto simp: dirent_at_def split: if_splits)
    then show ?thesis by (auto simp: str_def)
  next
    case False
    with d have "root_name_by_index k (pos - 2) = Some name"
      by (auto simp: dirent_at_def Let_def split: option.splits)
    then obtain img r where "fs_entry img (pos - 2) = Inr r" and n: "name = fr_name r"
      by (auto simp: root_name_by_index_def split: option.splits sum.splits)
    then have "fs_entry_at img (pos - 2) = Inr r"
      by (auto simp: fs_entry_def try_res_Inr_iff split: if_splits)
    then show ?thesis using entry_at_ok(2) [of img "pos - 2" r] n by (simp add: fs_consts)
  qed
qed

text \<open>
  The loop writes the records that fit, one after the other, and moves the position past
  exactly these.
\<close>

lemma getdents_loop_spec:
  fixes k :: kernel and pos r :: nat
  assumes "written \<le> count" "count < usize_bound"
  defines "recs \<equiv> fitting (count - written) (dir_records k pos r)"
  shows "getdents_loop k dirp count r pos written m =
    (mem_write m (dirp + of_nat written) (concat recs), pos + length recs,
     if written = 0 \<and> recs = [] \<and> dir_records k pos r \<noteq> [] then None
     else Some (written + length (concat recs)))"
  using assms(1) unfolding recs_def
proof (induction r arbitrary: pos written m)
  case 0
  then show ?case by simp
next
  case (Suc r)
  show ?case
  proof (cases "dirent_at k pos")
    case None
    then show ?thesis by simp
  next
    case (Some ent)
    obtain name ty ino where ent: "ent = (name, ty, ino)" by (cases ent)
    let ?l = "dirent_record_len (length name)"
    have nl: "length name \<le> 48" using dirent_at_name Some ent by simp
    have pos_l: "0 < ?l" using dirent_record_len_bounds(1) [of "length name"] by simp
    show ?thesis
    proof (cases "written + ?l \<le> count")
      case False
      then show ?thesis using Some ent Suc.prems
        by (auto simp: Let_def length_dirent_bytes)
    next
      case True
      let ?d = "dirent_bytes (name, ty, ino) pos"
      let ?rest = "fitting (count - (written + ?l)) (dir_records k (Suc pos) r)"
      have w: "write_dirent m (dirp + of_nat written) name ty ino pos ?l =
          mem_write m (dirp + of_nat written) ?d"
        using nl by (intro write_dirent_bytes) auto
      have "length (concat ?rest) \<le> count - (written + ?l)" by (rule fitting_length)
      then have g: "mem_write (mem_write m (dirp + of_nat written) ?d)
            (dirp + (of_nat written + of_nat ?l)) (concat ?rest) =
          mem_write m (dirp + of_nat written) (?d @ concat ?rest)"
        using mem_write_append [of ?d "concat ?rest" m "dirp + of_nat written"] True assms(2)
        by (simp add: length_dirent_bytes add.assoc)
      have "getdents_loop k dirp count (Suc r) pos written m =
          getdents_loop k dirp count r (Suc pos) (written + ?l)
            (mem_write m (dirp + of_nat written) ?d)"
        using True Some ent by (simp add: Let_def w)
      also have "\<dots> = (mem_write m (dirp + of_nat written) (?d @ concat ?rest),
          Suc pos + length ?rest, Some (written + ?l + length (concat ?rest)))"
        using Suc.IH [of "written + ?l" "Suc pos"] True pos_l by (simp add: g)
      finally have "getdents_loop k dirp count (Suc r) pos written m =
        (mem_write m (dirp + of_nat written) (?d @ concat ?rest),
          Suc pos + length ?rest, Some (written + ?l + length (concat ?rest)))" .
      moreover have "fitting (count - written) (dir_records k pos (Suc r)) = ?d # ?rest"
      proof -
        have "?l \<le> count - written" using True by linarith
        then show ?thesis by (simp add: Some ent length_dirent_bytes)
      qed
      ultimately show ?thesis by (simp only:) (simp add: length_dirent_bytes)
    qed
  qed
qed

end
