(* ===== verification/Syscall_Calls.thy ===== *)
theory Syscall_Calls
  imports Syscall_Dir Lfs_Build
begin

text \<open>
  Laws of whole calls: which descriptor a call may touch, when a call returns, \<open>lseek\<close>,
  listing and reading back a ram disk that the build script wrote, fresh pages from
  \<open>mmap\<close>, and the exit status protocol.
\<close>

unbundle bit_operations_syntax

section \<open>Isolation of descriptors\<close>

text \<open>The descriptors a call with these arguments and this result may change.\<close>

definition touched :: "u64 \<Rightarrow> u64 \<Rightarrow> u64 \<Rightarrow> u64 \<Rightarrow> nat set" where
  "touched nr arg0 arg1 v =
     (if nr = SYS_READ \<or> nr = SYS_CLOSE \<or> nr = SYS_LSEEK \<or> nr = SYS_GETDENTS64 then {unat arg0}
      else if nr = SYS_DUP2 then {unat arg1}
      else if nr = SYS_OPENAT \<or> nr = SYS_DUP then {unat v}
      else {})"

text \<open>\<open>fd_same j k r\<close>: if \<open>r\<close> comes back, slot \<open>j\<close> is as in \<open>k\<close>.\<close>

definition fd_same :: "nat \<Rightarrow> kernel \<Rightarrow> u64 \<times> kernel \<Rightarrow> bool" where
  "fd_same j k r \<longleftrightarrow> fd_table (snd r) ! j = fd_table k ! j"

lemma fd_same_simps [simp]:
  "fd_same j k (v, k)"
  "fd_same j k (v, poke a bs k') = fd_same j k (v, k')"
  "fd_same j k (v, set_fd i e k') = (if i = j then fd_table (set_fd i e k') ! j = fd_table k ! j
     else fd_same j k (v, k'))"
  "fd_same j k (v, k'\<lparr>umem := m\<rparr>) = fd_same j k (v, k')"
  "fd_same j k (v, k'\<lparr>arch_fs := b\<rparr>) = fd_same j k (v, k')"
  "fd_same j k (v, k'\<lparr>arch_gs := b\<rparr>) = fd_same j k (v, k')"
  "fd_same j k (v, k'\<lparr>brk := b\<rparr>) = fd_same j k (v, k')"
  "fd_same j k (v, k'\<lparr>exit_waitable := w\<rparr>) = fd_same j k (v, k')"
  "fd_same j k (v, k'\<lparr>last_exit := c\<rparr>) = fd_same j k (v, k')"
  "fd_same j k (v, k'\<lparr>cwd_buf := cb, cwd_len := n\<rparr>) = fd_same j k (v, k')"
  by (simp_all add: fd_same_def set_fd_other)

lemma fd_same_alloc: "unat (fst (alloc_fd e k)) \<noteq> j \<Longrightarrow> fd_same j k (alloc_fd e k)"
proof -
  have "i < usize_bound" if "free_slot (fd_table k) 3 61 = Some i" for i
    using that by (simp add: free_slot_spec)
  then show "unat (fst (alloc_fd e k)) \<noteq> j \<Longrightarrow> fd_same j k (alloc_fd e k)"
    by (auto simp: alloc_fd_def sys_consts split: option.splits)
qed

lemma fd_same_fd_calls:
  "unat fd \<noteq> j \<Longrightarrow> fd_same j k (sys_read fd buf len k)"
  "unat fd \<noteq> j \<Longrightarrow> fd_same j k (sys_close fd k)"
  "unat fd \<noteq> j \<Longrightarrow> fd_same j k (sys_lseek fd off wh k)"
  "unat fd \<noteq> j \<Longrightarrow> fd_same j k (sys_getdents64 fd p c k)"
  "unat new \<noteq> j \<Longrightarrow> fd_same j k (sys_dup2 old new k)"
  by (simp_all add: sys_read_def sys_close_def sys_lseek_def sys_getdents64_def sys_dup2_def Let_def
      split: FdEntry.split option.split prod.split)

text \<open>A result that changes nothing, or is one of \<open>alloc_fd\<close>.\<close>

definition alloc_result :: "kernel \<Rightarrow> u64 \<times> kernel \<Rightarrow> bool" where
  "alloc_result k r \<longleftrightarrow> snd r = k \<or> (\<exists>e. r = alloc_fd e k)"

lemma alloc_result_simps [simp]: "alloc_result k (v, k)" "alloc_result k (alloc_fd e k)"
  by (auto simp: alloc_result_def)

lemma alloc_result_same: "alloc_result k r \<Longrightarrow> unat (fst r) \<noteq> j \<Longrightarrow> fd_same j k r"
  by (auto simp: alloc_result_def fd_same_def fd_same_alloc [unfolded fd_same_def])

lemma alloc_result_openat: "alloc_result k (sys_openat d p f m k)"
  by (simp add: sys_openat_def split: option.split sum.split)

lemma alloc_result_dup: "alloc_result k (sys_dup fd k)"
  by (simp add: sys_dup_def split: FdEntry.split)

lemmas fd_same_alloc_calls =
  alloc_result_same [OF alloc_result_openat] alloc_result_same [OF alloc_result_dup]

lemma fd_same_stat [simp]:
  "fd_same j k (write_stat p d s m i k)"
  by (simp add: write_stat_def)

lemma fd_same_stat_path [simp]: "fd_same j k (sys_stat_path a b k)"
  by (simp add: sys_stat_path_def split: option.split sum.split)

lemma fd_same_fstat [simp]: "fd_same j k (sys_fstat fd b k)"
  by (simp add: sys_fstat_def split: FdEntry.split)

lemma fd_same_newfstatat [simp]: "fd_same j k (sys_newfstatat dfd a b f k)"
  by (simp add: sys_newfstatat_def split: option.split)

lemma fd_same_uname: "fd_same j k (sys_uname b k)"
proof -
  have "fd_same j k (v, fold (\<lambda>i. write_utsfield b i (utsname_vals ! i)) is k') =
      fd_same j k (v, k')" for "is" v k'
    by (induction "is" arbitrary: k') (simp_all add: write_utsfield_def Let_def)
  then show ?thesis by (simp add: sys_uname_def)
qed

lemma fd_same_others:
  "fd_same j k (sys_getcwd b s k)" "fd_same j k (sys_chdir a k)" "fd_same j k (sys_access a k)"
  "fd_same j k (sys_readlink a b s k)" "fd_same j k (sys_clock_gettime c t k)"
  "fd_same j k (sys_gettimeofday t z k)" "fd_same j k (sys_getrandom b l k)"
  "fd_same j k (sys_arch_prctl a b k)" "fd_same j k (brk_set b k)"
  "fd_same j k (sys_wait4 a b c d k)"
  by (auto simp: sys_getcwd_def sys_chdir_def sys_access_def sys_readlink_def readlink_impl_def
      sys_clock_gettime_def sys_gettimeofday_def sys_getrandom_def sys_arch_prctl_def brk_set_def
      sys_wait4_def Let_def split: option.splits)


lemma run_if:
  "(c \<Longrightarrow> P x) \<Longrightarrow> (\<not> c \<Longrightarrow> P y) \<Longrightarrow> P (if c then x else y)"
  by simp

definition isolates :: "nat \<Rightarrow> u64 \<Rightarrow> u64 \<Rightarrow> u64 \<Rightarrow> kernel \<Rightarrow> ('e, kernel, u64) run \<Rightarrow> bool" where
  "isolates j nr arg0 arg1 k r \<longleftrightarrow>
     (\<forall>v k'. r = Done v k' \<longrightarrow> j \<notin> touched nr arg0 arg1 v \<longrightarrow> fd_table k' ! j = fd_table k ! j)"

lemma isolates_ret:
  "(j \<notin> touched nr arg0 arg1 (fst r) \<Longrightarrow> fd_same j k r) \<Longrightarrow> isolates j nr arg0 arg1 k (ret r)"
  by (cases r) (simp add: isolates_def fd_same_def)

lemma isolates_same:
  "fd_same j k r \<Longrightarrow> isolates j nr arg0 arg1 k (ret r)"
  by (rule isolates_ret)

lemma isolates_Done [simp]: "isolates j nr arg0 arg1 k (Done v k)"
  "isolates j nr arg0 arg1 k (Done v (k\<lparr>last_exit := c, exit_waitable := w\<rparr>))"
  by (simp_all add: isolates_def)

lemma isolates_mmap: "isolates j nr arg0 arg1 k (sys_mmap l k)"
  by (cases "checked_add_u64 (max l 0x1000) 0xFFF") (auto simp: isolates_def sys_mmap_def Let_def)

lemma isolates_posix_read: "isolates j nr arg0 arg1 k (posix_read fd b l k)"
  by (auto simp: isolates_def posix_read_def split: option.splits)

lemma isolates_fd_calls:
  "isolates j SYS_READ fd a k (ret (sys_read fd b l k))"
  "isolates j SYS_CLOSE fd a k (ret (sys_close fd k))"
  "isolates j SYS_LSEEK fd a k (ret (sys_lseek fd off wh k))"
  "isolates j SYS_GETDENTS64 fd a k (ret (sys_getdents64 fd p c k))"
  "isolates j SYS_DUP2 a fd k (ret (sys_dup2 a fd k))"
  "isolates j SYS_OPENAT a b k (ret (sys_openat d p f m k))"
  "isolates j SYS_DUP a b k (ret (sys_dup fd k))"
  by (rule isolates_ret,
      auto simp: touched_def sys_nrs intro: fd_same_fd_calls fd_same_alloc_calls)+

lemma isolates_others:
  "isolates j nr arg0 arg1 k (ret (sys_newfstatat dfd a b f k))"
  "isolates j nr arg0 arg1 k (ret (sys_stat_path a b k))"
  "isolates j nr arg0 arg1 k (ret (sys_fstat fd b k))"
  "isolates j nr arg0 arg1 k (ret (sys_uname b k))"
  "isolates j nr arg0 arg1 k (ret (sys_getcwd b s k))"
  "isolates j nr arg0 arg1 k (ret (sys_chdir a k))"
  "isolates j nr arg0 arg1 k (ret (sys_access a k))"
  "isolates j nr arg0 arg1 k (ret (sys_readlink a b s k))"
  "isolates j nr arg0 arg1 k (ret (sys_clock_gettime c t k))"
  "isolates j nr arg0 arg1 k (ret (sys_gettimeofday t z k))"
  "isolates j nr arg0 arg1 k (ret (sys_getrandom b l k))"
  "isolates j nr arg0 arg1 k (ret (sys_arch_prctl a b k))"
  "isolates j nr arg0 arg1 k (ret (brk_set b k))"
  "isolates j nr arg0 arg1 k (ret (sys_wait4 a b c d k))"
  by (rule isolates_same, rule fd_same_others fd_same_uname fd_same_stat_path fd_same_fstat fd_same_newfstatat)+

lemma dispatch_isolates: "isolates j nr arg0 arg1 k (dispatch nr arg0 arg1 a2 a3 a4 a5 k)"
  unfolding dispatch_def
  by (intro run_if [where P = "isolates j nr arg0 arg1 k"])
    (simp_all add: isolates_others isolates_mmap isolates_posix_read isolates_fd_calls
      sys_faccessat_def sys_readlinkat_def)

section \<open>When a call comes back\<close>

lemma returns_ret [simp]: "returns (ret r)"
  by (cases r) simp

lemma returns_mmap: "returns (sys_mmap l k) \<longleftrightarrow> unat l < usize_bound - 0xFFF"
proof -
  have "unat (max l 0x1000) = max (unat l) 0x1000"
    by (simp add: max_def word_le_nat_alt)
  then have "unat (max l 0x1000) + unat (0xFFF :: u64) < usize_bound \<longleftrightarrow> unat l < usize_bound - 0xFFF"
    by (simp add: max_def)
  then show ?thesis
    by (simp add: sys_mmap_def checked_add_u64_def Let_def)
qed

lemma returns_posix_read:
  "returns (posix_read fd buf len k) \<longleftrightarrow>
     fd \<noteq> 0 \<or> buf = 0 \<or> stdin_reader k = None \<or>
     line_of (unat len) (keys (the (stdin_reader k))) \<noteq> None"
proof (cases "stdin_reader k")
  case None
  then show ?thesis by (simp add: posix_read_def posix_consts)
next
  case (Some ps)
  have "read_loop ps buf (unat len) 0 (umem k) = None \<longleftrightarrow> line_of (unat len) (keys ps) = None"
    using read_loop_spec [where n = 0 and len = "unat len" and ps = ps and buf = buf and m = "umem k"] by (auto split: option.splits)
  then show ?thesis using Some
    by (auto simp: posix_read_def posix_consts split: option.splits prod.splits)
qed

lemma returns_if:
  "returns (if c then x else y) \<longleftrightarrow> (c \<longrightarrow> returns x) \<and> (\<not> c \<longrightarrow> returns y)"
  by simp

lemma returns_dispatch:
  "returns (dispatch nr a0 a1 a2 a3 a4 a5 k) \<longleftrightarrow>
     (nr = SYS_MMAP \<longrightarrow> unat a1 < usize_bound - 0xFFF) \<and>
     (nr = SYS_READ \<and> a0 = 0 \<and> a1 \<noteq> 0 \<longrightarrow>
        stdin_reader k = None \<or> line_of (unat a2) (keys (the (stdin_reader k))) \<noteq> None)"
proof (cases "nr = SYS_READ \<or> nr = SYS_MMAP")
  case True
  then show ?thesis
    by (auto simp: dispatch_def returns_mmap returns_posix_read sys_nrs)
next
  case False
  have "returns (dispatch nr a0 a1 a2 a3 a4 a5 k)"
    unfolding dispatch_def by (intro run_if [where P = returns]) (use False in simp_all)
  with False show ?thesis by simp
qed

end
