(* ===== verification/Syscall_Props.thy ===== *)
theory Syscall_Props
  imports Syscall_Calls
begin

text \<open>
  The properties of the system call layer: what a program that runs on the kernel can rely
  on, stated of \<open>dispatch\<close> and the handlers.
\<close>

unbundle bit_operations_syntax

text \<open>\<open>dispatch\<close> has no \<open>Err\<close> of its own.\<close>

abbreviation kcall ::
  "u64 \<Rightarrow> u64 \<Rightarrow> u64 \<Rightarrow> u64 \<Rightarrow> u64 \<Rightarrow> u64 \<Rightarrow> u64 \<Rightarrow> kernel \<Rightarrow> (unit, kernel, u64) run" where
  "kcall \<equiv> dispatch"

text \<open>A reachable kernel in which a program has the root directory open as descriptor 3.\<close>

definition demo_kernel :: kernel where
  "demo_kernel = set_fd 3 (RootDir 0) (poke 0x1000 (str ''/'' @ [0]) (boot_kernel (\<lambda>_. 0)))"

lemma read_cstr_poke:
  assumes "graphic s" "length s < 256"
  shows "read_cstr (umem (poke p (s @ [0]) k)) p = Some s"
proof (rule read_cstr_string)
  show "mem_read (umem (poke p (s @ [0]) k)) p (Suc (length s)) = s @ [0]"
    using mem_read_write_same [of "s @ [0]" "umem k" p] assms(2) by simp
  show "0 \<notin> set s" using assms(1) by (auto simp: graphic_def)
  show "utf8_valid s" by (rule graphic_utf8 [OF assms(1)])
qed (rule assms)

lemma demo_reach: "sys_reach demo_kernel"
proof -
  let ?k = "poke 0x1000 (str ''/'' @ [0]) (boot_kernel (\<lambda>_. 0))"
  have k: "sys_reach ?k" by (rule sys_reach.store [OF sys_reach.boot])
  have inv: "fd_inv ?k" by (rule sys_reach_fd_inv [OF k])
  have "read_cstr (umem ?k) 0x1000 = Some (str ''/'')"
    by (rule read_cstr_poke) (simp_all add: graphic_def str_def)
  moreover have "alloc_fd (RootDir 0) ?k = (3, demo_kernel)"
    using alloc_fd_lowest [OF inv, of 3] by (simp add: demo_kernel_def boot_kernel_def sys_consts)
  ultimately have "kcall SYS_OPENAT AT_FDCWD 0x1000 0 0 0 0 ?k = Done 3 demo_kernel"
    by (simp add: dispatch_def sys_nrs sys_openat_def is_dirfd_ok_def)
  then show ?thesis by (rule sys_reach.call [OF k])
qed

lemma demo_fd: "fd_table demo_kernel ! 3 = RootDir 0"
  by (simp add: demo_kernel_def set_fd_def boot_kernel_def sys_consts)

section \<open>Seeking\<close>

text \<open>Base position and end of an open descriptor.\<close>

fun seek_base :: "kernel \<Rightarrow> FdEntry \<Rightarrow> u64 \<Rightarrow> int option" where
  "seek_base k Free wh = None"
| "seek_base k (RootDir pos) wh =
     (if wh = SEEK_SET then Some 0 else if wh = SEEK_CUR then Some (int (unat pos))
      else if wh = SEEK_END then Some (int (root_entries_count k)) else None)"
| "seek_base k (File d l pos m) wh =
     (if wh = SEEK_SET then Some 0 else if wh = SEEK_CUR then Some (int (unat pos))
      else if wh = SEEK_END then Some (int (length d)) else None)"

fun with_pos :: "FdEntry \<Rightarrow> u64 \<Rightarrow> FdEntry" where
  "with_pos Free p = Free"
| "with_pos (RootDir pos) p = RootDir p"
| "with_pos (File d l pos m) p = File d l p m"

lemma seek_pos_eq:
  assumes "unat pos < isize_bound" "e < isize_bound"
  shows "seek_pos pos (of_nat e) off wh =
    Option.bind (if wh = SEEK_SET then Some 0 else if wh = SEEK_CUR then Some (int (unat pos))
       else if wh = SEEK_END then Some (int e) else None)
      (\<lambda>b. map_option (\<lambda>p. of_nat (nat p)) (seek_spec b (sint off)))"
  using seek_pos_spec [of 0 off] seek_pos_spec [of pos off] seek_pos_spec [of "of_nat e" off] assms
  by (simp add: seek_pos_def)

text \<open>C11: \<open>lseek\<close> on an open descriptor of a reachable kernel computes the signed sum of
  the base that \<open>whence\<close> names (start, position, end) and the offset, saturated at
  \<open>i64::MAX\<close>; it refuses a negative result or an unknown \<open>whence\<close> with \<open>EINVAL\<close> and then
  changes nothing, and otherwise sets the position of that descriptor only.\<close>

theorem lseek_signed:
  assumes "sys_reach k" "unat fd < 64" "fd_table k ! unat fd \<noteq> Free"
  shows "sys_lseek fd off wh k =
    (case Option.bind (seek_base k (fd_table k ! unat fd) wh) (\<lambda>b. seek_spec b (sint off)) of
       None \<Rightarrow> (- EINVAL, k)
     | Some p \<Rightarrow> (of_nat (nat p),
         set_fd (unat fd) (with_pos (fd_table k ! unat fd) (of_nat (nat p))) k))"
proof -
  have e: "entry_ok (rootfs k) (fd_table k ! unat fd)"
    using fd_inv_entry [OF sys_reach_fd_inv [OF assms(1)] assms(2)] .
  have r: "root_entries_count k < isize_bound"
    using fds.root_entries_bound [of k] by linarith
  show ?thesis
  proof (cases "fd_table k ! unat fd")
    case (RootDir pos)
    with e have "unat pos < isize_bound" by simp
    with RootDir assms(2) show ?thesis
      by (auto simp: sys_lseek_def sys_consts seek_pos_eq [OF _ r] split: option.splits bind_splits)
  next
    case (File d l pos m)
    with e have "unat pos < isize_bound" "l < isize_bound" "l = length d" by auto
    with File assms(2) show ?thesis
      by (auto simp: sys_lseek_def sys_consts seek_pos_eq split: option.splits bind_splits)
  qed (use assms in simp)
qed

theorem lseek_signed_witness:
  "sys_lseek 3 5 SEEK_SET demo_kernel =
    (case Option.bind (seek_base demo_kernel (fd_table demo_kernel ! unat (3 :: u64)) SEEK_SET)
            (\<lambda>b. seek_spec b (sint (5 :: u64))) of
       None \<Rightarrow> (- EINVAL, demo_kernel)
     | Some p \<Rightarrow> (of_nat (nat p),
         set_fd (unat (3 :: u64))
           (with_pos (fd_table demo_kernel ! unat (3 :: u64)) (of_nat (nat p))) demo_kernel))"
  by (rule lseek_signed) (simp_all add: demo_reach demo_fd)

section \<open>Fresh pages\<close>

text \<open>A sequence of \<open>mmap\<close> calls, and the regions they hand out.\<close>

fun mmap_calls :: "u64 list \<Rightarrow> kernel \<Rightarrow> (unit, kernel, (u64 \<times> nat) list) run" where
  "mmap_calls [] k = Done [] k"
| "mmap_calls (len # ls) k =
     and_then (kcall SYS_MMAP 0 len 3 0x22 (- 1) 0 k) (\<lambda>a k.
     and_then (mmap_calls ls k) (\<lambda>rs k. Done ((a, unat len) # rs) k))"

definition pages :: "nat \<Rightarrow> nat" where
  "pages len = (max len 0x1000 + 0xFFF) div 0x1000 * 0x1000"

lemma pages_split: "\<exists>r < 0x1000. pages len + r = max len 0x1000 + 0xFFF"
proof -
  let ?n = "max len 0x1000 + 0xFFF"
  have "?n div 0x1000 * 0x1000 + ?n mod 0x1000 = ?n" by (rule div_mult_mod_eq)
  moreover have "?n mod 0x1000 < 0x1000" by simp
  ultimately show ?thesis unfolding pages_def by blast
qed

lemma pages_ge: "max len 0x1000 \<le> pages len"
  using pages_split [of len] by (elim exE conjE) linarith

lemma pages_dvd: "0x1000 dvd pages len"
  unfolding pages_def by (rule dvd_triv_right)

lemma and_not_mask: "unat ((w :: u64) AND NOT 0xFFF) = unat w div 0x1000 * 0x1000"
proof -
  have "(0xFFF :: u64) = mask 12" by (simp add: mask_eq_exp_minus_1)
  then have "unat (w AND NOT 0xFFF) = unat (w AND NOT (mask 12))" by (simp only:)
  also have "\<dots> = unat w div 2 ^ 12 * 2 ^ 12" by (rule unat_align) simp
  finally show ?thesis by simp
qed

lemma mmap_one:
  assumes "unat (mmap_base k) + pages (unat len) < usize_bound"
  shows "dispatch SYS_MMAP a0 len a2 a3 a4 a5 k =
    Done (mmap_base k) (k\<lparr>mmap_base := mmap_base k + of_nat (pages (unat len))\<rparr>)"
    "unat (mmap_base k + of_nat (pages (unat len))) = unat (mmap_base k) + pages (unat len)"
proof -
  let ?l = "max len 0x1000"
  have l: "unat ?l = max (unat len) 0x1000" by (simp add: max_def word_le_nat_alt)
  have s: "unat ?l + unat (0xFFF :: u64) < usize_bound"
  proof -
    obtain q where q: "pages (unat len) = 0x1000 * q" using pages_dvd by (rule dvdE)
    with assms have "q < 4503599627370496" by linarith
    with q pages_ge [of "unat len"] l show ?thesis by simp
  qed
  then have c: "checked_add_u64 ?l 0xFFF = Some (?l + 0xFFF)" by (simp add: checked_add_u64_def)
  have "unat (?l + 0xFFF) = max (unat len) 0x1000 + 0xFFF"
    using checked_add_u64_unat [OF c] l by simp
  then have "unat ((?l + 0xFFF) AND NOT 0xFFF) = pages (unat len)"
    by (simp only: and_not_mask pages_def)
  then have "(?l + 0xFFF) AND NOT 0xFFF = of_nat (pages (unat len))"
    by (metis unat_of_nat_u64 unat_u64_bound word_unat_eq_iff)
  with c show "dispatch SYS_MMAP a0 len a2 a3 a4 a5 k =
    Done (mmap_base k) (k\<lparr>mmap_base := mmap_base k + of_nat (pages (unat len))\<rparr>)"
    by (simp add: dispatch_def sys_nrs sys_mmap_def Let_def)
  show "unat (mmap_base k + of_nat (pages (unat len))) = unat (mmap_base k) + pages (unat len)"
    using assms by (simp add: unat_word_ariths)
qed

text \<open>The regions lie in order between two addresses.\<close>

fun laid_out :: "nat \<Rightarrow> (u64 \<times> nat) list \<Rightarrow> nat \<Rightarrow> bool" where
  "laid_out lo [] hi \<longleftrightarrow> lo \<le> hi"
| "laid_out lo ((a, len) # rs) hi \<longleftrightarrow>
     lo \<le> unat a \<and> 0x1000 dvd unat a \<and> laid_out (unat a + len) rs hi"

lemma laid_out_mono: "laid_out lo rs hi \<Longrightarrow> lo' \<le> lo \<Longrightarrow> laid_out lo' rs hi"
  by (cases rs) auto

lemma laid_out_above: "laid_out lo rs hi \<Longrightarrow> (a, n) \<in> set rs \<Longrightarrow> lo \<le> unat a"
  by (induction lo rs hi rule: laid_out.induct) fastforce+

text \<open>C12: any sequence of \<open>mmap\<close> calls whose page-rounded lengths fit in the address space
  above \<open>MMAP_BASE\<close> returns, and hands out page-aligned regions in increasing order, each
  with room for the requested length, none overlapping another or the space already handed
  out.\<close>

theorem mmap_regions_disjoint:
  assumes "0x1000 dvd unat (mmap_base k)"
    "unat (mmap_base k) + (\<Sum>l\<leftarrow>ls. pages (unat l)) < usize_bound"
  shows "\<exists>rs k'. mmap_calls ls k = Done rs k' \<and> map snd rs = map unat ls \<and>
    laid_out (unat (mmap_base k)) rs (unat (mmap_base k'))"
  using assms
proof (induction ls arbitrary: k)
  case Nil
  then show ?case by simp
next
  case (Cons l ls)
  have fit: "unat (mmap_base k) + pages (unat l) < usize_bound" using Cons.prems(2) by simp
  note one = mmap_one [OF fit]
  let ?k = "k\<lparr>mmap_base := mmap_base k + of_nat (pages (unat l))\<rparr>"
  have "0x1000 dvd unat (mmap_base ?k)"
    using one(2) Cons.prems(1) pages_dvd [of "unat l"] by (simp add: dvd_add)
  moreover have "unat (mmap_base ?k) + (\<Sum>l\<leftarrow>ls. pages (unat l)) < usize_bound"
    using one(2) Cons.prems(2) by simp
  ultimately obtain rs k' where rest: "mmap_calls ls ?k = Done rs k'" "map snd rs = map unat ls"
      "laid_out (unat (mmap_base ?k)) rs (unat (mmap_base k'))"
    using Cons.IH by blast
  have "unat l \<le> pages (unat l)" using pages_ge [of "unat l"] by linarith
  then have "laid_out (unat (mmap_base k) + unat l) rs (unat (mmap_base k'))"
    using rest(3) one(2) by (auto intro: laid_out_mono)
  with rest Cons.prems(1) show ?case by (simp add: one(1))
qed

theorem mmap_regions_disjoint_witness:
  "\<exists>rs k'. mmap_calls [0x1234, 1] (boot_kernel (\<lambda>_. 0)) = Done rs k' \<and>
    map snd rs = map unat [0x1234 :: u64, 1] \<and>
    laid_out (unat (mmap_base (boot_kernel (\<lambda>_. 0)))) rs (unat (mmap_base k'))"
  by (rule mmap_regions_disjoint) (simp_all add: boot_kernel_def pages_def)

section \<open>Exit status\<close>

text \<open>C16: after a program called \<open>exit(code)\<close>, one \<open>wait4\<close> (for any child or for the
  process id itself) reaps it: it returns the process id and stores a status word that
  decodes to a normal exit with the low eight bits of the code; a second \<open>wait4\<close> gets
  \<open>ECHILD\<close> and stores nothing.\<close>

theorem exit_reaped_once:
  assumes "sint wpid \<le> 0 \<or> wpid = ucast (pid k)" "p \<noteq> 0"
    "nr = SYS_EXIT \<or> nr = SYS_EXIT_GROUP"
  shows "\<exists>k1 k2. kcall nr code b c d e f k = Done 0 k1 \<and>
    kcall SYS_WAIT4 wpid p opts ru e' f' k1 = Done (ucast (pid k)) k2 \<and>
    (let status = from_le (mem_read (umem k2) p 4) :: u32
     in status AND 0x7F = 0 \<and> drop_bit 8 status = ucast code AND 0xFF) \<and>
    kcall SYS_WAIT4 wpid p opts ru e' f' k2 = Done (- ECHILD) k2"
proof -
  define k1 where "k1 = k\<lparr>last_exit := ucast code, exit_waitable := True\<rparr>"
  define st where "st = push_bit 8 ((ucast code :: u32) AND 0xFF)"
  define k2 where "k2 = poke p (to_le 4 st) (k1\<lparr>exit_waitable := False\<rparr>)"
  have "kcall nr code b c d e f k = Done 0 k1"
    using assms(3) by (auto simp: dispatch_def sys_nrs k1_def)
  moreover have "kcall SYS_WAIT4 wpid p opts ru e' f' k1 = Done (ucast (pid k)) k2"
    using assms(1,2)
    by (auto simp: dispatch_def sys_nrs sys_wait4_def getpid_def k1_def k2_def st_def Let_def)
  moreover have "mem_read (umem k2) p 4 = to_le 4 st"
    using mem_read_write_same [of "to_le 4 st" "umem k1" p] by (simp add: k2_def k1_def)
  moreover have "st AND 0x7F = 0" "drop_bit 8 st = ucast code AND 0xFF"
  proof -
    have m: "(0x7F :: u32) = mask 7" "(0xFF :: u32) = mask 8" by (simp_all add: mask_eq_exp_minus_1)
    show "st AND 0x7F = 0" unfolding st_def m
      by (rule bit_word_eqI) (auto simp: bit_simps)
    show "drop_bit 8 st = ucast code AND 0xFF" unfolding st_def m
      by (rule bit_word_eqI) (auto simp: bit_simps)
  qed
  moreover have "kcall SYS_WAIT4 wpid p opts ru e' f' k2 = Done (- ECHILD) k2"
    using assms(1)
    by (auto simp: dispatch_def sys_nrs sys_wait4_def getpid_def k1_def k2_def poke_def Let_def)
  ultimately show ?thesis by (intro exI [of _ k1] exI [of _ k2]) (simp add: Let_def)
qed

theorem exit_reaped_once_witness:
  "\<exists>k1 k2. kcall SYS_EXIT_GROUP 42 0 0 0 0 0 (boot_kernel (\<lambda>_. 0)) = Done 0 k1 \<and>
    kcall SYS_WAIT4 (- 1) 0x2000 0 0 0 0 k1 = Done (ucast (pid (boot_kernel (\<lambda>_. 0)))) k2 \<and>
    (let status = from_le (mem_read (umem k2) 0x2000 4) :: u32
     in status AND 0x7F = 0 \<and> drop_bit 8 status = ucast (42 :: u64) AND 0xFF) \<and>
    kcall SYS_WAIT4 (- 1) 0x2000 0 0 0 0 k2 = Done (- ECHILD) k2"
  by (rule exit_reaped_once) simp_all

section \<open>The whole table\<close>

text \<open>C8: in every state the kernel can reach, whatever programs call, the descriptor table
  has its 64 slots, descriptors 0 to 2 are never allocated, and each open file is a slice of
  the mounted image with the length the table records and a position that fits an
  \<open>i64\<close>.\<close>

theorem reachable_descriptors:
  assumes "sys_reach k"
  shows "length (fd_table k) = 64 \<and> (\<forall>i < 3. fd_table k ! i = Free) \<and>
    (\<forall>i < 64. \<forall>d l p m. fd_table k ! i = File d l p m \<longrightarrow>
       l = length d \<and> unat p < 2 ^ 63 \<and>
       (\<exists>img off. rootfs k = Some img \<and> off + l \<le> length img \<and> d = sub_slice off l img))"
proof (intro conjI allI impI)
  have inv: "fd_inv k" by (rule sys_reach_fd_inv [OF assms])
  then show "length (fd_table k) = 64" "\<And>i. i < 3 \<Longrightarrow> fd_table k ! i = Free"
    by (auto simp: fd_inv_def sys_consts)
  fix i d l p m
  assume i: "i < 64" "fd_table k ! i = File d l p m"
  from fd_inv_entry [OF inv i(1)] i(2)
  have e: "l = length d" "unat p < isize_bound" "in_rootfs (rootfs k) d m" by auto
  then show "l = length d" "unat p < 2 ^ 63" by simp_all
  show "\<exists>img off. rootfs k = Some img \<and> off + l \<le> length img \<and> d = sub_slice off l img"
    using e entry_at_ok(5) by (fastforce simp: in_rootfs_def)
qed

text \<open>C14: a system call changes no descriptor but the one it names (the argument of
  \<open>read\<close>, \<open>close\<close>, \<open>lseek\<close> and \<open>getdents64\<close>, the target of
  \<open>dup2\<close>) or the one it returns (\<open>openat\<close>, \<open>dup\<close>).\<close>

theorem calls_isolated:
  assumes "kcall nr a0 a1 a2 a3 a4 a5 k = Done v k'" "j \<notin> touched nr a0 a1 v"
  shows "fd_table k' ! j = fd_table k ! j"
  using dispatch_isolates [of j nr a0 a1 k a2 a3 a4 a5] assms unfolding isolates_def by blast

theorem calls_isolated_witness:
  "fd_table (demo_kernel\<lparr>last_exit := 7, exit_waitable := True\<rparr>) ! 3 = fd_table demo_kernel ! 3"
  by (rule calls_isolated [of SYS_EXIT 7 0 0 0 0 0 demo_kernel 0])
    (simp_all add: dispatch_def touched_def sys_nrs)


text \<open>C15: \<open>dup\<close> of an open descriptor gives the lowest free descriptor from 3 on, a copy of
  the entry with its current position, and \<open>EBUSY\<close> only when all 61 are in use.\<close>

theorem dup_lowest:
  assumes "sys_reach k" "unat fd < 64" "fd_table k ! unat fd \<noteq> Free"
  shows "kcall SYS_DUP fd a1 a2 a3 a4 a5 k =
    (case find (\<lambda>i. fd_table k ! i = Free) [3..<64] of
       None \<Rightarrow> Done (- EBUSY) k
     | Some i \<Rightarrow> Done (of_nat i) (set_fd i (fd_table k ! unat fd) k))"
proof -
  have inv: "fd_inv k" by (rule sys_reach_fd_inv [OF assms(1)])
  have "2 < fd" using fd_inv_low [OF inv assms(2,3)] by (simp add: word_less_nat_alt)
  then have call: "kcall SYS_DUP fd a1 a2 a3 a4 a5 k = ret (alloc_fd (fd_table k ! unat fd) k)"
    using assms(2,3)
    by (cases "fd_table k ! unat fd") (auto simp: dispatch_def sys_nrs sys_dup_def sys_consts)
  show ?thesis
  proof (cases "find (\<lambda>i. fd_table k ! i = Free) [3..<64]")
    case None
    then have "\<forall>j. 3 \<le> j \<and> j < 64 \<longrightarrow> fd_table k ! j \<noteq> Free"
      unfolding find_None_iff set_upt by auto
    then have "alloc_fd e k = (- EBUSY, k)" for e by (rule alloc_fd_full)
    with None call show ?thesis by simp
  next
    case (Some i)
    then obtain n where n: "n < 61" "i = 3 + n" "fd_table k ! i = Free"
        "\<forall>j < n. fd_table k ! (3 + j) \<noteq> Free"
      unfolding find_Some_iff length_upt by (auto simp del: upt_rec_numeral)
    then have "\<forall>j. 3 \<le> j \<and> j < i \<longrightarrow> fd_table k ! j \<noteq> Free"
      by (metis add_less_cancel_left le_Suc_ex)
    with n have "alloc_fd e k = (of_nat i, set_fd i e k)" for e
      by (intro alloc_fd_lowest [OF inv]) auto
    with Some call show ?thesis by simp
  qed
qed

theorem dup_lowest_witness:
  "kcall SYS_DUP 3 0 0 0 0 0 demo_kernel =
    (case find (\<lambda>i. fd_table demo_kernel ! i = Free) [3..<64] of
       None \<Rightarrow> Done (- EBUSY) demo_kernel
     | Some i \<Rightarrow>
         Done (of_nat i) (set_fd i (fd_table demo_kernel ! unat (3 :: u64)) demo_kernel))"
  by (rule dup_lowest) (simp_all add: demo_reach demo_fd)

section \<open>A ram disk as a program sees it\<close>

text \<open>The kernel after boot with a mounted image: nothing open.\<close>

definition mounted :: "bytes \<Rightarrow> kernel \<Rightarrow> bool" where
  "mounted img k \<longleftrightarrow> fd_inv k \<and> rootfs k = Some img \<and> (\<forall>i < 64. fd_table k ! i = Free)"

lemma mounted_set_rootfs: "mounted img (set_rootfs img k)"
  using fd_inv_set_rootfs [of img k] by (simp add: mounted_def set_rootfs_def sys_consts)

lemma write_stat_size:
  assumes "n < u32_bound"
  shows "from_le (mem_read (umem (snd (write_stat p d n m i k))) (p + 48) 8) = (of_nat n :: u64)"
proof -
  let ?s = "stat_bytes (make_stat d n m i)"
  have "mem_read (mem_write (umem k) p ?s) (p + of_nat 48) 8 = sub_slice 48 8 ?s"
    by (rule mem_read_write_sub) (simp_all add: stat_bytes_def)
  also have "\<dots> = to_le 8 (of_nat n :: u64)"
    by (simp add: stat_bytes_def sub_slice_append_right sub_slice_append_left make_stat_def Let_def)
      (simp add: sub_slice_def)
  finally show ?thesis by (simp add: write_stat_def)
qed

text \<open>Opening a file of a freshly mounted image: descriptor 3, at the start of the contents.\<close>

abbreviation opened :: "bytes \<Rightarrow> BuildFile \<Rightarrow> kernel \<Rightarrow> kernel" where
  "opened img f k \<equiv>
     set_fd 3 (File (bf_data f) (length (bf_data f)) 0 (bf_mode f)) (set_rootfs img k)"

lemma open_mounted:
  assumes "lfs_files fs" "build_lfs1 fs = Some img"
    "find (\<lambda>f. bf_name f = name) fs = Some f" "plain_name name"
    "read_cstr (umem k) ptr = Some name" "ptr \<noteq> 0" "flags AND O_DIRECTORY = 0"
  shows "sys_openat AT_FDCWD ptr flags mode (set_rootfs img k) = (3, opened img f k)"
proof -
  let ?b = "set_rootfs img k"
  have open_ok: "fs_open img name = Inr (record_of f)"
    using build_open [OF assms(1,2)] assms(3) by simp
  have um: "umem ?b = umem k" "rootfs ?b = Some img" by (simp_all add: set_rootfs_def)
  have m: "mounted img ?b" by (rule mounted_set_rootfs)
  then have inv: "fd_inv ?b" by (simp add: mounted_def)
  have "sys_openat AT_FDCWD ptr flags mode ?b =
      alloc_fd (File (bf_data f) (length (bf_data f)) 0 (bf_mode f)) ?b"
    using openat_plain [OF inv _ assms(6,4) um(2) open_ok assms(7)] um(1) assms(5)
    by (simp add: record_of_def)
  also have "\<dots> = (3, opened img f k)"
    using alloc_fd_lowest [OF inv, of 3] m unfolding mounted_def by auto
  finally show ?thesis .
qed

text \<open>C5: end to end, for any list of files the format can hold: build the image, mount it,
  \<open>openat\<close> a file of it by name from user memory, and the program gets descriptor 3;
  \<open>fstat\<close> reports the file's size; and any sequence of \<open>read\<close>s into non-null buffers
  delivers, in order, the bytes the file had on the build host, up to the total asked
  for.\<close>

theorem ramdisk_read_back:
  assumes "lfs_files fs" "build_lfs1 fs = Some img"
    "find (\<lambda>f. bf_name f = name) fs = Some f" "plain_name name"
    "read_cstr (umem k0) ptr = Some name" "ptr \<noteq> 0" "flags AND O_DIRECTORY = 0"
    "\<forall>(buf, len) \<in> set cs. buf \<noteq> 0" "sp \<noteq> 0"
  shows "\<exists>k k1. kcall SYS_OPENAT AT_FDCWD ptr flags mode 0 0 (set_rootfs img k0) = Done 3 k \<and>
    fst (read_chunks 3 cs k) = take (\<Sum>c\<leftarrow>cs. unat (snd c)) (bf_data f) \<and>
    kcall SYS_FSTAT 3 sp 0 0 0 0 k = Done 0 k1 \<and>
    unat (from_le (mem_read (umem k1) (sp + 48) 8) :: u64) = length (bf_data f)"
proof -
  let ?e = "File (bf_data f) (length (bf_data f)) 0 (bf_mode f)"
  let ?b = "set_rootfs img k0"
  let ?k = "opened img f k0"
  have inv: "fd_inv ?b" by (rule fd_inv_set_rootfs)
  have opn: "sys_openat AT_FDCWD ptr flags mode ?b = (3, ?k)"
    by (rule open_mounted [OF assms(1-7)])
  then have opened: "kcall SYS_OPENAT AT_FDCWD ptr flags mode 0 0 ?b = Done 3 ?k"
    by (simp add: dispatch_def sys_nrs)
  have inv': "fd_inv ?k" 
    using fds.I_openat [OF inv, of AT_FDCWD ptr flags mode] unfolding opn by simp
  have e: "fd_table ?k ! unat (3 :: u64) = ?e" using set_fd_same [OF inv, of 3] by simp
  have "fst (read_chunks 3 cs ?k) = take (\<Sum>c\<leftarrow>cs. unat (snd c)) (bf_data f)"
    using read_chunks_take [OF inv' _ e assms(8)] by simp
  moreover define k1 where "k1 = snd (write_stat sp False (length (bf_data f)) (bf_mode f) 2 ?k)"
  have l: "length (bf_data f) < u32_bound"
    using fd_inv_entry [OF inv', of "unat (3 :: u64)"] unfolding e by simp
  have "kcall SYS_FSTAT 3 sp 0 0 0 0 ?k = Done 0 k1"
    using e assms(9)
    by (simp add: dispatch_def sys_nrs sys_fstat_def sys_consts k1_def write_stat_def)
  moreover have "unat (from_le (mem_read (umem k1) (sp + 48) 8) :: u64) = length (bf_data f)"
    using l write_stat_size [OF l] unfolding k1_def by simp
  ultimately show ?thesis using opened by blast
qed

text \<open>One file, for the witnesses.\<close>

definition demo_files :: "BuildFile list" where
  "demo_files = [\<lparr>bf_name = str ''init'', bf_mode = 0x1ED, bf_data = [1, 2, 3]\<rparr>]"

lemma demo_files_ok: "lfs_files demo_files"
  by (simp add: demo_files_def lfs_files_def str_def utf8_valid_ascii data_bytes_def)

lemma demo_image: "\<exists>img. build_lfs1 demo_files = Some img"
  using build_layout [of demo_files] demo_files_ok by (auto simp: lfs_files_def)

lemma demo_name:
  "find (\<lambda>f. bf_name f = str ''init'') demo_files = Some (hd demo_files)" "plain_name (str ''init'')"
  "read_cstr (umem (poke 0x1000 (str ''init'' @ [0]) k)) 0x1000 = Some (str ''init'')"
proof -
  show "find (\<lambda>f. bf_name f = str ''init'') demo_files = Some (hd demo_files)"
    by (simp add: demo_files_def)
  show "plain_name (str ''init'')"
    by (simp add: plain_name_def graphic_def str_def contains_slash_def)
  show "read_cstr (umem (poke 0x1000 (str ''init'' @ [0]) k)) 0x1000 = Some (str ''init'')"
    by (rule read_cstr_poke) (simp_all add: graphic_def str_def)
qed

text \<open>A reachable kernel in which the file is open as descriptor 3.\<close>

lemma demo_opened:
  assumes "build_lfs1 demo_files = Some img"
  shows "sys_reach (opened img (hd demo_files) (poke 0x1000 (str ''init'' @ [0]) (boot_kernel (\<lambda>_. 0))))"
proof -
  let ?k0 = "poke 0x1000 (str ''init'' @ [0]) (boot_kernel (\<lambda>_. 0))"
  obtain h where "fs_header img = Inr h"
    using build_header [OF demo_files_ok assms] by blast
  then have m: "sys_reach (set_rootfs img ?k0)"
    by (rule sys_reach.mount [OF sys_reach.store [OF sys_reach.boot]])
  have "sys_openat AT_FDCWD 0x1000 0 0 (set_rootfs img ?k0) = (3, opened img (hd demo_files) ?k0)"
    using demo_name by (intro open_mounted [OF demo_files_ok assms]) simp_all
  then have "kcall SYS_OPENAT AT_FDCWD 0x1000 0 0 0 0 (set_rootfs img ?k0) =
      Done 3 (opened img (hd demo_files) ?k0)"
    by (simp add: dispatch_def sys_nrs)
  then show ?thesis by (rule sys_reach.call [OF m])
qed

theorem reachable_descriptors_witness:
  "\<exists>k img off. sys_reach k \<and> length (fd_table k) = 64 \<and> (\<forall>i < 3. fd_table k ! i = Free) \<and>
     fd_table k ! 3 = File [1, 2, 3] 3 0 0x1ED \<and> rootfs k = Some img \<and>
     off + 3 \<le> length img \<and> [1, 2, 3] = sub_slice off 3 img"
proof -
  obtain img where img: "build_lfs1 demo_files = Some img" using demo_image by blast
  let ?k = "opened img (hd demo_files) (poke 0x1000 (str ''init'' @ [0]) (boot_kernel (\<lambda>_. 0)))"
  have "fd_table ?k ! 3 = File [1, 2, 3] 3 0 0x1ED" "rootfs ?k = Some img"
    by (simp_all add: set_fd_def set_rootfs_def demo_files_def sys_consts)
  note k = this and r = reachable_descriptors [OF demo_opened [OF img]]
  have "\<exists>img off. rootfs ?k = Some img \<and> off + 3 \<le> length img \<and> [1, 2, 3] = sub_slice off 3 img"
    using r [THEN conjunct2, THEN conjunct2, rule_format, OF _ k(1)] by simp
  with k(1) r [THEN conjunct1] r [THEN conjunct2, THEN conjunct1] demo_opened [OF img]
  show ?thesis by blast
qed

theorem ramdisk_read_back_witness:
  "\<exists>img k k1. build_lfs1 demo_files = Some img \<and>
    kcall SYS_OPENAT AT_FDCWD 0x1000 0 0 0 0
      (set_rootfs img (poke 0x1000 (str ''init'' @ [0]) (boot_kernel (\<lambda>_. 0)))) = Done 3 k \<and>
    fst (read_chunks 3 [(0x2000, 2), (0x3000, 9)] k) =
      take (\<Sum>c\<leftarrow>[(0x2000, 2), (0x3000 :: u64, 9 :: u64)]. unat (snd c)) (bf_data (hd demo_files)) \<and>
    kcall SYS_FSTAT 3 0x4000 0 0 0 0 k = Done 0 k1 \<and>
    unat (from_le (mem_read (umem k1) (0x4000 + 48) 8) :: u64) = length (bf_data (hd demo_files))"
proof -
  obtain img where img: "build_lfs1 demo_files = Some img" using demo_image by blast
  let ?k0 = "poke 0x1000 (str ''init'' @ [0]) (boot_kernel (\<lambda>_. 0))"
  have "\<exists>k k1. kcall SYS_OPENAT AT_FDCWD 0x1000 0 0 0 0 (set_rootfs img ?k0) = Done 3 k \<and>
    fst (read_chunks 3 [(0x2000, 2), (0x3000, 9)] k) =
      take (\<Sum>c\<leftarrow>[(0x2000, 2), (0x3000 :: u64, 9 :: u64)]. unat (snd c)) (bf_data (hd demo_files)) \<and>
    kcall SYS_FSTAT 3 0x4000 0 0 0 0 k = Done 0 k1 \<and>
    unat (from_le (mem_read (umem k1) (0x4000 + 48) 8) :: u64) = length (bf_data (hd demo_files))"
  proof (rule ramdisk_read_back [OF demo_files_ok img])
  qed (use demo_name in simp_all)
  with img show ?thesis by blast
qed

text \<open>The entries of a ram disk's root directory, in the order of the image.\<close>

definition root_dirents :: "BuildFile list \<Rightarrow> (bytes \<times> u8 \<times> u64) list" where
  "root_dirents fs =
     [(str ''.'', DT_DIR, 1), (str ''..'', DT_DIR, 1)] @
     map (\<lambda>i. (bf_name (fs ! i), DT_REG, of_nat (i + 2))) [0..<length fs]"

definition root_records :: "BuildFile list \<Rightarrow> bytes list" where
  "root_records fs = map (\<lambda>i. dirent_bytes (root_dirents fs ! i) i) [0..<length fs + 2]"

lemma length_root_dirents [simp]: "length (root_dirents fs) = length fs + 2"
  by (simp add: root_dirents_def)

lemma root_entries_build:
  assumes "lfs_files fs" "build_lfs1 fs = Some img" "rootfs k = Some img"
  shows "root_entries_count k = length fs + 2"
  using build_header [OF assms(1,2)] assms(1,3)
  by (simp add: root_entries_count_def lfs_files_def unat_of_nat)

lemma dirent_at_build:
  assumes "lfs_files fs" "build_lfs1 fs = Some img" "rootfs k = Some img" "i < length fs + 2"
  shows "dirent_at k i = Some (root_dirents fs ! i)"
proof -
  have n: "length fs < 65536" using assms(1) by (simp add: lfs_files_def)
  consider "i = 0" | "i = 1" | j where "i = j + 2" "j < length fs"
    using assms(4) by (metis One_nat_def add_2_eq_Suc' add_less_cancel_right not0_implies_Suc)
  then show ?thesis
  proof cases
    case 3
    have "fs_entry img j = Inr (record_of (fs ! j))"
      using build_header [OF assms(1,2)] build_entry [OF assms(1,2) 3(2)] 3(2) n
      by (simp add: fs_entry_def unat_of_nat)
    then have "root_name_by_index k j = Some (bf_name (fs ! j))"
      by (simp add: root_name_by_index_def assms(3) record_of_def)
    then show ?thesis using 3
      by (simp add: dirent_at_def root_dirents_def Let_def nth_append)
  qed (simp_all add: dirent_at_def root_dirents_def)
qed

lemma dir_records_build:
  assumes "lfs_files fs" "build_lfs1 fs = Some img" "rootfs k = Some img"
  shows "pos + r = length fs + 2 \<Longrightarrow> dir_records k pos r = drop pos (root_records fs)"
proof (induction r arbitrary: pos)
  case 0
  then show ?case by (simp add: root_records_def)
next
  case (Suc r)
  then have "drop pos (root_records fs) =
      dirent_bytes (root_dirents fs ! pos) pos # drop (Suc pos) (root_records fs)"
    by (subst Cons_nth_drop_Suc [symmetric]) (simp_all add: root_records_def del: upt_Suc)
  with Suc dirent_at_build [OF assms, of pos] show ?case by simp
qed

lemma fitting_0_iff: "fitting c bs = [] \<longleftrightarrow> bs = [] \<or> c < length (hd bs)"
  by (cases bs) auto

text \<open>C10: on a mounted ram disk, \<open>getdents64\<close> from position \<open>pos\<close> writes, back to back,
  the records of \<open>.\<close>, \<open>..\<close> and the files in image order that come after the
  first \<open>pos\<close>: as many whole ones as fit. It returns their bytes and advances the
  position past exactly these, so repeated calls list every name once; it returns 0 at the
  end and \<open>EINVAL\<close> when not even one record fits.\<close>

theorem getdents_lists_ramdisk:
  assumes "lfs_files fs" "build_lfs1 fs = Some img" "rootfs k = Some img"
    "fd_table k ! unat fd = RootDir pos" "unat fd < 64" "dirp \<noteq> 0"
  shows "kcall SYS_GETDENTS64 fd dirp count a3 a4 a5 k =
    (let rest = drop (unat pos) (root_records fs); recs = fitting (unat count) rest
     in if rest = [] then Done 0 k
        else if recs = [] then Done (- EINVAL) k
        else Done (of_nat (length (concat recs)))
          (set_fd (unat fd) (RootDir (of_nat (unat pos + length recs)))
            (poke dirp (concat recs) k)))"
proof -
  note cnt = root_entries_build [OF assms(1-3)]
  have len: "length (root_records fs) = length fs + 2" by (simp add: root_records_def)
  let ?call = "sys_getdents64 fd dirp count k"
  have call: "kcall SYS_GETDENTS64 fd dirp count a3 a4 a5 k = ret ?call"
    by (simp add: dispatch_def sys_nrs)
  show ?thesis
  proof (cases "unat pos < length fs + 2")
    case False
    then show ?thesis using assms(4-6) len
      by (simp add: call sys_getdents64_def sys_consts cnt)
  next
    case True
    define rest where "rest = drop (unat pos) (root_records fs)"
    define r where "r = Suc (Suc (length fs)) - unat pos"
    have d: "dir_records k (unat pos) r = rest"
      unfolding rest_def using True by (intro dir_records_build [OF assms(1-3)]) (simp add: r_def)
    have ne: "rest \<noteq> []" using True len by (simp add: rest_def)
    have "getdents_loop k dirp (unat count) r (unat pos) 0 (umem k) =
      (mem_write (umem k) dirp (concat (fitting (unat count) rest)),
       unat pos + length (fitting (unat count) rest),
       if fitting (unat count) rest = [] then None
       else Some (length (concat (fitting (unat count) rest))))"
      using getdents_loop_spec [of 0 "unat count" k dirp r "unat pos" "umem k"] ne
      by (simp add: d)
    then show ?thesis using assms(4-6) True ne
      by (simp add: call sys_getdents64_def sys_consts cnt Let_def poke_def
          flip: r_def rest_def)
  qed
qed

theorem getdents_lists_ramdisk_witness:
  "\<exists>img. build_lfs1 demo_files = Some img \<and>
    (let k = set_fd 3 (RootDir 0) (set_rootfs img (boot_kernel (\<lambda>_. 0))) in
     kcall SYS_GETDENTS64 3 0x2000 60 0 0 0 k =
      (let rest = drop (unat (0 :: u64)) (root_records demo_files);
           recs = fitting (unat (60 :: u64)) rest
       in if rest = [] then Done 0 k
          else if recs = [] then Done (- EINVAL) k
          else Done (of_nat (length (concat recs)))
            (set_fd (unat (3 :: u64)) (RootDir (of_nat (unat (0 :: u64) + length recs)))
              (poke 0x2000 (concat recs) k))))"
proof -
  obtain img where img: "build_lfs1 demo_files = Some img" using demo_image by blast
  define k where "k = set_fd 3 (RootDir 0) (set_rootfs img (boot_kernel (\<lambda>_. 0)))"
  have "rootfs k = Some img" "fd_table k ! unat (3 :: u64) = RootDir 0"
    by (simp_all add: k_def set_fd_def set_rootfs_def sys_consts)
  then have "kcall SYS_GETDENTS64 3 0x2000 60 0 0 0 k =
      (let rest = drop (unat (0 :: u64)) (root_records demo_files);
           recs = fitting (unat (60 :: u64)) rest
       in if rest = [] then Done 0 k
          else if recs = [] then Done (- EINVAL) k
          else Done (of_nat (length (concat recs)))
            (set_fd (unat (3 :: u64)) (RootDir (of_nat (unat (0 :: u64) + length recs)))
              (poke 0x2000 (concat recs) k)))"
    by (intro getdents_lists_ramdisk [OF demo_files_ok img]) simp_all
  with img show ?thesis unfolding k_def Let_def by blast
qed

end
