(* ===== verification/Interp_Props.thy ===== *)
theory Interp_Props
  imports Interp_Isa Guest_Stack Syscall_Props
begin

text \<open>
  The properties of the interpreter: instructions against the instruction set, isolation of
  the guest, the run loop as a step relation, nested \<open>execve\<close>, and what a whole run leaves
  of the kernel.
\<close>

unbundle bit_operations_syntax

section \<open>Instructions\<close>


text \<open>A runner for programs that start no other, and a machine that is about to execute \<open>code\<close>, at the start of a memory of 64 bytes.\<close>

definition no_exec :: runner where
  "no_exec img argv envp con = Hang"

definition at_code :: "bytes \<Rightarrow> machine" where
  "at_code code = start_cpu 0x400030 0x400000 (code @ replicate (64 - length code) 0x90)
     ([], boot_kernel (\<lambda>_. 0))"

lemma at_code_fetch:
  assumes "length code \<le> 8"
  shows "read_bytes 0x400000 (gmem (at_code code)) (rip (at_code code)) =
    Inr (code @ replicate (8 - length code) 0x90)"
proof -
  let ?m = "code @ replicate (64 - length code) (0x90 :: u8)"
  have s: "sub_slice 0 8 ?m = code @ replicate (8 - length code) 0x90"
    using assms by (simp add: sub_slice_def)
  have "put_slice (replicate 8 0) 0 (code @ replicate (8 - length code) 0x90) =
      code @ replicate (8 - length code) (0x90 :: u8)"
    using assms by (simp add: put_slice_def)
  with s assms show ?thesis
    by (simp add: at_code_def start_cpu_def read_bytes_def va_to_index_def)
qed


text \<open>C18: an instruction other than \<open>syscall\<close> touches neither the kernel's state nor the
  terminal, and cannot change the size of the guest memory, whatever its bytes and the
  registers are; this also holds of the state it leaves behind when it fails.\<close>

theorem plain_instructions_sandboxed:
  assumes "read_bytes base (gmem s) (rip s) = Inr b" "\<not> (b ! 0 = 0x0F \<and> b ! 1 = 0x05)"
  shows "state_ok (outside_same s) (exec_one nested base tmp s)"
proof -
  have "exec_syscall nested base tmp b s = None" using assms(2) by (simp add: exec_syscall_def)
  then have "opt_ok (outside_same s)
      (or_else (exec_plain base b s) (or_else (exec_syscall nested base tmp b s) (exec_jumps base b s)))"
    by (intro opt_ok_or_else exec_plain_ok exec_jumps_ok) simp
  then show ?thesis
    unfolding exec_one_fetched [OF assms(1)] unsupported_def by (auto split: option.split)
qed

theorem plain_instructions_sandboxed_witness:
  "state_ok (outside_same (at_code [0x50])) (exec_one no_exec 0x400000 0x9000 (at_code [0x50]))"
  by (rule plain_instructions_sandboxed, rule at_code_fetch) simp_all

text \<open>C21: what \<open>push\<close> stores, \<open>pop\<close> gives back: after a push that succeeded, a pop
  returns the value, restores the stack pointer, and no word that does not overlap the
  pushed one has changed.\<close>

theorem push_pop_roundtrip:
  assumes "push_u64 base v s = Done () s1"
  shows "pop_u64 base s1 = Done v (s1\<lparr>rsp := rsp s\<rparr>) \<and> unat (rsp s1) + 8 = unat (rsp s) \<and>
    (\<forall>a. 8 \<le> unat (rsp s1 - a) \<longrightarrow> 8 \<le> unat (a - rsp s1) \<longrightarrow>
       read_u64 base (gmem s1) a = read_u64 base (gmem s) a)"
proof -
  from assms obtain p m where sub: "checked_sub_u64 (rsp s) 8 = Some p"
    and w: "write_u64 base (gmem s) p v = Inr m" and s1: "s1 = s\<lparr>gmem := m, rsp := p\<rparr>"
    by (cases "checked_sub_u64 (rsp s) 8"; cases "write_u64 base (gmem s) (the (checked_sub_u64 (rsp s) 8)) v")
      (auto simp: push_u64_def)
  from sub have p: "p = rsp s - 8" "8 \<le> unat (rsp s)" by (auto simp: checked_sub_Some)
  then have up: "unat p + 8 = unat (rsp s)" by (simp add: unat_sub word_le_nat_alt)
  have "checked_add_u64 p 8 = Some (rsp s)"
    using up unat_u64_bound [of "rsp s"] p by (simp add: checked_add_u64_def)
  then have "pop_u64 base s1 = Done v (s1\<lparr>rsp := rsp s\<rparr>)"
    using guest.rd_wr_same [OF w] by (simp add: pop_u64_def s1)
  with up guest.rd_wr_other [OF w] show ?thesis by (simp add: s1)
qed

theorem push_pop_roundtrip_witness:
  "let s = at_code []; s1 = s\<lparr>gmem := put_slice (gmem s) 40 (to_le 8 (7 :: u64)), rsp := 0x400028\<rparr> in
   pop_u64 0x400000 s1 = Done 7 (s1\<lparr>rsp := rsp s\<rparr>) \<and> unat (rsp s1) + 8 = unat (rsp s) \<and>
    (\<forall>a. 8 \<le> unat (rsp s1 - a) \<longrightarrow> 8 \<le> unat (a - rsp s1) \<longrightarrow>
       read_u64 0x400000 (gmem s1) a = read_u64 0x400000 (gmem s) a)"
  unfolding Let_def
  by (rule push_pop_roundtrip)
    (simp add: push_u64_def at_code_def start_cpu_def checked_sub_u64_def write_u64_def
      span_index_def va_to_index_def checked_add_usize_def)

section \<open>The run loop as a step relation\<close>

text \<open>\<open>runs step n s s'\<close>: \<open>n\<close> instructions, none of which ends the program.\<close>

inductive runs :: "(machine \<Rightarrow> bool mrun) \<Rightarrow> nat \<Rightarrow> machine \<Rightarrow> machine \<Rightarrow> bool" for step where
  here: "runs step 0 s s"
| go: "step s = Done False s1 \<Longrightarrow> runs step n s1 s2 \<Longrightarrow> runs step (Suc n) s s2"

inductive_cases runs_SucE: "runs step (Suc n) s s'"
inductive_simps runs_0 [simp]: "runs step 0 s s'"

lemma runs_Suc: "runs step (Suc n) s s' \<longleftrightarrow> (\<exists>s1. step s = Done False s1 \<and> runs step n s1 s')"
  by (auto elim: runs_SucE intro: runs.go)

lemma runs_determ: "runs step n s a \<Longrightarrow> runs step n s b \<Longrightarrow> a = b"
  by (induction rule: runs.induct) (auto simp: runs_Suc)

lemma ex_less_Suc0: "(\<exists>n < Suc N. P n) \<longleftrightarrow> P 0 \<or> (\<exists>n < N. P (Suc n))"
  using less_Suc_eq_0_disj by auto

lemma run_steps_iff:
  "run_steps step N s = r \<longleftrightarrow>
     (\<exists>n < N. \<exists>s1. runs step n s s1 \<and>
        ((\<exists>s2. step s1 = Done True s2 \<and> r = Done () s2) \<or>
         (\<exists>e s2. step s1 = Fail e s2 \<and> r = Fail e s2) \<or>
         (step s1 = Panic \<and> r = Panic) \<or> (step s1 = Hang \<and> r = Hang))) \<or>
     (\<exists>s1. runs step N s s1 \<and> r = Fail (StepLimit MAX_STEPS (rip s1)) s1)"
proof (induction N arbitrary: s)
  case 0
  then show ?case by auto
next
  case (Suc N)
  show ?case
  proof (cases "step s")
    case (Done b s1)
    then show ?thesis
      by (cases b) (auto simp: ex_less_Suc0 runs_Suc Suc.IH [of s1])
  qed (auto simp: ex_less_Suc0 runs_Suc)
qed


section \<open>Nested programs\<close>

definition upto_hang :: "('e, 's, 'a) run \<Rightarrow> ('e, 's, 'a) run \<Rightarrow> bool" where
  "upto_hang x y \<longleftrightarrow> x = Hang \<or> x = y"

definition runner_le :: "runner \<Rightarrow> runner \<Rightarrow> bool" where
  "runner_le f g \<longleftrightarrow> (\<forall>img argv envp con. upto_hang (f img argv envp con) (g img argv envp con))"

lemma upto_refl [simp]: "upto_hang x x"
  by (simp add: upto_hang_def)

lemma upto_and_then:
  "upto_hang x y \<Longrightarrow> (\<And>v s. upto_hang (f v s) (g v s)) \<Longrightarrow> upto_hang (and_then x f) (and_then y g)"
  by (cases x; cases y) (auto simp: upto_hang_def)

lemma upto_with_res: "(\<And>x. upto_hang (f x) (g x)) \<Longrightarrow> upto_hang (with_res s r f) (with_res s r g)"
  by (cases r) auto

lemma upto_or_panic: "(\<And>x. upto_hang (f x) (g x)) \<Longrightarrow> upto_hang (or_panic r f) (or_panic r g)"
  by (cases r) auto

lemma upto_with_mem: "(\<And>x m. upto_hang (f x m) (g x m)) \<Longrightarrow> upto_hang (with_mem con r f) (with_mem con r g)"
  by (cases r) auto

lemma upto_finish: "upto_hang x y \<Longrightarrow> upto_hang (finish x) (finish y)"
  by (auto simp: upto_hang_def)

lemma upto_if: "upto_hang x x' \<Longrightarrow> upto_hang y y' \<Longrightarrow> upto_hang (if c then x else y) (if c then x' else y')"
  by simp

lemma guest_execve_le:
  assumes "runner_le f g"
  shows "upto_hang (guest_execve f base s) (guest_execve g base s)"
proof -
  have call: "upto_hang (exec_result s (f i a e c)) (exec_result s (g i a e c))" for s i a e c
    using assms unfolding runner_le_def upto_hang_def by (metis exec_result.simps(4))
  have inner: "upto_hang
      (case fs_open im n of Inl _ \<Rightarrow> ret_rax False (- ENOENT) s
       | Inr rec \<Rightarrow>
          (let a = (if argv = [] then [n] else argv); k = mark_exit_code 0 (kern s)
           in exec_result s (f (fr_data rec) a envp (screen s, k))))
      (case fs_open im n of Inl _ \<Rightarrow> ret_rax False (- ENOENT) s
       | Inr rec \<Rightarrow>
          (let a = (if argv = [] then [n] else argv); k = mark_exit_code 0 (kern s)
           in exec_result s (g (fr_data rec) a envp (screen s, k))))" for im n argv envp s
    by (cases "fs_open im n") (simp_all only: sum.case Let_def upto_refl call)
  have opt: "upto_hang (case x of None \<Rightarrow> a | Some v \<Rightarrow> F v) (case x of None \<Rightarrow> a | Some v \<Rightarrow> G v)"
    if "\<And>v. upto_hang (F v) (G v)" for x :: "'x option" and a :: "bool mrun" and F G
    using that by (cases x) simp_all
  show ?thesis
    unfolding guest_execve_def
    by (intro upto_with_res opt upto_and_then upto_refl inner)
qed

lemma exec_one_le:
  assumes "runner_le f g"
  shows "upto_hang (exec_one f base tmp s) (exec_one g base tmp s)"
proof -
  have "upto_hang (handle_syscall f base tmp s) (handle_syscall g base tmp s)"
    unfolding handle_syscall_def Let_def
    by (intro upto_if upto_refl guest_execve_le [OF assms])
  then have sys: "exec_syscall f base tmp b s = None \<and> exec_syscall g base tmp b s = None \<or>
      (\<exists>x y. exec_syscall f base tmp b s = Some x \<and> exec_syscall g base tmp b s = Some y \<and>
        upto_hang x y)" for b
    by (auto simp: exec_syscall_def intro!: upto_and_then)
  show ?thesis
    unfolding exec_one_def
  proof (rule upto_with_res)
    fix b
    show "upto_hang
        (case or_else (exec_plain base b s) (or_else (exec_syscall f base tmp b s) (exec_jumps base b s)) of
           Some r \<Rightarrow> r | None \<Rightarrow> Fail (UnsupportedInstruction (rip s) b) s)
        (case or_else (exec_plain base b s) (or_else (exec_syscall g base tmp b s) (exec_jumps base b s)) of
           Some r \<Rightarrow> r | None \<Rightarrow> Fail (UnsupportedInstruction (rip s) b) s)"
      using sys [of b] by (cases "exec_plain base b s") auto
  qed
qed

lemma run_steps_le:
  "(\<And>s. upto_hang (f s) (g s)) \<Longrightarrow> upto_hang (run_steps f n s) (run_steps g n s)"
  by (induction n arbitrary: s) (auto intro!: upto_and_then)

lemma load_and_run_le: "runner_le f g \<Longrightarrow> runner_le (load_and_run f tmp) (load_and_run g tmp)"
  unfolding runner_le_def load_and_run_def Let_def
  by (intro allI upto_with_res upto_if upto_refl)
    (auto intro!: upto_with_res upto_with_mem upto_or_panic upto_finish run_steps_le exec_one_le
      simp: runner_le_def split: prod.split)

lemma runner_Suc: "run_linux_elf_with_args (Suc d) tmp = load_and_run (run_linux_elf_with_args d tmp) tmp"
  by (intro ext) simp

lemma runner_mono: "runner_le (run_linux_elf_with_args d tmp) (run_linux_elf_with_args (Suc d) tmp)"
proof (induction d)
  case 0
  show ?case by (simp add: runner_le_def upto_hang_def)
next
  case (Suc d)
  show ?case using load_and_run_le [OF Suc, of tmp] by (simp only: runner_Suc)
qed



section \<open>Whole runs\<close>



end
