(* ===== verification/Allocator.thy ===== *)
theory Allocator
  imports Prelude
begin

text \<open>
  The kernel heap (\<open>kernel/src/allocator.rs\<close>): a bump allocator whose only shared word
  is advanced by compare-and-exchange. A call of \<open>alloc\<close> is a small state machine whose
  steps are its atomic accesses, so calls of several contexts (or of an interrupt handler)
  interleave; \<open>heap_step\<close> runs any number of them.
\<close>

unbundle bit_operations_syntax

section \<open>The allocator\<close>

definition HEAP_SIZE :: u64 where "HEAP_SIZE = 32 * 1024 * 1024"

record BumpAllocator =
  heap_start :: u64
  heap_end :: u64
  next_free :: u64
  initialized :: bool

definition new_allocator :: BumpAllocator where
  "new_allocator = \<lparr>heap_start = 0, heap_end = 0, next_free = 0, initialized = False\<rparr>"

text \<open>\<open>init\<close>; the sum of the address and the size panics on overflow.\<close>

definition init_allocator :: "u64 \<Rightarrow> u64 \<Rightarrow> BumpAllocator \<Rightarrow> BumpAllocator option" where
  "init_allocator start sz b =
     (case checked_add_u64 start sz of
        None \<Rightarrow> None
      | Some e \<Rightarrow> Some (b\<lparr>heap_start := start, heap_end := e, next_free := start, initialized := True\<rparr>))"

text \<open>\<open>heap\<close> is the address of the static \<open>HEAP\<close>.\<close>

definition init_heap :: "u64 \<Rightarrow> BumpAllocator \<Rightarrow> BumpAllocator option" where
  "init_heap heap b = (if initialized b then Some b else init_allocator heap HEAP_SIZE b)"

text \<open>\<open>(addr + align - 1) & !(align - 1)\<close>, with its overflow checks.\<close>

definition align_up :: "u64 \<Rightarrow> u64 \<Rightarrow> u64 option" where
  "align_up addr align =
     (case checked_add_u64 addr align of
        None \<Rightarrow> None
      | Some s \<Rightarrow>
          (case (checked_sub_u64 s 1, checked_sub_u64 align 1) of
             (Some t, Some m) \<Rightarrow> Some (t AND NOT m)
           | _ \<Rightarrow> None))"

text \<open>\<open>core::alloc::Layout\<close>: alignments are powers of two.\<close>

record layout =
  lay_size :: u64
  lay_align :: u64

definition layout_ok :: "layout \<Rightarrow> bool" where
  "layout_ok l \<longleftrightarrow> (\<exists>n < 64. lay_align l = 2 ^ n)"

text \<open>
  Where a call of \<open>alloc\<close> is: before it loads \<open>initialized\<close>, \<open>heap_end\<close>, \<open>next\<close>; in
  the loop, with \<open>heap_end\<close> and \<open>current\<close>; returned (0 is null); or in the panic handler.
\<close>

datatype alloc_pc = Enter | LoadEnd | LoadNext u64 | Exchange u64 u64 | Return u64 | Panicked

fun finished :: "alloc_pc \<Rightarrow> bool" where
  "finished (Return p) = True"
| "finished Panicked = True"
| "finished _ = False"

text \<open>One atomic access, with the computation that follows it.\<close>

fun alloc_step :: "layout \<Rightarrow> alloc_pc \<Rightarrow> BumpAllocator \<Rightarrow> BumpAllocator \<times> alloc_pc" where
  "alloc_step l Enter b = (b, if initialized b then LoadEnd else Return 0)"
| "alloc_step l LoadEnd b = (b, LoadNext (heap_end b))"
| "alloc_step l (LoadNext e) b = (b, Exchange e (next_free b))"
| "alloc_step l (Exchange e current) b =
     (case align_up current (lay_align l) of
        None \<Rightarrow> (b, Panicked)
      | Some alloc_start \<Rightarrow>
          (case checked_add_u64 alloc_start (lay_size l) of
             None \<Rightarrow> (b, Return 0)
           | Some alloc_end \<Rightarrow>
               if alloc_end > e then (b, Return 0)
               else if next_free b = current
                    then (b\<lparr>next_free := alloc_end\<rparr>, Return alloc_start)
                    else (b, Exchange e (next_free b))))"
| "alloc_step l (Return p) b = (b, Return p)"
| "alloc_step l Panicked b = (b, Panicked)"

text \<open>\<open>dealloc\<close> does nothing.\<close>

definition dealloc :: "u64 \<Rightarrow> layout \<Rightarrow> BumpAllocator \<Rightarrow> BumpAllocator" where
  "dealloc p l b = b"

section \<open>Concurrent calls\<close>

type_synonym heap_state = "BumpAllocator \<times> (layout \<times> alloc_pc) list"

inductive heap_step :: "heap_state \<Rightarrow> heap_state \<Rightarrow> bool" where
  call: "layout_ok l \<Longrightarrow> heap_step (b, cs) (b, cs @ [(l, Enter)])"
| atomic: "i < length cs \<Longrightarrow> cs ! i = (l, p) \<Longrightarrow> \<not> finished p \<Longrightarrow> alloc_step l p b = (b', p') \<Longrightarrow>
    heap_step (b, cs) (b', cs[i := (l, p')])"
| free: "heap_step (b, cs) (dealloc p l b, cs)"

inductive_cases heap_stepE: "heap_step s s'"

inductive heap_reach :: "u64 \<Rightarrow> heap_state \<Rightarrow> bool" for heap :: u64 where
  boot: "init_heap heap new_allocator = Some b \<Longrightarrow> heap_reach heap (b, [])"
| step: "heap_reach heap s \<Longrightarrow> heap_step s s' \<Longrightarrow> heap_reach heap s'"

section \<open>Rounding up\<close>

lemma unat_pow2: "n < 64 \<Longrightarrow> unat (2 ^ n :: u64) = 2 ^ n"
proof -
  assume "n < 64"
  then have "(2 :: nat) ^ n < 2 ^ 64" by (intro power_strict_increasing) simp_all
  then have "unat (of_nat (2 ^ n) :: u64) = 2 ^ n" by (intro unat_of_nat_u64) simp
  then show ?thesis by simp
qed

lemma align_up_unat:
  assumes "align_up addr (2 ^ n) = Some s" "n < 64"
  shows "unat s = (unat addr + (2 ^ n - 1)) div 2 ^ n * 2 ^ n" "2 ^ n dvd unat s" "addr \<le> s"
proof -
  have pow: "unat (2 ^ n :: u64) = 2 ^ n"
    by (rule unat_pow2 [OF assms(2)])
  obtain t where t: "checked_add_u64 addr (2 ^ n) = Some t"
    using assms(1) by (cases "checked_add_u64 addr (2 ^ n)") (simp_all add: align_up_def)
  have "(1 :: nat) \<le> 2 ^ n" by simp
  then have one: "checked_sub_u64 t 1 = Some (t - 1)" "checked_sub_u64 (2 ^ n) 1 = Some (2 ^ n - 1)"
    using checked_add_u64_unat [OF t] pow
    by (auto simp: checked_sub_u64_def word_le_nat_alt Suc_le_eq)
  have s: "s = (t - 1) AND NOT (mask n)"
    using assms(1) t one by (simp add: align_up_def mask_eq_exp_minus_1)
  have "unat (t - 1) = unat addr + (2 ^ n - 1)"
    using checked_sub_u64_unat [OF one(1)] checked_add_u64_unat [OF t] pow by simp
  then show u: "unat s = (unat addr + (2 ^ n - 1)) div 2 ^ n * 2 ^ n"
    unfolding s using unat_align [OF assms(2), of "t - 1"] by simp
  then show "2 ^ n dvd unat s" by simp
  have "unat addr \<le> (unat addr + (2 ^ n - 1)) div 2 ^ n * 2 ^ n"
  proof -
    have "unat addr + (2 ^ n - 1) < (unat addr + (2 ^ n - 1)) div 2 ^ n * 2 ^ n + 2 ^ n"
      by (metis add.commute div_mult_mod_eq mod_less_divisor nat_add_left_cancel_less zero_less_numeral zero_less_power)
    then show ?thesis by simp
  qed
  with u show "addr \<le> s" by (simp add: word_le_nat_alt)
qed

section \<open>The invariant\<close>

text \<open>What a call knows of the allocator, and the blocks that were handed out.\<close>

fun pc_ok :: "BumpAllocator \<Rightarrow> layout \<Rightarrow> alloc_pc \<Rightarrow> bool" where
  "pc_ok b l (LoadNext e) = (e = heap_end b)"
| "pc_ok b l (Exchange e current) =
     (e = heap_end b \<and> heap_start b \<le> current \<and> current \<le> next_free b)"
| "pc_ok b l (Return p) =
     (p = 0 \<or> (unat (lay_align l) dvd unat p \<and> heap_start b \<le> p \<and>
        unat p + unat (lay_size l) \<le> unat (next_free b)))"
| "pc_ok b l _ = True"

fun is_block :: "alloc_pc \<Rightarrow> bool" where
  "is_block (Return p) = (p \<noteq> 0)"
| "is_block _ = False"

fun block_start :: "alloc_pc \<Rightarrow> nat" where
  "block_start (Return p) = unat p"
| "block_start _ = 0"

definition apart :: "layout \<times> alloc_pc \<Rightarrow> layout \<times> alloc_pc \<Rightarrow> bool" where
  "apart c d \<longleftrightarrow> is_block (snd c) \<longrightarrow> is_block (snd d) \<longrightarrow>
     block_start (snd c) + unat (lay_size (fst c)) \<le> block_start (snd d) \<or>
     block_start (snd d) + unat (lay_size (fst d)) \<le> block_start (snd c)"

definition heap_inv :: "u64 \<Rightarrow> heap_state \<Rightarrow> bool" where
  "heap_inv heap s \<longleftrightarrow>
     (let (b, cs) = s in
      initialized b \<and> heap_start b = heap \<and> unat (heap_end b) = unat heap + unat HEAP_SIZE \<and>
      heap \<le> next_free b \<and> next_free b \<le> heap_end b \<and>
      (\<forall>i < length cs. layout_ok (fst (cs ! i)) \<and> pc_ok b (fst (cs ! i)) (snd (cs ! i))) \<and>
      (\<forall>i < length cs. \<forall>j < length cs. i \<noteq> j \<longrightarrow> apart (cs ! i) (cs ! j)))"

lemma apart_sym: "apart c d \<Longrightarrow> apart d c"
  by (auto simp: apart_def)

lemma apart_no_block: "\<not> is_block (snd c) \<Longrightarrow> apart c d" "\<not> is_block (snd d) \<Longrightarrow> apart c d"
  by (auto simp: apart_def)

text \<open>The allocator only moves forward.\<close>

lemma pc_ok_mono:
  "pc_ok b l p \<Longrightarrow> next_free b \<le> n \<Longrightarrow> pc_ok (b\<lparr>next_free := n\<rparr>) l p"
  by (cases p) (auto simp: word_le_nat_alt)

text \<open>A step either takes no memory, or hands out a block between the old and the new
  \<open>next\<close>.\<close>

lemma alloc_step_cases:
  assumes "alloc_step l p b = (b', p')" "\<not> finished p" "pc_ok b l p" "layout_ok l"
    "heap_start b \<le> next_free b" "next_free b \<le> heap_end b"
  obtains (same) "b' = b" "pc_ok b l p'" "\<not> is_block p'"
    | (taken) a n where "b' = b\<lparr>next_free := n\<rparr>" "p' = Return a" "unat (lay_align l) dvd unat a"
        "next_free b \<le> a" "unat a + unat (lay_size l) = unat n" "n \<le> heap_end b"
proof (cases p)
  case (Exchange e cur)
  from assms(4) obtain k where k: "lay_align l = 2 ^ k" "k < 64" by (auto simp: layout_ok_def)
  show ?thesis
  proof (cases "align_up cur (lay_align l)")
    case None
    with assms(1) Exchange show ?thesis by (intro same) auto
  next
    case (Some a)
    note al = align_up_unat [OF Some [unfolded k(1)] k(2)]
    show ?thesis
    proof (cases "checked_add_u64 a (lay_size l)")
      case None
      with assms(1) Exchange Some show ?thesis by (intro same) auto
    next
      case e': (Some n)
      note n = checked_add_u64_unat [OF e']
      show ?thesis
      proof (cases "n > e \<or> next_free b \<noteq> cur")
        case True
        with assms(1,3,5) Exchange Some e' show ?thesis
          by (intro same) (auto split: if_splits)
      next
        case False
        with assms(1,3) Exchange Some e' n al k show ?thesis
          by (intro taken [of n a]) (auto simp: unat_pow2)
      qed
    qed
  qed
qed (use assms in \<open>auto intro: same\<close>)

lemma heap_inv_boot:
  assumes "init_heap heap new_allocator = Some b"
  shows "heap_inv heap (b, [])"
  using assms
  by (auto simp: init_heap_def new_allocator_def init_allocator_def heap_inv_def word_le_nat_alt
      dest: checked_add_u64_unat split: option.splits)

lemma heap_inv_step:
  assumes "heap_inv heap s" "heap_step s s'"
  shows "heap_inv heap s'"
  using assms(2)
proof (cases rule: heap_step.cases)
  case (call l b cs)
  with assms(1) show ?thesis
    by (auto simp: heap_inv_def nth_append apart_no_block less_Suc_eq split: if_splits)
next
  case (free b cs p l)
  with assms(1) show ?thesis by (simp add: dealloc_def)
next
  case (atomic i cs l p b b' p')
  let ?cs = "cs[i := (l, p')]"
  from assms(1) atomic(1) have inv: "initialized b" "heap_start b = heap"
      "unat (heap_end b) = unat heap + unat HEAP_SIZE" "heap \<le> next_free b" "next_free b \<le> heap_end b"
    and pcs: "\<And>j. j < length cs \<Longrightarrow> layout_ok (fst (cs ! j)) \<and> pc_ok b (fst (cs ! j)) (snd (cs ! j))"
    and ap: "\<And>j k. j < length cs \<Longrightarrow> k < length cs \<Longrightarrow> j \<noteq> k \<Longrightarrow> apart (cs ! j) (cs ! k)"
    by (auto simp: heap_inv_def)
  from pcs [OF atomic(3)] atomic(4) have ok: "layout_ok l" "pc_ok b l p" by simp_all
  from atomic(6,5) ok(2,1) inv(4)[folded inv(2)] inv(5)
  show ?thesis
  proof (cases rule: alloc_step_cases)
    case same
    have "apart (?cs ! j) (?cs ! k)" if "j < length cs" "k < length cs" "j \<noteq> k" for j k
      using ap [OF that] same(3) that atomic(3)
      by (cases "j = i"; cases "k = i") (simp_all add: apart_no_block)
    moreover have "layout_ok (fst (?cs ! j)) \<and> pc_ok b' (fst (?cs ! j)) (snd (?cs ! j))"
      if "j < length cs" for j
      using pcs [OF that] same ok atomic(3) by (cases "j = i") auto
    ultimately show ?thesis
      unfolding atomic(2) heap_inv_def using inv same(1) by auto
  next
    case (taken a n)
    have grow: "next_free b \<le> n" using taken by (simp add: word_le_nat_alt)
    have new: "apart (l, Return a) (cs ! k)" if "k < length cs" for k
    proof (cases "snd (cs ! k)")
      case (Return q)
      with pcs [OF that] taken(4) show ?thesis by (auto simp: apart_def word_le_nat_alt)
    qed (simp_all add: apart_no_block)
    have "apart (?cs ! j) (?cs ! k)" if "j < length cs" "k < length cs" "j \<noteq> k" for j k
      using ap [OF that] new [OF that(1)] new [OF that(2)] that atomic(3) taken(2)
      by (cases "j = i"; cases "k = i") (auto intro: apart_sym)
    moreover have "pc_ok b' l p'"
      using taken inv by (auto simp: word_le_nat_alt)
    moreover have "pc_ok b' (fst (cs ! j)) (snd (cs ! j))" if "j < length cs" for j
      using pcs [OF that] pc_ok_mono [OF _ grow] taken(1) by simp
    ultimately have "layout_ok (fst (?cs ! j)) \<and> pc_ok b' (fst (?cs ! j)) (snd (?cs ! j))"
      if "j < length cs" for j
      using that pcs [OF that] ok atomic(3) by (cases "j = i") auto
    with \<open>\<And>k j. j < length cs \<Longrightarrow> k < length cs \<Longrightarrow> j \<noteq> k \<Longrightarrow> apart (?cs ! j) (?cs ! k)\<close>
    show ?thesis
      unfolding atomic(2) heap_inv_def
      using inv taken(1,6) grow by (auto intro: order_trans)
  qed
qed

lemma heap_reach_inv: "heap_reach heap s \<Longrightarrow> heap_inv heap s"
  by (induction rule: heap_reach.induct) (auto intro: heap_inv_boot heap_inv_step)

section \<open>Progress\<close>

text \<open>A bound on the steps a call has left: an exchange fails only when \<open>next\<close> has grown.\<close>

fun remaining :: "alloc_pc \<Rightarrow> nat" where
  "remaining Enter = unat HEAP_SIZE + 4"
| "remaining LoadEnd = unat HEAP_SIZE + 3"
| "remaining (LoadNext e) = unat HEAP_SIZE + 2"
| "remaining (Exchange e current) = unat e - unat current + 1"
| "remaining (Return p) = 0"
| "remaining Panicked = 0"

lemma remaining_le:
  assumes "heap_inv heap (b, cs)" "i < length cs"
  shows "remaining (snd (cs ! i)) \<le> unat HEAP_SIZE + 4"
proof -
  have "pc_ok b (fst (cs ! i)) (snd (cs ! i))" "heap_start b = heap"
    "unat (heap_end b) = unat heap + unat HEAP_SIZE"
    using assms by (auto simp: heap_inv_def)
  then show ?thesis by (cases "snd (cs ! i)") (auto simp: word_le_nat_alt)
qed

lemma alloc_step_remaining:
  assumes "heap_inv heap (b, cs)" "i < length cs" "cs ! i = (l, p)" "\<not> finished p"
    "alloc_step l p b = (b', p')"
  shows "remaining p' < remaining p"
proof -
  have inv: "heap_start b = heap" "heap \<le> next_free b" "next_free b \<le> heap_end b"
      "unat (heap_end b) = unat heap + unat HEAP_SIZE"
    using assms(1) by (auto simp: heap_inv_def)
  have ok: "pc_ok b l p" using assms(1-3) by (auto simp: heap_inv_def)
  show ?thesis
  proof (cases p)
    case (Exchange e cur)
    have "unat cur < unat (next_free b)" if "next_free b \<noteq> cur"
    proof -
      have "cur < next_free b" using that ok Exchange by (simp add: order.not_eq_order_implies_strict)
      then show ?thesis by (simp add: word_less_nat_alt)
    qed
    with assms(5) Exchange ok inv show ?thesis
      by (auto simp: word_le_nat_alt split: option.splits if_splits)
  qed (use assms(4,5) ok inv in \<open>auto simp: word_le_nat_alt split: if_splits\<close>)
qed

text \<open>\<open>heap_run i n s s'\<close>: an execution in which call \<open>i\<close> takes \<open>n\<close> steps and the others
  any number, in any order.\<close>

inductive heap_run :: "nat \<Rightarrow> nat \<Rightarrow> heap_state \<Rightarrow> heap_state \<Rightarrow> bool" for i :: nat where
  refl: "heap_run i 0 s s"
| own: "heap_run i n s (b, cs) \<Longrightarrow> cs ! i = (l, p) \<Longrightarrow> \<not> finished p \<Longrightarrow> alloc_step l p b = (b', p') \<Longrightarrow>
    heap_run i (Suc n) s (b', cs[i := (l, p')])"
| other: "heap_run i n s s1 \<Longrightarrow> heap_step s1 s2 \<Longrightarrow> snd s2 ! i = snd s1 ! i \<Longrightarrow> heap_run i n s s2"

lemma heap_step_length: "heap_step s s' \<Longrightarrow> length (snd s) \<le> length (snd s')"
  by (auto elim: heap_stepE)

lemma heap_run_bound:
  assumes "heap_run i n s s'" "heap_inv heap s" "i < length (snd s)"
  shows "heap_inv heap s' \<and> i < length (snd s') \<and>
    n + remaining (snd (snd s' ! i)) \<le> remaining (snd (snd s ! i))"
  using assms
proof (induction rule: heap_run.induct)
  case (own n s b cs l p b' p')
  then have IH: "heap_inv heap (b, cs)" "i < length cs"
      "n + remaining p \<le> remaining (snd (snd s ! i))"
    by (auto simp: own.hyps(2))
  have "heap_step (b, cs) (b', cs[i := (l, p')])"
    by (rule heap_step.atomic [OF IH(2) own.hyps(2-4)])
  then have "heap_inv heap (b', cs[i := (l, p')])" by (rule heap_inv_step [OF IH(1)])
  with alloc_step_remaining [OF IH(1,2) own.hyps(2-4)] IH show ?case by simp
next
  case (other n s s1 s2)
  then show ?case using heap_inv_step heap_step_length by fastforce
qed simp

section \<open>One call at a time\<close>

abbreviation run_alloc :: "nat \<Rightarrow> layout \<Rightarrow> BumpAllocator \<times> alloc_pc \<Rightarrow> BumpAllocator \<times> alloc_pc" where
  "run_alloc n l \<equiv> (\<lambda>(b, p). alloc_step l p b) ^^ n"

lemma run_four:
  "run_alloc 4 l (b, Enter) =
     (if initialized b then alloc_step l (Exchange (heap_end b) (next_free b)) b else (b, Return 0))"
  by (simp add: numeral_eq_Suc)

lemma finished_stays: "finished p \<Longrightarrow> run_alloc n l (b, p) = (b, p)"
  by (induction n) (auto elim: finished.elims)

lemma call_reach:
  assumes "heap_reach heap (b, cs)" "layout_ok l" "run_alloc n l (b, Enter) = (b', p')"
  shows "heap_reach heap (b', cs @ [(l, p')])"
  using assms(3)
proof (induction n arbitrary: b' p')
  case 0
  then show ?case
    using heap_reach.step [OF assms(1) heap_step.call [OF assms(2)]] by simp
next
  case (Suc n)
  obtain b1 p1 where 1: "run_alloc n l (b, Enter) = (b1, p1)" by fastforce
  then have s: "alloc_step l p1 b1 = (b', p')" using Suc.prems by simp
  show ?case
  proof (cases "finished p1")
    case True
    with s have "b' = b1" "p' = p1" by (auto elim: finished.elims)
    with Suc.IH [OF 1] show ?thesis by simp
  next
    case False
    have "heap_step (b1, cs @ [(l, p1)]) (b', (cs @ [(l, p1)])[length cs := (l, p')])"
      by (rule heap_step.atomic [OF _ _ False s]) simp_all
    with heap_reach.step [OF Suc.IH [OF 1]] show ?thesis by simp
  qed
qed

section \<open>What the heap promises\<close>

text \<open>C25: however calls of \<open>alloc\<close> interleave, the blocks they have returned lie in the
  32 MiB heap, are aligned as asked, and no two of them overlap.\<close>

theorem alloc_blocks_disjoint:
  assumes "heap_reach heap (b, cs)" "i < length cs" "cs ! i = (l, Return p)" "p \<noteq> 0"
  shows "unat (lay_align l) dvd unat p \<and> heap \<le> p \<and>
    unat p + unat (lay_size l) \<le> unat heap + 33554432 \<and>
    (\<forall>j < length cs. \<forall>l' q. j \<noteq> i \<longrightarrow> cs ! j = (l', Return q) \<longrightarrow> q \<noteq> 0 \<longrightarrow>
       unat p + unat (lay_size l) \<le> unat q \<or> unat q + unat (lay_size l') \<le> unat p)"
proof -
  note inv = heap_reach_inv [OF assms(1)]
  then have b: "pc_ok b l (Return p)" "heap_start b = heap" "next_free b \<le> heap_end b"
      "unat (heap_end b) = unat heap + 33554432"
    using assms(2,3) by (auto simp: heap_inv_def HEAP_SIZE_def)
  have ap: "apart (cs ! i) (cs ! j)" if "j < length cs" "j \<noteq> i" for j
    using inv that assms(2) unfolding heap_inv_def by auto
  have d: "unat p + unat (lay_size l) \<le> unat q \<or> unat q + unat (lay_size l') \<le> unat p"
    if "j < length cs" "j \<noteq> i" "cs ! j = (l', Return q)" "q \<noteq> 0" for j l' q
    using ap [OF that(1,2), unfolded assms(3) that(3)] that(4) assms(4) by (simp add: apart_def)
  have "unat (next_free b) \<le> unat heap + 33554432" using b(3,4) by (simp add: word_le_nat_alt)
  with b(1,2) assms(4) show ?thesis by (intro conjI allI impI d) simp_all
qed

definition two_pages :: layout where
  "two_pages = \<lparr>lay_size = 0x2000, lay_align = 0x1000\<rparr>"

definition small_block :: layout where
  "small_block = \<lparr>lay_size = 24, lay_align = 8\<rparr>"

lemma demo_layouts [simp]: "layout_ok two_pages" "layout_ok small_block"
proof -
  show "layout_ok two_pages" unfolding layout_ok_def two_pages_def by (intro exI [of _ 12]) simp
  show "layout_ok small_block" unfolding layout_ok_def small_block_def by (intro exI [of _ 3]) simp
qed

text \<open>Two calls, one after the other, from a heap at \<open>0x200010\<close>.\<close>

lemma demo_heap:
  "heap_reach 0x200010 (\<lparr>heap_start = 0x200010, heap_end = 0x2200010, next_free = 0x203000,
     initialized = True\<rparr>, [(small_block, Return 0x200010), (two_pages, Return 0x201000)])"
proof -
  let ?b = "\<lambda>n. \<lparr>heap_start = 0x200010, heap_end = 0x2200010, next_free = n, initialized = True\<rparr>"
  have "heap_reach 0x200010 (?b 0x200010, [])"
    by (rule heap_reach.boot)
      (simp add: init_heap_def new_allocator_def init_allocator_def checked_add_u64_def HEAP_SIZE_def)
  then have "heap_reach 0x200010 (?b 0x200028, [] @ [(small_block, Return 0x200010)])"
    by (rule call_reach [where n = 4, OF _ demo_layouts(2)])
      (simp_all add: run_four align_up_def checked_add_u64_def checked_sub_u64_def small_block_def)
  then have "heap_reach 0x200010
      (?b 0x203000, ([] @ [(small_block, Return 0x200010)]) @ [(two_pages, Return 0x201000)])"
    by (rule call_reach [where n = 4, OF _ demo_layouts(1)])
      (simp_all add: run_four align_up_def checked_add_u64_def checked_sub_u64_def two_pages_def)
  then show ?thesis by simp
qed

theorem alloc_blocks_disjoint_witness:
  "0x1000 dvd unat (0x201000 :: u64) \<and> (0x200010 :: u64) \<le> 0x201000 \<and>
   unat (0x201000 :: u64) + unat (lay_size two_pages) \<le> unat (0x200010 :: u64) + 33554432"
  using alloc_blocks_disjoint [OF demo_heap, of 1 two_pages "0x201000"] by (simp add: two_pages_def)

text \<open>C31: \<open>alloc\<close> always comes back: whatever the other calls do, a call takes at most
  \<open>HEAP_SIZE + 4\<close> steps of its own, and one that has not returned can always take the next.\<close>

theorem alloc_wait_free:
  assumes "heap_reach heap s" "i < length (snd s)" "heap_run i n s s'"
  shows "n \<le> 33554436 \<and> (finished (snd (snd s' ! i)) \<or> (\<exists>s''. heap_run i (Suc n) s s''))"
proof -
  obtain b cs where s: "s = (b, cs)" by fastforce
  obtain b' cs' where s': "s' = (b', cs')" by fastforce
  note inv = heap_reach_inv [OF assms(1)]
  have "n + remaining (snd (snd s' ! i)) \<le> remaining (snd (snd s ! i))"
    using heap_run_bound [OF assms(3) inv assms(2)] by blast
  also have "\<dots> \<le> 33554436"
    using remaining_le [OF inv [unfolded s], of i] assms(2) s by (simp add: HEAP_SIZE_def)
  finally have "n \<le> 33554436" by simp
  moreover have "\<exists>s''. heap_run i (Suc n) s s''" if "\<not> finished (snd (snd s' ! i))"
    using heap_run.own [OF assms(3) [unfolded s'], of "fst (cs' ! i)" "snd (cs' ! i)"] that s'
    by (metis prod.collapse snd_conv)
  ultimately show ?thesis by blast
qed

theorem alloc_wait_free_witness:
  "(0 :: nat) \<le> 33554436 \<and>
   (finished (snd ([(small_block, Return 0x200010), (two_pages, Return 0x201000)] ! 1)) \<or>
    (\<exists>s''. heap_run 1 (Suc 0) (\<lparr>heap_start = 0x200010, heap_end = 0x2200010, next_free = 0x203000,
       initialized = True\<rparr>, [(small_block, Return 0x200010), (two_pages, Return 0x201000)]) s''))"
  using alloc_wait_free [OF demo_heap _ heap_run.refl, of 1] by simp

text \<open>A call that runs alone takes four steps and is first fit at the end of the used part:
  the lowest aligned address from \<open>next\<close> on if the block fits below \<open>heap_end\<close>, and null,
  with nothing changed, if it does not.\<close>

lemma alloc_alone:
  assumes "initialized b" "lay_align l = 2 ^ k" "k < 64" "unat (next_free b) + 2 ^ k < 2 ^ 64"
  shows "run_alloc 4 l (b, Enter) =
    (let a = (unat (next_free b) + (2 ^ k - 1)) div 2 ^ k * 2 ^ k in
     if a + unat (lay_size l) \<le> unat (heap_end b)
     then (b\<lparr>next_free := of_nat (a + unat (lay_size l))\<rparr>, Return (of_nat a))
     else (b, Return 0))"
proof -
  have pow: "unat (2 ^ k :: u64) = 2 ^ k" by (rule unat_pow2 [OF assms(3)])
  obtain a where a: "align_up (next_free b) (2 ^ k) = Some a"
  proof -
    have "checked_add_u64 (next_free b) (2 ^ k) = Some (next_free b + 2 ^ k)"
      using assms(4) pow by (simp add: checked_add_u64_def)
    moreover from checked_add_u64_unat [OF this] have "1 \<le> next_free b + 2 ^ k"
      using pow by (simp add: word_le_nat_alt Suc_le_eq)
    moreover have "(1 :: u64) \<le> 2 ^ k" using pow by (simp add: word_le_nat_alt Suc_le_eq)
    ultimately show thesis by (intro that) (simp add: align_up_def checked_sub_u64_def)
  qed
  note ua = align_up_unat(1) [OF a assms(3)]
  define n where "n = (unat (next_free b) + (2 ^ k - 1)) div 2 ^ k * 2 ^ k"
  have un: "unat a = n" using ua by (simp add: n_def)
  then have an: "a = of_nat n" "unat a = n" by (simp_all flip: un)
  show ?thesis
  proof (cases "checked_add_u64 a (lay_size l)")
    case None
    then have "\<not> n + unat (lay_size l) \<le> unat (heap_end b)"
      using unat_u64_bound [of "heap_end b", unfolded not_le [symmetric]]
      by (auto simp: checked_add_u64_def an(2) split: if_splits)
    with None a assms(1,2) show ?thesis
      unfolding n_def [symmetric] Let_def by (simp add: run_four)
  next
    case (Some e)
    from checked_add_u64_unat [OF Some] have e: "unat e = n + unat (lay_size l)" using an by simp
    then have "e = of_nat (n + unat (lay_size l))" by (simp flip: e)
    with e Some a an assms(1,2) show ?thesis
      unfolding n_def [symmetric] Let_def by (simp add: run_four word_less_nat_alt)
  qed
qed

end
