(* ===== verification/Serial.thy ===== *)
theory Serial
  imports Prelude
begin

text \<open>
  The serial log (\<open>kernel/src/logger.rs\<close>): the driver as a sequence of port writes and of
  polls of the line status register, and the boot lines on the terminal. The UART it talks to
  (a 16550) is the reference: what the port writes make it send.
\<close>

unbundle bit_operations_syntax

section \<open>The driver\<close>

definition COM1 :: u16 where "COM1 = 0x3F8"

text \<open>
  \<open>SERIAL_INIT\<close>, the port writes so far, and what the coming reads of the line status
  register return. When no read is left to come, a loop that waits never ends.
\<close>

record uart =
  serial_ready :: bool
  port_writes :: "(u16 \<times> u8) list"
  line_status :: "u8 list"

type_synonym 'a urun = "(unit, uart, 'a) run"

definition outb :: "u16 \<Rightarrow> u8 \<Rightarrow> uart \<Rightarrow> uart" where
  "outb port v u = u\<lparr>port_writes := port_writes u @ [(port, v)]\<rparr>"

definition serial_init :: "uart \<Rightarrow> uart" where
  "serial_init u =
     (let u = outb (COM1 + 1) 0x00 u;
          u = outb (COM1 + 3) 0x80 u;
          u = outb (COM1 + 0) 0x03 u;
          u = outb (COM1 + 1) 0x00 u;
          u = outb (COM1 + 3) 0x03 u;
          u = outb (COM1 + 2) 0xC7 u
      in outb (COM1 + 4) 0x0B u)"

text \<open>\<open>while (inb(COM1 + 5) & 0x20) == 0 {}\<close>: the reads that remain.\<close>

fun await_empty :: "u8 list \<Rightarrow> u8 list option" where
  "await_empty [] = None"
| "await_empty (v # vs) = (if v AND 0x20 = 0 then await_empty vs else Some vs)"

definition serial_write_byte :: "u8 \<Rightarrow> uart \<Rightarrow> unit urun" where
  "serial_write_byte byte u =
     (case await_empty (line_status u) of
        None \<Rightarrow> Hang
      | Some vs \<Rightarrow> Done () (outb COM1 byte (u\<lparr>line_status := vs\<rparr>)))"

text \<open>The loop over the bytes of the string.\<close>

fun serial_bytes :: "bytes \<Rightarrow> uart \<Rightarrow> unit urun" where
  "serial_bytes [] u = Done () u"
| "serial_bytes (b # bs) u =
     and_then (if b = 0x0A then serial_write_byte 0x0D u else Done () u) (\<lambda>_ u.
     and_then (serial_write_byte b u) (\<lambda>_. serial_bytes bs))"

definition serial_write :: "bytes \<Rightarrow> uart \<Rightarrow> unit urun" where
  "serial_write s u =
     serial_bytes s (if serial_ready u then u else (serial_init u)\<lparr>serial_ready := True\<rparr>)"

section \<open>Boot lines\<close>

datatype BootLevel = BootOk | BootWarn | BootFail | BootInfo

text \<open>What a boot line adds to the terminal.\<close>

fun level_tag :: "BootLevel \<Rightarrow> bytes" where
  "level_tag BootOk = str ''[  OK  ] ''"
| "level_tag BootWarn = str ''[ WARN ] ''"
| "level_tag BootFail = str ''[ FAIL ] ''"
| "level_tag BootInfo = str ''[ .... ] ''"

definition boot_line :: "BootLevel \<Rightarrow> bytes \<Rightarrow> bytes \<Rightarrow> bytes" where
  "boot_line level msg scr = scr @ level_tag level @ msg @ [0x0A]"

section \<open>The UART\<close>

text \<open>
  The registers of a 16550 that the driver writes: with the divisor latch access bit of the
  line control register set, the first two ports are the divisor; otherwise the first one
  transmits.
\<close>

record uart16550 =
  divisor_lo :: u8
  divisor_hi :: u8
  interrupt_enable :: u8
  fifo_control :: u8
  line_control :: u8
  modem_control :: u8
  wire :: bytes

definition reset16550 :: uart16550 where
  "reset16550 = \<lparr>divisor_lo = 0, divisor_hi = 0, interrupt_enable = 0, fifo_control = 0,
     line_control = 0, modem_control = 0, wire = []\<rparr>"

definition dlab :: "uart16550 \<Rightarrow> bool" where
  "dlab d \<longleftrightarrow> line_control d AND 0x80 \<noteq> 0"

definition on_write :: "u16 \<times> u8 \<Rightarrow> uart16550 \<Rightarrow> uart16550" where
  "on_write w d =
     (let r = fst w - COM1; v = snd w in
      if r = 0 then (if dlab d then d\<lparr>divisor_lo := v\<rparr> else d\<lparr>wire := wire d @ [v]\<rparr>)
      else if r = 1 then (if dlab d then d\<lparr>divisor_hi := v\<rparr> else d\<lparr>interrupt_enable := v\<rparr>)
      else if r = 2 then d\<lparr>fifo_control := v\<rparr>
      else if r = 3 then d\<lparr>line_control := v\<rparr>
      else if r = 4 then d\<lparr>modem_control := v\<rparr>
      else d)"

abbreviation device :: "uart \<Rightarrow> uart16550" where
  "device u \<equiv> fold on_write (port_writes u) reset16550"

text \<open>38400 baud (divisor 3), eight data bits, no parity, one stop bit, no interrupts, FIFOs on.\<close>

definition configured :: "uart16550 \<Rightarrow> bool" where
  "configured d \<longleftrightarrow> divisor_lo d = 3 \<and> divisor_hi d = 0 \<and> line_control d = 3 \<and>
     interrupt_enable d = 0 \<and> fifo_control d = 0xC7 \<and> modem_control d = 0x0B"

definition crlf :: "bytes \<Rightarrow> bytes" where
  "crlf s = concat (map (\<lambda>b. if b = 0x0A then [0x0D, 0x0A] else [b]) s)"

definition ready_count :: "uart \<Rightarrow> nat" where
  "ready_count u = length (filter (\<lambda>v. v AND 0x20 \<noteq> 0) (line_status u))"

lemma crlf_Cons: "crlf (b # bs) = (if b = 0x0A then [0x0D, 0x0A] else [b]) @ crlf bs"
  by (simp add: crlf_def)

lemma await_empty_None: "await_empty vs = None \<longleftrightarrow> filter (\<lambda>v. v AND 0x20 \<noteq> 0) vs = []"
  by (induction vs) auto

lemma await_empty_Some:
  "await_empty vs = Some ws \<Longrightarrow>
     length (filter (\<lambda>v. v AND 0x20 \<noteq> 0) vs) = Suc (length (filter (\<lambda>v. v AND 0x20 \<noteq> 0) ws))"
  by (induction vs) (auto split: if_splits)

lemma configured_send:
  "configured d \<Longrightarrow> on_write (COM1, v) d = d\<lparr>wire := wire d @ [v]\<rparr>"
  by (simp add: on_write_def configured_def dlab_def)

text \<open>A driver that has set the UART up.\<close>

definition running :: "uart \<Rightarrow> bool" where
  "running u \<longleftrightarrow> serial_ready u \<and> configured (device u)"

lemma running_init:
  "port_writes u = [] \<Longrightarrow> running ((serial_init u)\<lparr>serial_ready := True\<rparr>)"
  "port_writes u = [] \<Longrightarrow> wire (device (serial_init u)) = []"
  "port_writes u = [] \<Longrightarrow> length (port_writes (serial_init u)) = 7"
  "port_writes u = [] \<Longrightarrow> line_status (serial_init u) = line_status u"
  by (simp_all add: running_def serial_init_def outb_def configured_def on_write_def COM1_def
      reset16550_def dlab_def Let_def)

lemma send_byte:
  assumes "running u"
  shows "if ready_count u = 0 then serial_write_byte b u = Hang
    else \<exists>u'. serial_write_byte b u = Done () u' \<and> running u' \<and>
      ready_count u = Suc (ready_count u') \<and> wire (device u') = wire (device u) @ [b] \<and>
      length (port_writes u') = Suc (length (port_writes u))"
  using assms
  by (auto simp: serial_write_byte_def ready_count_def await_empty_None running_def outb_def
      configured_send configured_def split: option.splits dest: await_empty_Some)

text \<open>\<open>sends bs u r\<close>: from \<open>u\<close>, the code that ends in \<open>r\<close> puts \<open>bs\<close> on the wire, or waits
  for ever for the UART to take them.\<close>

definition sends :: "bytes \<Rightarrow> uart \<Rightarrow> unit urun \<Rightarrow> bool" where
  "sends bs u r \<longleftrightarrow>
     (if ready_count u < length bs then r = Hang
      else \<exists>u'. r = Done () u' \<and> running u' \<and> ready_count u = length bs + ready_count u' \<and>
        wire (device u') = wire (device u) @ bs \<and>
        length (port_writes u') = length (port_writes u) + length bs)"

lemma sends_Nil: "running u \<Longrightarrow> sends [] u (Done () u)"
  by (simp add: sends_def)

lemma sends_byte: "running u \<Longrightarrow> sends [b] u (serial_write_byte b u)"
  using send_byte [of u b] by (auto simp: sends_def split: if_splits)

lemma sends_append:
  assumes "sends as u r" "\<And>u'. running u' \<Longrightarrow> sends bs u' (f () u')"
  shows "sends (as @ bs) u (and_then r f)"
proof (cases "ready_count u < length as")
  case True
  with assms(1) show ?thesis by (simp add: sends_def)
next
  case False
  with assms(1) obtain u' where "r = Done () u'" "running u'"
      "ready_count u = length as + ready_count u'" "wire (device u') = wire (device u) @ as"
      "length (port_writes u') = length (port_writes u) + length as"
    by (auto simp: sends_def)
  with assms(2) [of u'] show ?thesis by (auto simp: sends_def)
qed

lemma sends_step:
  assumes "running u" "\<And>u'. running u' \<Longrightarrow> sends bs u' (f () u')"
  shows "sends (b # bs) u (and_then (serial_write_byte b u) f)"
  using sends_append [where f = f, OF sends_byte [OF assms(1)] assms(2)] by simp

lemma sends_bytes: "running u \<Longrightarrow> sends (crlf s) u (serial_bytes s u)"
proof (induction s arbitrary: u)
  case Nil
  then show ?case by (simp add: sends_Nil crlf_def)
next
  case (Cons b s)
  have "sends ((if b = 0x0A then [0x0D] else []) @ [b] @ crlf s) u (serial_bytes (b # s) u)"
    using Cons by (auto intro!: sends_step)
  then show ?case by (cases "b = 0x0A") (simp_all add: crlf_Cons)
qed

text \<open>Message after message.\<close>

fun serial_writes :: "bytes list \<Rightarrow> uart \<Rightarrow> unit urun" where
  "serial_writes [] u = Done () u"
| "serial_writes (m # ms) u = and_then (serial_write m u) (\<lambda>_. serial_writes ms)"

lemma sends_writes: "running u \<Longrightarrow> sends (concat (map crlf ms)) u (serial_writes ms u)"
proof (induction ms arbitrary: u)
  case (Cons m ms)
  have "sends (crlf m @ concat (map crlf ms)) u (serial_writes (m # ms) u)"
    using Cons by (auto intro!: sends_append sends_bytes simp: serial_write_def running_def)
  then show ?case by simp
qed (simp add: sends_Nil)

text \<open>C32: the log reaches the wire: from a UART never touched, the first message sets it up
  for 38400 baud, 8N1, before anything is sent, no later message does so again, and any
  sequence of messages is transmitted in order, byte by byte, each line feed as carriage
  return and line feed. The driver waits for ever exactly when the UART signals an empty
  transmitter fewer times than there are bytes to send.\<close>

theorem serial_transmits:
  assumes "port_writes u = []" "\<not> serial_ready u"
  shows "if ready_count u < length (concat (map crlf (m # ms)))
    then serial_writes (m # ms) u = Hang
    else \<exists>u'. serial_writes (m # ms) u = Done () u' \<and> configured (device u') \<and>
      wire (device u') = concat (map crlf (m # ms)) \<and>
      length (port_writes u') = 7 + length (concat (map crlf (m # ms)))"
proof -
  let ?i = "(serial_init u)\<lparr>serial_ready := True\<rparr>"
  note run = running_init [OF assms(1)]
  have "serial_writes (m # ms) u = serial_writes (m # ms) ?i"
    using assms(2) by (simp add: serial_write_def)
  moreover have "sends (concat (map crlf (m # ms))) ?i (serial_writes (m # ms) ?i)"
    by (rule sends_writes [OF run(1)])
  moreover have "ready_count ?i = ready_count u" by (simp add: ready_count_def run(4))
  ultimately show ?thesis using run(2,3) by (auto simp: sends_def running_def)
qed

theorem serial_transmits_witness:
  "\<exists>u'. serial_writes [str ''ok'' @ [0x0A]]
       \<lparr>serial_ready = False, port_writes = [], line_status = [0, 0x20, 0x60, 0x20, 0x20, 0x20]\<rparr> =
       Done () u' \<and>
     configured (device u') \<and> wire (device u') = [0x6F, 0x6B, 0x0D, 0x0A]"
proof -
  let ?u = "\<lparr>serial_ready = False, port_writes = [], line_status = [0, 0x20, 0x60, 0x20, 0x20, 0x20]\<rparr>"
  have "crlf (str ''ok'' @ [0x0A]) = [0x6F, 0x6B, 0x0D, 0x0A]" by (simp add: crlf_def str_def)
  with serial_transmits [of ?u "str ''ok'' @ [0x0A]" "[]"] show ?thesis
    by (auto simp: ready_count_def)
qed

end
