(* ===== verification/Shell.thy ===== *)
theory Shell
  imports Rust_Str
begin

text \<open>
  The shell (\<open>kernel/src/shell.rs\<close>): the line editor, which echoes on the terminal, and
  the commands it knows itself. What else happens to be kept with the terminal, and the
  handler of the other commands, are the caller's: the definitions work on any extension of
  the terminal's record, and take the handler as an argument.
\<close>

unbundle bit_operations_syntax

text \<open>The terminal: the bytes it was given to process.\<close>

record tty =
  tty_out :: bytes

definition process :: "bytes \<Rightarrow> 'a tty_scheme \<Rightarrow> 'a tty_scheme" where
  "process bs t = t\<lparr>tty_out := tty_out t @ bs\<rparr>"

type_synonym ('a, 'b) trun = "(unit, 'a tty_scheme, 'b) run"
type_synonym 'a handler = "bytes \<Rightarrow> 'a tty_scheme \<Rightarrow> ('a, bool) trun"

section \<open>Commands\<close>

definition help_text :: bytes where
  "help_text = str ''commands: help, echo, clear, about, ramdisk, ls, stat <f>, cat <f>, posix, syscall, syscap, busybox, elf [f], run <f> [args], runelf, halt'' @ [0x0A]"

definition exec_command :: "'a handler \<Rightarrow> bytes \<Rightarrow> 'a tty_scheme \<Rightarrow> ('a, unit) trun" where
  "exec_command handle_custom input t =
     (let cmd = trim input in
      if cmd = [] then Done () t
      else if cmd = str ''help'' then Done () (process help_text t)
      else if cmd = str ''about'' then
        Done () (process (str ''LeonOS 3 - Rust toy OS with os-terminal'' @ [0x0A]) t)
      else if cmd = str ''clear'' then
        Done () (process ([0x1B] @ str ''[2J'' @ [0x1B] @ str ''[H'') t)
      else if cmd = str ''halt'' then Hang
      else
        (case strip_prefix (str ''echo '') cmd of
           Some rest \<Rightarrow> Done () (process [0x0A] (process rest t))
         | None \<Rightarrow>
             if cmd = str ''echo'' then Done () (process [0x0A] t)
             else
               and_then (handle_custom cmd t) (\<lambda>handled t.
                 if handled then Done () t
                 else Done () (process [0x0A] (process cmd (process (str ''unknown command: '') t))))))"

section \<open>The line editor\<close>

text \<open>The array \<open>line\<close> and the variable \<open>len\<close> of \<open>run_shell\<close>.\<close>

record line_buf =
  line :: bytes
  line_len :: nat

definition empty_line :: line_buf where
  "empty_line = \<lparr>line = replicate 256 0, line_len = 0\<rparr>"

definition prompt :: bytes where
  "prompt = str ''leon> ''"

text \<open>One byte of input.\<close>

definition shell_key ::
  "'a handler \<Rightarrow> u8 \<Rightarrow> line_buf \<Rightarrow> 'a tty_scheme \<Rightarrow> ('a, line_buf) trun" where
  "shell_key h byte b t =
     (if byte = 0x0D \<or> byte = 0x0A then
        (let t = process [0x0A] t in
         and_then
           (case from_utf8 (take (line_len b) (line b)) of
              Some input \<Rightarrow> exec_command h input t
            | None \<Rightarrow> Done () (process (str ''invalid utf-8 input'' @ [0x0A]) t))
           (\<lambda>_ t. Done (b\<lparr>line_len := 0\<rparr>) (process prompt t)))
      else if byte = 8 \<or> byte = 127 then
        (if line_len b > 0
         then Done (b\<lparr>line_len := line_len b - 1\<rparr>) (process [0x08, 0x20, 0x08] t)
         else Done b t)
      else if 0x20 \<le> byte \<and> byte \<le> 0x7E then
        (if line_len b < length (line b)
         then Done (b\<lparr>line := (line b)[line_len b := byte], line_len := line_len b + 1\<rparr>)
                (process [byte] t)
         else Done b t)
      else Done b t)"

text \<open>
  The loop, for the next \<open>n\<close> polls of \<open>read_input\<close>: it never returns, so \<open>Done\<close> is
  where it is after these polls.
\<close>

fun shell_loop ::
  "('a tty_scheme \<Rightarrow> u8 option \<times> 'a tty_scheme) \<Rightarrow> 'a handler \<Rightarrow> nat \<Rightarrow> line_buf \<Rightarrow> 'a tty_scheme \<Rightarrow>
     ('a, line_buf) trun" where
  "shell_loop read_input h 0 b t = Done b t"
| "shell_loop read_input h (Suc n) b t =
     (case read_input t of
        (None, t) \<Rightarrow> shell_loop read_input h n b t
      | (Some byte, t) \<Rightarrow> and_then (shell_key h byte b t) (shell_loop read_input h n))"

definition run_shell ::
  "('a tty_scheme \<Rightarrow> u8 option \<times> 'a tty_scheme) \<Rightarrow> 'a handler \<Rightarrow> nat \<Rightarrow> 'a tty_scheme \<Rightarrow>
     ('a, line_buf) trun" where
  "run_shell read_input h n t = shell_loop read_input h n empty_line (process prompt t)"

section \<open>Editing as a function on the keys\<close>

text \<open>The line that the keys since the last line end make, and their echo.\<close>

definition erases :: "u8 \<Rightarrow> bool" where
  "erases k \<longleftrightarrow> k = 8 \<or> k = 127"

definition printable :: "u8 \<Rightarrow> bool" where
  "printable k \<longleftrightarrow> 0x20 \<le> k \<and> k \<le> 0x7E"

definition ends_line :: "u8 \<Rightarrow> bool" where
  "ends_line k \<longleftrightarrow> k = 0x0D \<or> k = 0x0A"

definition edit :: "bytes \<Rightarrow> u8 \<Rightarrow> bytes" where
  "edit l k =
     (if erases k then butlast l
      else if printable k \<and> length l < 256 then l @ [k] else l)"

definition echo_key :: "bytes \<Rightarrow> u8 \<Rightarrow> bytes" where
  "echo_key l k =
     (if erases k then (if l = [] then [] else [0x08, 0x20, 0x08])
      else if printable k \<and> length l < 256 then [k] else [])"

fun echoes :: "bytes \<Rightarrow> bytes \<Rightarrow> bytes" where
  "echoes l [] = []"
| "echoes l (k # ks) = echo_key l k @ echoes (edit l k) ks"

text \<open>The buffer holds a line.\<close>

definition holds :: "line_buf \<Rightarrow> bytes \<Rightarrow> bool" where
  "holds b l \<longleftrightarrow> length (line b) = 256 \<and> line_len b \<le> 256 \<and> take (line_len b) (line b) = l"

lemma holds_empty: "holds empty_line []" "holds b l \<Longrightarrow> holds (b\<lparr>line_len := 0\<rparr>) []"
  by (simp_all add: holds_def empty_line_def)

lemma holds_length: "holds b l \<Longrightarrow> line_len b = length l"
  by (auto simp: holds_def)

lemma disjoint_keys:
  "erases k \<Longrightarrow> \<not> printable k" "erases k \<Longrightarrow> \<not> ends_line k" "printable k \<Longrightarrow> \<not> ends_line k"
  by (auto simp: erases_def printable_def ends_line_def)

lemma process_process [simp]: "process bs (process as t) = process (as @ bs) t"
  by (simp add: process_def)

lemma process_Nil [simp]: "process [] t = t"
  by (simp add: process_def)

lemma shell_key_edit:
  assumes "holds b l" "\<not> ends_line k"
  shows "\<exists>b'. shell_key h k b t = Done b' (process (echo_key l k) t) \<and> holds b' (edit l k)"
proof -
  note n = holds_length [OF assms(1)]
  consider (erase) "erases k" | (print) "printable k" "\<not> erases k" | (other) "\<not> erases k" "\<not> printable k"
    by blast
  then show ?thesis
  proof cases
    case erase
    have "take (length l - Suc 0) (line b) = take (length l - Suc 0) (take (length l) (line b))"
      by (simp add: min_def)
    also have "\<dots> = take (length l - Suc 0) l" using assms(1) n by (simp add: holds_def)
    finally show ?thesis
      using assms n erase
      by (auto simp: shell_key_def ends_line_def erases_def edit_def echo_key_def holds_def butlast_conv_take)
  next
    case print
    have "take (Suc n) (xs[n := k]) = take n xs @ [k]" if "n < length xs" for n and xs :: bytes
      using that by (simp add: take_Suc_conv_app_nth)
    with print show ?thesis
      using assms n disjoint_keys
      by (auto simp: shell_key_def ends_line_def erases_def printable_def edit_def echo_key_def holds_def)
  next
    case other
    then show ?thesis
      using assms by (auto simp: shell_key_def ends_line_def erases_def printable_def edit_def echo_key_def)
  qed
qed


lemma edit_printable:
  assumes "\<forall>c \<in> set l. printable c"
  shows "\<forall>c \<in> set (edit l k). printable c"
  using assms by (auto simp: edit_def dest: in_set_butlastD)

lemma edits_printable: "\<forall>c \<in> set (foldl edit [] ks). printable c"
  by (induction ks rule: rev_induct) (simp_all add: edit_printable)

lemma printable_utf8: "\<forall>c \<in> set l. printable c \<Longrightarrow> from_utf8 l = Some l"
  by (auto simp: from_utf8_def printable_def word_le_nat_alt word_less_nat_alt intro!: utf8_valid_ascii)

text \<open>A keyboard that hands over the keys of a list, one by one.\<close>

fun type_keys :: "'a handler \<Rightarrow> bytes \<Rightarrow> line_buf \<Rightarrow> 'a tty_scheme \<Rightarrow> ('a, line_buf) trun" where
  "type_keys h [] b t = Done b t"
| "type_keys h (k # ks) b t = and_then (shell_key h k b t) (type_keys h ks)"

lemma and_then_assoc: "and_then (and_then r f) g = and_then r (\<lambda>x s. and_then (f x s) g)"
  by (cases r) simp_all

lemma type_keys_append:
  "type_keys h (ks @ js) b t = and_then (type_keys h ks b t) (type_keys h js)"
proof (induction ks arbitrary: b t)
  case (Cons k ks)
  then have "type_keys h (ks @ js) = (\<lambda>b t. and_then (type_keys h ks b t) (type_keys h js))"
    by (intro ext)
  then show ?case by (simp add: and_then_assoc)
qed simp

lemma type_keys_edit:
  "holds b l \<Longrightarrow> \<forall>k \<in> set ks. \<not> ends_line k \<Longrightarrow>
     \<exists>b'. type_keys h ks b t = Done b' (process (echoes l ks) t) \<and> holds b' (foldl edit l ks)"
proof (induction ks arbitrary: b l t)
  case (Cons k ks)
  then obtain b1 where b1: "shell_key h k b t = Done b1 (process (echo_key l k) t)" "holds b1 (edit l k)"
    using shell_key_edit [of b l k h t] by auto
  from Cons.IH [OF b1(2), of "process (echo_key l k) t"] Cons.prems(2) b1(1) show ?case by auto
qed auto

text \<open>A line end runs the command.\<close>

lemma type_line_end:
  assumes "holds b l" "\<forall>c \<in> set l. printable c" "ends_line e"
  shows "type_keys h [e] b t =
    and_then (exec_command h l (process [0x0A] t)) (\<lambda>_ t. Done (b\<lparr>line_len := 0\<rparr>) (process prompt t))"
proof -
  have "shell_key h e b t = and_then (exec_command h l (process [0x0A] t))
      (\<lambda>_ t. Done (b\<lparr>line_len := 0\<rparr>) (process prompt t))"
    using assms(1,3) printable_utf8 [OF assms(2)]
    by (simp add: shell_key_def ends_line_def holds_def)
  then show ?thesis
    by (cases "exec_command h l (process [0x0A] t)") simp_all
qed

text \<open>C30: the line editor refines editing a list. From an empty line, any keys but a line
  end, then a line end: the terminal shows their echo and the command run is exactly the
  list the keys edit (characters appended while there is room for 256, the last one removed by
  a backspace); the next line starts empty, after a new prompt. The branch for invalid UTF-8
  is never taken.\<close>

theorem shell_runs_line:
  assumes "holds b []" "\<forall>k \<in> set ks. \<not> ends_line k" "ends_line e"
  shows "\<exists>b'. holds b' [] \<and> type_keys h (ks @ [e]) b t =
    and_then (exec_command h (foldl edit [] ks) (process (echoes [] ks @ [0x0A]) t))
      (\<lambda>_ t. Done b' (process prompt t))"
proof -
  obtain b1 where b1: "type_keys h ks b t = Done b1 (process (echoes [] ks) t)"
      "holds b1 (foldl edit [] ks)"
    using type_keys_edit [OF assms(1,2)] by blast
  have "type_keys h (ks @ [e]) b t =
      and_then (exec_command h (foldl edit [] ks) (process (echoes [] ks @ [0x0A]) t))
        (\<lambda>_ t. Done (b1\<lparr>line_len := 0\<rparr>) (process prompt t))"
    unfolding type_keys_append b1(1)
    using type_line_end [OF b1(2) edits_printable assms(3), of h] by simp
  with holds_empty(2) [OF b1(2)] show ?thesis by blast
qed

theorem shell_runs_line_witness:
  "\<exists>b'. holds b' [] \<and>
    type_keys (\<lambda>c t. Done False t) ([0x6C, 0x78, 8, 0x73] @ [0x0A]) empty_line (\<lparr>tty_out = []\<rparr> :: tty) =
    Done b' \<lparr>tty_out = [0x6C, 0x78, 8, 0x20, 8, 0x73, 0x0A] @ str ''unknown command: ls'' @
      [0x0A] @ prompt\<rparr>"
proof -
  let ?h = "\<lambda>c t. Done False t" and ?t = "\<lparr>tty_out = []\<rparr> :: tty" and ?ks = "[0x6C, 0x78, 8, 0x73]"
  have "foldl edit [] ?ks = str ''ls''" "echoes [] ?ks = [0x6C, 0x78, 8, 0x20, 8, 0x73]"
    by (simp_all add: str_def edit_def erases_def printable_def echo_key_def)
  moreover have "trim (str ''ls'') = str ''ls''"
    by (rule graphic_trim) (simp add: graphic_def str_def)
  then have "exec_command ?h (str ''ls'') t =
      Done () (process (str ''unknown command: ls'' @ [0x0A]) t)" for t :: tty
    by (simp add: exec_command_def strip_prefix_def str_def)
  moreover have "\<exists>b'. holds b' [] \<and> type_keys ?h (?ks @ [0x0A]) empty_line ?t =
      and_then (exec_command ?h (foldl edit [] ?ks) (process (echoes [] ?ks @ [0x0A]) ?t))
        (\<lambda>_ t. Done b' (process prompt t))"
    by (rule shell_runs_line) (simp_all add: holds_empty ends_line_def)
  ultimately show ?thesis by (simp only: and_then.simps process_process) (simp add: process_def)
qed

end
