(* ===== verification/Keyboard.thy ===== *)
theory Keyboard
  imports Prelude
begin

text \<open>
  The PS/2 keyboard (\<open>kernel/src/main.rs\<close>): one poll of the controller, with the shift
  state it keeps, and the table from scan codes to ASCII. The shell reads its lines, and
  programs their standard input, through these polls.
\<close>

unbundle bit_operations_syntax

definition PS2_DATA :: u16 where "PS2_DATA = 0x60"
definition PS2_STATUS :: u16 where "PS2_STATUS = 0x64"

text \<open>Scan code, character, character with shift.\<close>

definition keymap :: "(u8 \<times> char \<times> char) list" where
  "keymap =
    [(0x02, CHR ''1'', CHR ''!''), (0x03, CHR ''2'', CHR ''@''), (0x04, CHR ''3'', CHR ''#''),
     (0x05, CHR ''4'', CHR ''$''), (0x06, CHR ''5'', CHR ''%''), (0x07, CHR ''6'', CHR ''^''),
     (0x08, CHR ''7'', CHR ''&''), (0x09, CHR ''8'', CHR ''*''), (0x0A, CHR ''9'', CHR ''(''),
     (0x0B, CHR ''0'', CHR '')''), (0x0C, CHR ''-'', CHR ''_''), (0x0D, CHR ''='', CHR ''+''),
     (0x10, CHR ''q'', CHR ''Q''), (0x11, CHR ''w'', CHR ''W''), (0x12, CHR ''e'', CHR ''E''),
     (0x13, CHR ''r'', CHR ''R''), (0x14, CHR ''t'', CHR ''T''), (0x15, CHR ''y'', CHR ''Y''),
     (0x16, CHR ''u'', CHR ''U''), (0x17, CHR ''i'', CHR ''I''), (0x18, CHR ''o'', CHR ''O''),
     (0x19, CHR ''p'', CHR ''P''), (0x1E, CHR ''a'', CHR ''A''), (0x1F, CHR ''s'', CHR ''S''),
     (0x20, CHR ''d'', CHR ''D''), (0x21, CHR ''f'', CHR ''F''), (0x22, CHR ''g'', CHR ''G''),
     (0x23, CHR ''h'', CHR ''H''), (0x24, CHR ''j'', CHR ''J''), (0x25, CHR ''k'', CHR ''K''),
     (0x26, CHR ''l'', CHR ''L''), (0x2C, CHR ''z'', CHR ''Z''), (0x2D, CHR ''x'', CHR ''X''),
     (0x2E, CHR ''c'', CHR ''C''), (0x2F, CHR ''v'', CHR ''V''), (0x30, CHR ''b'', CHR ''B''),
     (0x31, CHR ''n'', CHR ''N''), (0x32, CHR ''m'', CHR ''M'')]"

definition scancode_to_ascii :: "u8 \<Rightarrow> bool \<Rightarrow> u8 option" where
  "scancode_to_ascii sc shift =
     (if sc = 0x1C then Some 0x0A
      else if sc = 0x0E then Some 8
      else if sc = 0x39 then Some 0x20
      else
        (case map_of keymap sc of
           Some (plain, shifted) \<Rightarrow> Some (of_char (if shift then shifted else plain))
         | None \<Rightarrow> None))"

text \<open>
  One poll: \<open>status\<close> is what the status port reads, and \<open>data\<close> what the data port reads
  when it is read. The result and the new \<open>SHIFT_DOWN\<close>.
\<close>

definition keyboard_read_ascii_nonblocking :: "u8 \<Rightarrow> u8 \<Rightarrow> bool \<Rightarrow> u8 option \<times> bool" where
  "keyboard_read_ascii_nonblocking status data shift_down =
     (if status AND 0x01 = 0 then (None, shift_down)
      else
        (let sc = data in
         if sc = 0x2A \<or> sc = 0x36 then (None, True)
         else if sc = 0xAA \<or> sc = 0xB6 then (None, False)
         else if sc AND 0x80 \<noteq> 0 then (None, shift_down)
         else (scancode_to_ascii sc shift_down, shift_down)))"

text \<open>The polls of a sequence of port reads, and the shift state after them.\<close>

fun keyboard_polls :: "(u8 \<times> u8) list \<Rightarrow> bool \<Rightarrow> u8 option list \<times> bool" where
  "keyboard_polls [] sh = ([], sh)"
| "keyboard_polls ((st, d) # evs) sh =
     (let (r, sh) = keyboard_read_ascii_nonblocking st d sh; (rs, sh) = keyboard_polls evs sh
      in (r # rs, sh))"

section \<open>A typist\<close>

text \<open>
  The scan codes a keyboard sends for a character: the key's make and break codes, between
  those of the left shift key when the character needs it.
\<close>

definition find_key :: "(char \<times> char \<Rightarrow> char) \<Rightarrow> u8 \<Rightarrow> u8 option" where
  "find_key pick c = map_option fst (find (\<lambda>k. of_char (pick (snd k)) = c) keymap)"

definition press :: "u8 \<Rightarrow> u8 list" where
  "press sc = [sc, sc OR 0x80]"

definition strokes :: "u8 \<Rightarrow> u8 list option" where
  "strokes c =
     (if c = 0x0A then Some (press 0x1C)
      else if c = 8 then Some (press 0x0E)
      else if c = 0x20 then Some (press 0x39)
      else
        (case find_key fst c of
           Some sc \<Rightarrow> Some (press sc)
         | None \<Rightarrow>
             (case find_key snd c of
                Some sc \<Rightarrow> Some ([0x2A] @ press sc @ [0xAA])
              | None \<Rightarrow> None)))"

text \<open>The characters with a key.\<close>

definition typable :: "u8 \<Rightarrow> bool" where
  "typable c \<longleftrightarrow> strokes c \<noteq> None"

text \<open>Port reads that deliver scan codes one by one, with empty polls in between.\<close>

fun delivers :: "u8 list \<Rightarrow> (u8 \<times> u8) list \<Rightarrow> bool" where
  "delivers scs [] = (scs = [])"
| "delivers scs ((st, d) # evs) =
     (if st AND 0x01 = 0 then delivers scs evs
      else (case scs of [] \<Rightarrow> False | sc # scs \<Rightarrow> d = sc \<and> delivers scs evs))"

definition keys_of :: "u8 option list \<Rightarrow> bytes" where
  "keys_of ps = List.map_filter id ps"

fun decode :: "u8 list \<Rightarrow> bool \<Rightarrow> bytes \<times> bool" where
  "decode [] sh = ([], sh)"
| "decode (sc # scs) sh =
     (let (r, sh) = keyboard_read_ascii_nonblocking 1 sc sh; (cs, sh) = decode scs sh
      in ((case r of None \<Rightarrow> cs | Some c \<Rightarrow> c # cs), sh))"

lemma decode_append:
  "decode (xs @ ys) sh =
     (let (cs, sh1) = decode xs sh; (ds, sh2) = decode ys sh1 in (cs @ ds, sh2))"
  by (induction xs arbitrary: sh) (auto simp: Let_def split: prod.splits option.splits)

lemma keys_of_simps [simp]:
  "keys_of [] = []" "keys_of (None # ps) = keys_of ps" "keys_of (Some c # ps) = c # keys_of ps"
  by (simp_all add: keys_of_def List.map_filter_def)

lemma read_ready:
  "st AND 1 \<noteq> 0 \<Longrightarrow>
     keyboard_read_ascii_nonblocking st d sh = keyboard_read_ascii_nonblocking 1 d sh"
  by (simp add: keyboard_read_ascii_nonblocking_def)

lemma polls_decode:
  "delivers scs evs \<Longrightarrow>
     keys_of (fst (keyboard_polls evs sh)) = fst (decode scs sh) \<and>
     snd (keyboard_polls evs sh) = snd (decode scs sh)"
proof (induction evs arbitrary: scs sh)
  case (Cons ev evs)
  obtain st d where ev: "ev = (st, d)" by fastforce
  show ?case
  proof (cases "st AND 1 = 0")
    case True
    with Cons.prems ev have "delivers scs evs" by simp
    from Cons.IH [OF this, of sh] True ev show ?thesis
      by (auto simp: keyboard_read_ascii_nonblocking_def split: prod.splits)
  next
    case False
    with Cons.prems ev obtain sc scs' where scs: "scs = sc # scs'" "d = sc" "delivers scs' evs"
      by (cases scs) auto
    obtain r sh1 where "keyboard_read_ascii_nonblocking 1 sc sh = (r, sh1)" by fastforce
    with Cons.IH [OF scs(3), of sh1] ev scs read_ready [OF False, of sc sh] show ?thesis
      by (cases r) (auto simp: Let_def split: prod.splits)
  qed
qed simp

text \<open>The keys, checked one by one.\<close>

lemma keymap_strokes:
  "\<forall>(sc, p, q) \<in> set keymap.
     decode (press sc) False = ([of_char p], False) \<and>
     decode ([0x2A] @ press sc @ [0xAA]) False = ([of_char q], False) \<and>
     decode (press sc) True = ([of_char q], True)"
  by code_simp

lemma other_strokes:
  "decode (press 0x1C) False = ([0x0A], False)" "decode (press 0x0E) False = ([8], False)"
  "decode (press 0x39) False = ([0x20], False)"
  by code_simp+

lemma find_key_Some:
  "find_key pick c = Some sc \<Longrightarrow> \<exists>p q. (sc, p, q) \<in> set keymap \<and> c = of_char (pick (p, q))"
proof -
  assume "find_key pick c = Some sc"
  then obtain k where "find (\<lambda>k. of_char (pick (snd k)) = c) keymap = Some k" "fst k = sc"
    by (auto simp: find_key_def)
  then have "k \<in> set keymap" "of_char (pick (snd k)) = c" by (auto simp: find_Some_iff)
  with \<open>fst k = sc\<close> show ?thesis by (cases k) auto
qed

lemma find_key_None: "find_key pick c = None \<longleftrightarrow> (\<forall>(sc, k) \<in> set keymap. of_char (pick k) \<noteq> c)"
  by (auto simp: find_key_def find_None_iff)

lemma strokes_decode: "strokes c = Some scs \<Longrightarrow> decode scs False = ([c], False)"
  using keymap_strokes other_strokes
  by (fastforce simp: strokes_def split: if_splits option.splits dest!: find_key_Some)

lemma decode_text:
  "\<forall>c \<in> set t. typable c \<Longrightarrow> decode (concat (map (the \<circ> strokes) t)) False = (t, False)"
proof (induction t)
  case (Cons c t)
  then obtain scs where "strokes c = Some scs" by (auto simp: typable_def)
  with Cons strokes_decode [OF this] show ?case by (simp add: decode_append)
qed simp



text \<open>The characters the table lacks.\<close>

definition no_key :: "bytes" where
  "no_key = [0x22, 0x27, 0x2C, 0x2E, 0x2F, 0x3A, 0x3B, 0x3C, 0x3E, 0x3F, 0x5B, 0x5C, 0x5D, 0x60,
     0x7B, 0x7C, 0x7D, 0x7E]"

lemma typable_keys:
  "typable c \<longleftrightarrow> c = 0x0A \<or> c = 8 \<or> c = 0x20 \<or>
     (\<exists>(sc, p, q) \<in> set keymap. c = of_char p \<or> c = of_char q)"
proof -
  have "(find_key fst c \<noteq> None \<or> find_key snd c \<noteq> None) =
      (\<exists>(sc, p, q) \<in> set keymap. c = of_char p \<or> c = of_char q)"
    unfolding find_key_None by fastforce
  moreover have "typable c \<longleftrightarrow> c = 0x0A \<or> c = 8 \<or> c = 0x20 \<or>
      find_key fst c \<noteq> None \<or> find_key snd c \<noteq> None"
    by (auto simp: typable_def strokes_def split: option.splits)
  ultimately show ?thesis by simp
qed

definition key_chars :: bytes where
  "key_chars = map (\<lambda>(sc, p, q). of_char p) keymap @ map (\<lambda>(sc, p, q). of_char q) keymap"

lemma key_chars_eval:
  "key_chars =
    [0x31, 0x32, 0x33, 0x34, 0x35, 0x36, 0x37, 0x38, 0x39, 0x30, 0x2D, 0x3D, 0x71, 0x77,
     0x65, 0x72, 0x74, 0x79, 0x75, 0x69, 0x6F, 0x70, 0x61, 0x73, 0x64, 0x66, 0x67, 0x68,
     0x6A, 0x6B, 0x6C, 0x7A, 0x78, 0x63, 0x76, 0x62, 0x6E, 0x6D, 0x21, 0x40, 0x23, 0x24,
     0x25, 0x5E, 0x26, 0x2A, 0x28, 0x29, 0x5F, 0x2B, 0x51, 0x57, 0x45, 0x52, 0x54, 0x59,
     0x55, 0x49, 0x4F, 0x50, 0x41, 0x53, 0x44, 0x46, 0x47, 0x48, 0x4A, 0x4B, 0x4C, 0x5A,
     0x58, 0x43, 0x56, 0x42, 0x4E, 0x4D]"
  by code_simp

lemma key_chars_range: "\<forall>c \<in> set key_chars. 0x20 \<le> c \<and> c \<le> 0x7E \<and> c \<notin> set no_key"
  by (simp add: key_chars_eval no_key_def)

lemma key_chars_all:
  "\<forall>n \<in> set [33..<127]. of_nat n \<in> set no_key \<or> of_nat n \<in> set key_chars"
  by (simp add: key_chars_eval no_key_def)

lemma typable_iff:
  "typable c \<longleftrightarrow> c = 0x0A \<or> c = 8 \<or> (0x20 \<le> c \<and> c \<le> 0x7E \<and> c \<notin> set no_key)"
proof -
  have "typable c \<longleftrightarrow> c = 0x0A \<or> c = 8 \<or> c = 0x20 \<or> c \<in> set key_chars"
    by (auto simp: typable_keys key_chars_def image_iff case_prod_beta)
  moreover have "c \<in> set key_chars" if "0x20 \<le> c" "c \<le> 0x7E" "c \<notin> set no_key" "c \<noteq> 0x20"
  proof -
    have "unat c \<noteq> 32" using that(4) by (simp add: word_unat_eq_iff)
    then have "unat c \<in> {33..<127}" using that(1,2) by (simp add: word_le_nat_alt)
    then have "unat c \<in> set [33..<127]" by (simp only: set_upt)
    then show ?thesis using key_chars_all that(3) by fastforce
  qed
  moreover have "0x20 \<notin> set no_key" by (simp add: no_key_def)
  ultimately show ?thesis using key_chars_range by auto
qed

lemma scancode_typable: "scancode_to_ascii sc sh = Some c \<Longrightarrow> typable c"
  by (auto simp: scancode_to_ascii_def typable_keys split: if_splits option.splits dest!: map_of_SomeD)

lemma polls_typable: "c \<in> set (keys_of (fst (keyboard_polls evs sh))) \<Longrightarrow> typable c"
proof (induction evs arbitrary: sh)
  case (Cons ev evs)
  obtain st d where ev: "ev = (st, d)" by fastforce
  obtain r sh' where r: "keyboard_read_ascii_nonblocking st d sh = (r, sh')" by fastforce
  then have "r = None \<or> (\<exists>k. r = Some k \<and> typable k)"
    using scancode_typable [of d sh]
    by (cases "scancode_to_ascii d sh")
      (auto simp: keyboard_read_ascii_nonblocking_def Let_def split: if_splits)
  with Cons.prems Cons.IH [of sh'] ev r show ?case by (auto split: prod.splits)
qed simp

text \<open>Whatever the controller sends, in whatever shift state, a poll yields a line feed,
  a backspace or a printable ASCII character other than \<open>" ' , . / : ; < > ? [ \ ] ` { | } ~\<close>;
  and each of these other characters can be typed. So neither a path separator nor a file name
  extension can be entered.\<close>

lemma keyboard_charset:
  "(\<exists>evs sh. c \<in> set (keys_of (fst (keyboard_polls evs sh)))) =
     (c = 0x0A \<or> c = 8 \<or> (0x20 \<le> c \<and> c \<le> 0x7E \<and>
       c \<notin> {0x22, 0x27, 0x2C, 0x2E, 0x2F, 0x3A, 0x3B, 0x3C, 0x3E, 0x3F, 0x5B, 0x5C, 0x5D, 0x60,
            0x7B, 0x7C, 0x7D, 0x7E}))"
proof -
  have "\<exists>evs sh. c \<in> set (keys_of (fst (keyboard_polls evs sh)))" if t: "typable c"
  proof -
    obtain scs where s: "strokes c = Some scs" using t unfolding typable_def by blast
    have "delivers scs (map (Pair 1) scs)" for scs by (induction scs) simp_all
    from polls_decode [OF this, of scs False] strokes_decode [OF s]
    have "c \<in> set (keys_of (fst (keyboard_polls (map (Pair 1) scs) False)))" by simp
    then show ?thesis by blast
  qed
  then have "(\<exists>evs sh. c \<in> set (keys_of (fst (keyboard_polls evs sh)))) = typable c"
    using polls_typable by blast
  then show ?thesis by (simp add: typable_iff no_key_def)
qed

end
