(* ===== verification/Shell_Props.thy ===== *)
theory Shell_Props
  imports Shell Keyboard
begin

text \<open>
  The shell as its user meets it: what the terminal shows of a line being edited, and a
  whole command from the keys of the keyboard to the answer on the terminal.
\<close>

section \<open>The line on the screen\<close>

text \<open>One row of a terminal: its cells and the cursor; a backspace moves the cursor left.\<close>

fun show_byte :: "u8 \<Rightarrow> bytes \<times> nat \<Rightarrow> bytes \<times> nat" where
  "show_byte b (cells, cur) =
     (if b = 8 then (cells, cur - 1)
      else if cur < length cells then (cells[cur := b], Suc cur)
      else (cells @ [b], Suc cur))"

definition row_shows :: "bytes \<Rightarrow> bytes \<times> nat \<Rightarrow> bool" where
  "row_shows l r \<longleftrightarrow> (\<exists>m. r = (l @ replicate m 0x20, length l))"

lemma row_shows_put:
  assumes "row_shows l r" "b \<noteq> 8"
  shows "row_shows (l @ [b]) (show_byte b r)"
proof -
  obtain m where m: "r = (l @ replicate m 0x20, length l)" using assms(1) by (auto simp: row_shows_def)
  show ?thesis
  proof (cases m)
    case 0
    with m assms(2) show ?thesis by (auto simp: row_shows_def intro: exI [of _ 0])
  next
    case (Suc k)
    with m assms(2) show ?thesis by (auto simp: row_shows_def intro: exI [of _ k])
  qed
qed

lemma row_shows_erase:
  assumes "row_shows (l @ [c]) r"
  shows "row_shows l (fold show_byte [8, 0x20, 8] r)"
proof -
  obtain m where "r = (l @ [c] @ replicate m 0x20, Suc (length l))"
    using assms by (auto simp: row_shows_def)
  then have "fold show_byte [8, 0x20, 8] r = (l @ replicate (Suc m) 0x20, length l)"
    by simp
  then show ?thesis unfolding row_shows_def by blast
qed

lemma row_shows_echo:
  assumes "row_shows (p @ l) r"
  shows "row_shows (p @ edit l k) (fold show_byte (echo_key l k) r)"
proof -
  consider (erase) "erases k" | (print) "printable k" "\<not> erases k" | (other) "\<not> erases k" "\<not> printable k"
    by blast
  then show ?thesis
  proof cases
    case erase
    show ?thesis
    proof (cases l rule: rev_cases)
      case (snoc l' c)
      with assms have "row_shows ((p @ l') @ [c]) r" by simp
      from row_shows_erase [OF this] erase snoc show ?thesis by (simp add: edit_def echo_key_def)
    qed (use assms erase in \<open>simp add: edit_def echo_key_def\<close>)
  next
    case print
    then have "k \<noteq> 8" by (auto simp: erases_def)
    from row_shows_put [OF assms this] print assms show ?thesis
      by (simp add: edit_def echo_key_def)
  next
    case other
    with assms show ?thesis by (simp add: edit_def echo_key_def)
  qed
qed

lemma row_shows_echoes:
  "row_shows (p @ l) r \<Longrightarrow> row_shows (p @ foldl edit l ks) (fold show_byte (echoes l ks) r)"
proof (induction ks arbitrary: l r)
  case (Cons k ks)
  from Cons.IH [OF row_shows_echo [OF Cons.prems]] show ?case by simp
qed simp

text \<open>What one sees is what is run: whatever keys were pressed since the prompt, the row
  on the terminal reads the prompt followed by exactly the line that the return key would
  run, then only blanks, with the cursor at its end.\<close>

lemma echo_shows_line:
  "\<exists>m. fold show_byte (prompt @ echoes [] ks) ([], 0) =
     (prompt @ foldl edit [] ks @ replicate m 0x20, length (prompt @ foldl edit [] ks))"
proof -
  have "fold show_byte prompt ([], 0) = (prompt, length prompt)"
    by (simp add: prompt_def str_def)
  then have "row_shows (prompt @ []) (fold show_byte prompt ([], 0))"
    unfolding row_shows_def by (intro exI [of _ 0]) simp
  from row_shows_echoes [OF this, of ks] show ?thesis
    by (auto simp: row_shows_def)
qed

section \<open>From the keyboard to the answer\<close>

lemma keys_of_append [simp]: "keys_of (ps @ qs) = keys_of ps @ keys_of qs"
  by (simp add: keys_of_def List.map_filter_def)

lemma keys_of_snoc:
  "keys_of ps = ks @ [c] \<Longrightarrow> \<exists>qs rs. ps = qs @ Some c # rs \<and> keys_of qs = ks \<and> keys_of rs = []"
proof (induction ps arbitrary: ks)
  case (Cons p ps)
  show ?case
  proof (cases p)
    case None
    with Cons.prems Cons.IH [of ks] obtain qs rs where
      "ps = qs @ Some c # rs" "keys_of qs = ks" "keys_of rs = []" by auto
    with None show ?thesis by (intro exI [of _ "None # qs"] exI [of _ rs]) auto
  next
    case (Some k)
    show ?thesis
    proof (cases ks)
      case Nil
      with Cons.prems Some show ?thesis by (intro exI [of _ "[]"] exI [of _ ps]) auto
    next
      case (Cons k' ks')
      with Cons.prems Some have "k' = k" "keys_of ps = ks' @ [c]" by auto
      with Cons.IH [of ks'] obtain qs rs where
        "ps = qs @ Some c # rs" "keys_of qs = ks'" "keys_of rs = []" by auto
      with Some Cons \<open>k' = k\<close> show ?thesis by (intro exI [of _ "Some k # qs"] exI [of _ rs]) auto
    qed
  qed
qed simp

lemma foldl_edit_plain:
  "\<forall>c \<in> set t. printable c \<Longrightarrow> length l + length t \<le> 256 \<Longrightarrow>
     foldl edit l t = l @ t \<and> echoes l t = t"
proof (induction t arbitrary: l)
  case (Cons c t)
  then have "edit l c = l @ [c]" "echo_key l c = [c]"
    using disjoint_keys by (auto simp: edit_def echo_key_def)
  with Cons show ?case by simp
qed simp

text \<open>
  What \<open>run_shell\<close> is told about its keyboard: \<open>give ps\<close> is the terminal with the
  polls that are still to come, of which \<open>read_input\<close> takes one; showing something does
  not use any up.
\<close>

locale polled_keyboard =
  fixes read_input :: "'a tty_scheme \<Rightarrow> u8 option \<times> 'a tty_scheme"
    and give :: "u8 option list \<Rightarrow> 'a tty_scheme \<Rightarrow> 'a tty_scheme"
  assumes read_poll: "read_input (give (p # ps) t) = (p, give ps t)"
    and process_give: "process bs (give ps t) = give ps (process bs t)"
begin

lemma loop_edit:
  "holds b l \<Longrightarrow> \<forall>k \<in> set (keys_of ps). \<not> ends_line k \<Longrightarrow>
     \<exists>b'. shell_loop read_input h (length ps + n) b (give (ps @ qs) t) =
          shell_loop read_input h n b' (give qs (process (echoes l (keys_of ps)) t)) \<and>
        holds b' (foldl edit l (keys_of ps))"
proof (induction ps arbitrary: b l t)
  case Nil
  have "give qs (process [] t) = give qs t" by (simp add: process_def)
  with Nil show ?case by auto
next
  case (Cons p ps)
  show ?case
  proof (cases p)
    case None
    with Cons show ?thesis by (auto simp: read_poll)
  next
    case (Some k)
    with Cons.prems obtain b1 where
      b1: "shell_key h k b (give (ps @ qs) t) = Done b1 (give (ps @ qs) (process (echo_key l k) t))"
        "holds b1 (edit l k)"
      using shell_key_edit [OF Cons.prems(1), of k h "give (ps @ qs) t"] by (auto simp: process_give)
    from Cons.IH [OF b1(2), of "process (echo_key l k) t"] Cons.prems(2) b1(1) Some
    show ?thesis by (auto simp: read_poll)
  qed
qed

lemma loop_idle:
  "keys_of ps = [] \<Longrightarrow> shell_loop read_input h (length ps) b (give ps t) = Done b (give [] t)"
proof (induction ps)
  case (Cons p ps)
  then show ?case by (cases p) (auto simp: read_poll)
qed simp

text \<open>A line that the keyboard types is echoed, and run when its end is reached.\<close>

lemma line_typed:
  assumes "holds b []" "keys_of qs = l" "\<forall>c \<in> set l. printable c" "length l \<le> 256"
  shows "\<exists>b'. holds b' [] \<and>
    shell_loop read_input h (length qs + Suc n) b (give (qs @ Some 0x0A # rs) t) =
    and_then (exec_command h l (give rs (process (l @ [0x0A]) t)))
      (\<lambda>_ t. shell_loop read_input h n b' (process prompt t))"
proof -
  have noend: "\<forall>k \<in> set (keys_of qs). \<not> ends_line k"
    using assms(2,3) disjoint_keys(3) by auto
  have ed: "foldl edit [] (keys_of qs) = l" "echoes [] (keys_of qs) = l"
    using foldl_edit_plain [OF assms(3), of "[]"] assms(2,4) by simp_all
  obtain b1 where b1: "shell_loop read_input h (length qs + Suc n) b (give (qs @ Some 0x0A # rs) t) =
        shell_loop read_input h (Suc n) b1 (give (Some 0x0A # rs) (process l t))" "holds b1 l"
    using loop_edit [OF assms(1) noend, where h = h and n = "Suc n" and t = t and qs = "Some 0x0A # rs"] ed
    by auto
  have "shell_key h 0x0A b1 (give rs (process l t)) =
      and_then (exec_command h l (give rs (process (l @ [0x0A]) t)))
        (\<lambda>_ t. Done (b1\<lparr>line_len := 0\<rparr>) (process prompt t))"
    using b1(2) printable_utf8 [OF assms(3)] by (simp add: shell_key_def holds_def process_give)
  then show ?thesis
    using b1(1) holds_empty(2) [OF b1(2)]
    by (intro exI [of _ "b1\<lparr>line_len := 0\<rparr>"]) (simp add: read_poll and_then_assoc)
qed

end

text \<open>A terminal with the polls of the keyboard that are still to come.\<close>

record polled = tty +
  polls :: "u8 option list"

definition read_polled :: "polled \<Rightarrow> u8 option \<times> polled" where
  "read_polled t = (case polls t of [] \<Rightarrow> (None, t) | p # ps \<Rightarrow> (p, t\<lparr>polls := ps\<rparr>))"

interpretation typed: polled_keyboard read_polled "\<lambda>ps t. t\<lparr>polls := ps\<rparr>"
  by unfold_locales (simp_all add: read_polled_def process_def)

lemma length_keyboard_polls: "length (fst (keyboard_polls evs sh)) = length evs"
  by (induction evs sh rule: keyboard_polls.induct) (auto split: prod.splits)

lemma exec_echo:
  assumes "t \<noteq> []" "graphic [last t]"
  shows "exec_command h (str ''echo '' @ t) s = Done () (process (t @ [0x0A]) s)"
proof -
  have "trim (str ''echo '' @ t) = str ''echo '' @ t"
    using assms by (intro trim_bounded) (simp_all add: str_def graphic_def)
  moreover have "strip_prefix (str ''echo '') (str ''echo '' @ t) = Some t"
    by (simp add: strip_prefix_def)
  ultimately show ?thesis by (simp add: exec_command_def str_def)
qed

lemma printable_graphic: "printable c \<Longrightarrow> c \<noteq> 0x20 \<Longrightarrow> graphic [c]"
proof -
  assume "printable c" "c \<noteq> 0x20"
  then have "32 \<le> unat c" "unat c \<le> 126" "unat c \<noteq> 32"
    by (auto simp: printable_def word_le_nat_alt word_unat_eq_iff)
  then show ?thesis by (simp add: graphic_def word_le_nat_alt)
qed

text \<open>C29: end to end, from scan codes to the screen: type \<open>echo\<close>, a text of characters the
  keyboard has, and return, in any timing; the terminal then shows the prompt, the line as
  typed, the text, and a new prompt, and every poll was consumed.\<close>

theorem typed_echo:
  assumes "\<forall>c \<in> set t. typable c \<and> printable c" "t \<noteq> []" "last t \<noteq> 0x20" "length t \<le> 251"
    "delivers (concat (map (the \<circ> strokes) (str ''echo '' @ t @ [0x0A]))) evs"
  shows "\<exists>b. run_shell read_polled h (length evs)
      \<lparr>tty_out = [], polls = fst (keyboard_polls evs False)\<rparr> =
    Done b \<lparr>tty_out = prompt @ str ''echo '' @ t @ [0x0A] @ t @ [0x0A] @ prompt, polls = []\<rparr>"
proof -
  let ?l = "str ''echo '' @ t"
  let ?t = "\<lparr>tty_out = prompt, polls = []\<rparr>"
  define ps where "ps = fst (keyboard_polls evs False)"
  have tp: "\<forall>c \<in> set (?l @ [0x0A]). typable c"
    using assms(1) by (auto simp: str_def typable_iff no_key_def)
  have "keys_of ps = ?l @ [0x0A]"
    using polls_decode [of _ evs False, OF assms(5)] decode_text [OF tp]
    unfolding ps_def by (simp only: append_assoc) simp
  then obtain qs rs where split: "ps = qs @ Some 0x0A # rs" "keys_of qs = ?l" "keys_of rs = []"
    using keys_of_snoc by blast
  have pr: "\<forall>c \<in> set ?l. printable c" "length ?l \<le> 256"
    using assms(1,4) by (auto simp: str_def printable_def)
  have "graphic [last t]" using assms(1-3) last_in_set [of t] by (intro printable_graphic) auto
  note echo = exec_echo [OF assms(2) this, of h]
  from typed.line_typed [OF holds_empty(1) split(2) pr, of h "length rs" rs ?t] obtain b where
    "shell_loop read_polled h (length ps) empty_line (?t\<lparr>polls := ps\<rparr>) =
      and_then (exec_command h ?l ((process (?l @ [0x0A]) ?t)\<lparr>polls := rs\<rparr>))
        (\<lambda>_ t. shell_loop read_polled h (length rs) b (process prompt t))"
    unfolding split(1) by auto
  also have "\<dots> = shell_loop read_polled h (length rs) b
      ((process (?l @ [0x0A] @ t @ [0x0A] @ prompt) ?t)\<lparr>polls := rs\<rparr>)"
    unfolding echo and_then.simps by (simp add: process_def)
  also have "\<dots> = Done b ((process (?l @ [0x0A] @ t @ [0x0A] @ prompt) ?t)\<lparr>polls := []\<rparr>)"
    by (rule typed.loop_idle [OF split(3)])
  also have "length ps = length evs" unfolding ps_def by (rule length_keyboard_polls)
  finally show ?thesis
    unfolding run_shell_def ps_def by (simp add: process_def)
qed

theorem typed_echo_witness:
  "\<exists>b. run_shell read_polled (\<lambda>c t. Hang) 14
      \<lparr>tty_out = [], polls = fst (keyboard_polls (map (Pair 1)
        [0x12, 0x92, 0x2E, 0xAE, 0x23, 0xA3, 0x18, 0x98, 0x39, 0xB9, 0x17, 0x97, 0x1C, 0x9C]) False)\<rparr> =
    Done b \<lparr>tty_out = prompt @ str ''echo '' @ str ''i'' @ [0x0A] @ str ''i'' @ [0x0A] @ prompt,
      polls = []\<rparr>"
proof -
  let ?scs = "[0x12, 0x92, 0x2E, 0xAE, 0x23, 0xA3, 0x18, 0x98, 0x39, 0xB9, 0x17, 0x97, 0x1C, 0x9C] :: bytes"
  have "concat (map (the \<circ> strokes) (str ''echo '' @ str ''i'' @ [0x0A])) = ?scs"
    by (simp add: str_def strokes_def find_key_def keymap_def press_def)
  moreover have "typable (of_char CHR ''i'')"
    by (simp add: typable_def strokes_def find_key_def keymap_def)
  ultimately have w: "\<exists>b. run_shell read_polled (\<lambda>c t. Hang) (length (map (Pair (1 :: u8)) ?scs))
      \<lparr>tty_out = [], polls = fst (keyboard_polls (map (Pair 1) ?scs) False)\<rparr> =
    Done b \<lparr>tty_out = prompt @ str ''echo '' @ str ''i'' @ [0x0A] @ str ''i'' @ [0x0A] @ prompt,
      polls = []\<rparr>"
    by (intro typed_echo) (simp_all add: str_def printable_def)
  have n: "length (map (Pair (1 :: u8)) ?scs) = 14" by simp
  show ?thesis by (rule w [unfolded n])
qed

end
