(* ===== verification/Vga_Text.thy ===== *)
theory Vga_Text
  imports Prelude
begin

text \<open>
  The text-mode terminal (\<open>src/os_terminal.rs\<close>): a cursor, and cells of two bytes in the
  memory from \<open>0xb8000\<close> on. The loops that move and clear cells work on memory through
  addresses; the reference is a grid of 25 rows of 80 cells.
\<close>

unbundle bit_operations_syntax

section \<open>The terminal\<close>

definition BUFFER_HEIGHT :: nat where "BUFFER_HEIGHT = 25"
definition BUFFER_WIDTH :: nat where "BUFFER_WIDTH = 80"
definition VGA_BUFFER_ADDR :: u64 where "VGA_BUFFER_ADDR = 0xb8000"

lemmas vga_consts = BUFFER_HEIGHT_def BUFFER_WIDTH_def VGA_BUFFER_ADDR_def

datatype Color = Black | LightGray | Yellow

fun color_value :: "Color \<Rightarrow> u8" where
  "color_value Black = 0"
| "color_value LightGray = 7"
| "color_value Yellow = 14"

definition color_code :: "Color \<Rightarrow> Color \<Rightarrow> u8" where
  "color_code foreground background = push_bit 4 (color_value background) OR color_value foreground"

text \<open>A \<open>ScreenChar\<close> is its two bytes; \<open>cell\<close> and \<open>set_cell\<close> are its volatile accesses.\<close>

type_synonym screen_char = bytes

definition cell_addr :: "nat \<Rightarrow> u64" where
  "cell_addr index = VGA_BUFFER_ADDR + of_nat (2 * index)"

definition cell :: "memory \<Rightarrow> nat \<Rightarrow> screen_char" where
  "cell m index = mem_read m (cell_addr index) 2"

definition set_cell :: "memory \<Rightarrow> nat \<Rightarrow> screen_char \<Rightarrow> memory" where
  "set_cell m index ch = mem_write m (cell_addr index) ch"

text \<open>\<open>OSTerminal\<close>, and the memory it writes to.\<close>

record os_terminal =
  vrow :: nat
  vcol :: nat
  vcolor :: u8
  vmem :: memory

definition new_terminal :: "memory \<Rightarrow> os_terminal" where
  "new_terminal m = \<lparr>vrow = 0, vcol = 0, vcolor = color_code Yellow Black, vmem = m\<rparr>"

definition write_at :: "nat \<Rightarrow> nat \<Rightarrow> u8 \<Rightarrow> u8 \<Rightarrow> memory \<Rightarrow> memory" where
  "write_at r c byte color m = set_cell m (r * BUFFER_WIDTH + c) [byte, color]"

definition clear_row :: "nat \<Rightarrow> os_terminal \<Rightarrow> os_terminal" where
  "clear_row r t =
     t\<lparr>vmem := fold (\<lambda>c. write_at r c 0x20 (vcolor t)) [0..<BUFFER_WIDTH] (vmem t)\<rparr>"

definition move_cell :: "nat \<Rightarrow> nat \<Rightarrow> memory \<Rightarrow> memory" where
  "move_cell r c m =
     (let from_index = r * BUFFER_WIDTH + c; to_index = (r - 1) * BUFFER_WIDTH + c
      in set_cell m to_index (cell m from_index))"

definition scroll_up :: "os_terminal \<Rightarrow> os_terminal" where
  "scroll_up t =
     (let m = fold (\<lambda>r. fold (move_cell r) [0..<BUFFER_WIDTH]) [1..<BUFFER_HEIGHT] (vmem t);
          t = clear_row (BUFFER_HEIGHT - 1) (t\<lparr>vmem := m\<rparr>)
      in t\<lparr>vrow := BUFFER_HEIGHT - 1, vcol := 0\<rparr>)"

definition new_line :: "os_terminal \<Rightarrow> os_terminal" where
  "new_line t =
     (let t = (if vrow t + 1 \<ge> BUFFER_HEIGHT then scroll_up t else t\<lparr>vrow := vrow t + 1\<rparr>)
      in t\<lparr>vcol := 0\<rparr>)"

definition write_byte :: "u8 \<Rightarrow> os_terminal \<Rightarrow> os_terminal" where
  "write_byte byte t =
     (if byte = 0x0A then new_line t
      else
        (let t = (if vcol t \<ge> BUFFER_WIDTH then new_line t else t)
         in t\<lparr>vmem := write_at (vrow t) (vcol t) byte (vcolor t) (vmem t), vcol := vcol t + 1\<rparr>))"

definition write_str :: "bytes \<Rightarrow> os_terminal \<Rightarrow> os_terminal" where
  "write_str s =
     fold (\<lambda>byte. if (0x20 \<le> byte \<and> byte \<le> 0x7E) \<or> byte = 0x0A then write_byte byte
                  else write_byte 0xFE) s"

definition clear_screen_inner :: "os_terminal \<Rightarrow> os_terminal" where
  "clear_screen_inner t = (fold clear_row [0..<BUFFER_HEIGHT] t)\<lparr>vrow := 0, vcol := 0\<rparr>"

definition vga_print :: "bytes \<Rightarrow> os_terminal \<Rightarrow> os_terminal" where
  "vga_print s t = write_str s t"

definition vga_println :: "bytes \<Rightarrow> os_terminal \<Rightarrow> os_terminal" where
  "vga_println s t = write_str [0x0A] (write_str s t)"

section \<open>Cells that are stored and moved\<close>

text \<open>What the loops rely on: \<open>n\<close> cells that are independent of each other.\<close>

locale cell_store =
  fixes rd :: "'m \<Rightarrow> nat \<Rightarrow> 'c" and wr :: "'m \<Rightarrow> nat \<Rightarrow> 'c \<Rightarrow> 'm" and bound :: nat
    and valid :: "'c \<Rightarrow> bool"
  assumes rd_wr: "i < bound \<Longrightarrow> j < bound \<Longrightarrow> valid v \<Longrightarrow> rd (wr m i v) j = (if i = j then v else rd m j)"
    and rd_valid: "i < bound \<Longrightarrow> valid (rd m i)"
begin

lemma fill:
  "p + n \<le> bound \<Longrightarrow> valid v \<Longrightarrow> j < bound \<Longrightarrow>
     rd (fold (\<lambda>c m. wr m (p + c) v) [0..<n] m) j = (if p \<le> j \<and> j < p + n then v else rd m j)"
  by (induction n) (auto simp: rd_wr)

lemma shift:
  "w \<le> n \<Longrightarrow> n \<le> bound \<Longrightarrow> j < bound \<Longrightarrow>
     rd (fold (\<lambda>k m. wr m (k - w) (rd m k)) [w..<n] m) j = (if j + w < n then rd m (j + w) else rd m j)"
proof (induction n arbitrary: j)
  case (Suc n)
  show ?case
  proof (cases "w = Suc n")
    case False
    with Suc.prems have n: "w \<le> n" "n < bound" by auto
    let ?m = "fold (\<lambda>k m. wr m (k - w) (rd m k)) [w..<n] m"
    have "rd ?m n = rd m n" using Suc.IH [of n] n by (cases "w = 0") auto
    moreover have "rd (wr ?m (n - w) (rd ?m n)) j = (if n - w = j then rd ?m n else rd ?m j)"
      using Suc.prems n rd_valid by (intro rd_wr) auto
    ultimately show ?thesis
      using Suc.IH [of j] Suc.prems n by (auto simp: less_Suc_eq)
  qed (use Suc.prems in simp)
qed simp

end

lemma cell_set_cell:
  assumes "i < 2000" "j < 2000" "length v = 2"
  shows "cell (set_cell m i v) j = (if i = j then v else cell m j)"
proof (cases "i = j")
  case True
  with assms mem_read_write_same [of v m "cell_addr j"] show ?thesis
    by (simp add: cell_def set_cell_def)
next
  case False
  have far: "2 \<le> unat (cell_addr j + of_nat k - cell_addr i)" if "k < 2" for k
  proof -
    have u: "unat (cell_addr n) = 753664 + 2 * n" if "n < 2000" for n
      using that by (simp add: cell_addr_def vga_consts unat_word_ariths)
    have a: "unat (cell_addr j + of_nat k) = 753664 + 2 * j + k"
      using u [OF assms(2)] that assms(2) by (simp add: unat_word_ariths)
    show ?thesis
    proof (cases "i < j")
      case True
      then have "cell_addr i \<le> cell_addr j + of_nat k"
        using a u [OF assms(1)] by (simp add: word_le_nat_alt)
      then show ?thesis using a u [OF assms(1)] True by (simp add: unat_sub)
    next
      case F: False
      with False have "j < i" by simp
      then have lt: "unat (cell_addr j + of_nat k) < unat (cell_addr i)"
        using a u [OF assms(1)] that by simp
      have "unat (cell_addr j + of_nat k - cell_addr i) =
          unat (cell_addr j + of_nat k) + usize_bound - unat (cell_addr i)"
        using lt by (simp add: unat_sub_if_size word_size)
      then show ?thesis using a u [OF assms(1)] assms(1) by simp
    qed
  qed
  have "mem_write m (cell_addr i) v (cell_addr j + of_nat k) = m (cell_addr j + of_nat k)"
    if "k < 2" for k
    using far [OF that] assms(3) by (simp add: mem_write_def)
  then have "cell (set_cell m i v) j = cell m j"
    unfolding cell_def set_cell_def mem_read_def by (intro map_cong) simp_all
  with False show ?thesis by simp
qed

lemma length_cell [simp]: "length (cell m i) = 2"
  by (simp add: cell_def)

interpretation vga: cell_store cell set_cell 2000 "\<lambda>v. length v = 2"
  by unfold_locales (simp_all add: cell_set_cell)

section \<open>The grid\<close>

text \<open>The reference: rows of cells, the cursor, and a scroll that drops the first row.\<close>

definition blank :: "u8 \<Rightarrow> screen_char" where
  "blank color = [0x20, color]"

record grid =
  rows :: "screen_char list list"
  grow :: nat
  gcol :: nat

definition grid_of :: "os_terminal \<Rightarrow> grid" where
  "grid_of t =
     \<lparr>rows = map (\<lambda>r. map (\<lambda>c. cell (vmem t) (r * 80 + c)) [0..<80]) [0..<25],
      grow = vrow t, gcol = vcol t\<rparr>"

definition grid_newline :: "u8 \<Rightarrow> grid \<Rightarrow> grid" where
  "grid_newline color g =
     (if grow g + 1 \<ge> 25 then g\<lparr>rows := tl (rows g) @ [replicate 80 (blank color)], grow := 24, gcol := 0\<rparr>
      else g\<lparr>grow := grow g + 1, gcol := 0\<rparr>)"

definition grid_put :: "screen_char \<Rightarrow> grid \<Rightarrow> grid" where
  "grid_put ch g =
     g\<lparr>rows := (rows g)[grow g := (rows g ! grow g)[gcol g := ch]], gcol := gcol g + 1\<rparr>"

definition grid_byte :: "u8 \<Rightarrow> u8 \<Rightarrow> grid \<Rightarrow> grid" where
  "grid_byte color b g =
     (if b = 0x0A then grid_newline color g
      else grid_put [b, color] (if gcol g \<ge> 80 then grid_newline color g else g))"

text \<open>The characters the terminal can show; the others become a block.\<close>

definition shown :: "u8 \<Rightarrow> u8" where
  "shown b = (if (0x20 \<le> b \<and> b \<le> 0x7E) \<or> b = 0x0A then b else 0xFE)"

definition cursor_ok :: "os_terminal \<Rightarrow> bool" where
  "cursor_ok t \<longleftrightarrow> vrow t < 25 \<and> vcol t \<le> 80"

text \<open>Memory outside the cells is not touched.\<close>

definition outside_vga :: "memory \<Rightarrow> memory \<Rightarrow> bool" where
  "outside_vga m m' \<longleftrightarrow> (\<forall>a. (unat a < 0xb8000 \<or> 0xb8fa0 \<le> unat a) \<longrightarrow> m' a = m a)"

lemma outside_vga_refl [simp]: "outside_vga m m"
  by (simp add: outside_vga_def)

lemma outside_trans: "outside_vga m m1 \<Longrightarrow> outside_vga m1 m2 \<Longrightarrow> outside_vga m m2"
  by (simp add: outside_vga_def)

lemma outside_set_cell:
  assumes "i < 2000" "length v = 2"
  shows "outside_vga m (set_cell m i v)"
  unfolding outside_vga_def
proof (intro allI impI)
  fix a :: u64
  assume a: "unat a < 0xb8000 \<or> 0xb8fa0 \<le> unat a"
  have u: "unat (cell_addr i) = 753664 + 2 * i"
    using assms(1) by (simp add: cell_addr_def vga_consts unat_word_ariths)
  have "2 \<le> unat (a - cell_addr i)"
  proof (cases "cell_addr i \<le> a")
    case True
    then have "unat (a - cell_addr i) = unat a - unat (cell_addr i)" by (rule unat_sub)
    with a u assms(1) True show ?thesis by (auto simp: word_le_nat_alt)
  next
    case False
    then have "unat (a - cell_addr i) = unat a + usize_bound - unat (cell_addr i)"
      by (simp add: unat_sub_if_size word_size not_le word_less_nat_alt)
    with u assms(1) show ?thesis by simp
  qed
  then show "set_cell m i v a = m a" using assms(2) by (simp add: set_cell_def mem_write_def)
qed

lemma outside_fold:
  "(\<And>x m. x \<in> set xs \<Longrightarrow> outside_vga m (f x m)) \<Longrightarrow> outside_vga m (fold f xs m)"
proof (induction xs arbitrary: m)
  case (Cons x xs)
  then have "outside_vga m (f x m)" "outside_vga (f x m) (fold f xs (f x m))" by simp_all
  then show ?case by (auto intro: outside_trans)
qed simp

section \<open>The memory and the grid\<close>

definition rows_of :: "memory \<Rightarrow> screen_char list list" where
  "rows_of m = map (\<lambda>r. map (\<lambda>c. cell m (r * 80 + c)) [0..<80]) [0..<25]"

lemma rows_grid_of [simp]: "rows (grid_of t) = rows_of (vmem t)" "grow (grid_of t) = vrow t"
  "gcol (grid_of t) = vcol t"
  by (simp_all add: grid_of_def rows_of_def)

lemma rows_of_simps [simp]:
  "length (rows_of m) = 25" "r < 25 \<Longrightarrow> length (rows_of m ! r) = 80"
  "r < 25 \<Longrightarrow> c < 80 \<Longrightarrow> rows_of m ! r ! c = cell m (r * 80 + c)"
  by (simp_all add: rows_of_def)

lemma rows_of_eqI:
  assumes "length g = 25" "\<And>r. r < 25 \<Longrightarrow> length (g ! r) = 80"
    "\<And>r c. r < 25 \<Longrightarrow> c < 80 \<Longrightarrow> cell m (r * 80 + c) = g ! r ! c"
  shows "rows_of m = g"
  by (intro nth_equalityI) (simp_all add: assms)

lemma index_less: "r < 25 \<Longrightarrow> c < 80 \<Longrightarrow> r * 80 + c < (2000 :: nat)"
  by linarith

lemma index_eq: "c < 80 \<Longrightarrow> c' < 80 \<Longrightarrow> r * 80 + c = r' * 80 + c' \<longleftrightarrow> r = r' \<and> c = (c' :: nat)"
proof
  assume c: "c < 80" "c' < 80" "r * 80 + c = r' * 80 + c'"
  then have "(r * 80 + c) div 80 = (r' * 80 + c') div 80" by simp
  with c(1,2) have "r = r'" by simp
  with c(3) show "r = r' \<and> c = c'" by simp
qed simp

lemma rows_write_at:
  assumes "r < 25" "c < 80"
  shows "rows_of (write_at r c b color m) = (rows_of m)[r := (rows_of m ! r)[c := [b, color]]]"
    "outside_vga m (write_at r c b color m)"
proof -
  note i = index_less [OF assms]
  show "rows_of (write_at r c b color m) = (rows_of m)[r := (rows_of m ! r)[c := [b, color]]]"
    using assms i index_less
    by (intro rows_of_eqI)
      (auto simp: write_at_def vga_consts cell_set_cell index_eq nth_list_update)
  show "outside_vga m (write_at r c b color m)"
    using i by (simp add: write_at_def vga_consts outside_set_cell)
qed

lemma rows_clear_row:
  assumes "r < 25"
  shows "rows_of (vmem (clear_row r t)) = (rows_of (vmem t))[r := replicate 80 (blank (vcolor t))]"
    "outside_vga (vmem t) (vmem (clear_row r t))"
proof -
  have eq: "vmem (clear_row r t) =
      fold (\<lambda>c m. set_cell m (r * 80 + c) (blank (vcolor t))) [0..<80] (vmem t)"
    by (simp add: clear_row_def write_at_def [abs_def] vga_consts blank_def)
  have "cell (vmem (clear_row r t)) (q * 80 + c) =
      (if r = q then blank (vcolor t) else cell (vmem t) (q * 80 + c))" if "q < 25" "c < 80" for q c
  proof -
    have "r * 80 + 80 \<le> (2000 :: nat)" using assms by linarith
    moreover have "r * 80 \<le> q * 80 + c \<and> q * 80 + c < r * 80 + 80 \<longleftrightarrow> r = q" using that by linarith
    ultimately show ?thesis
      unfolding eq using vga.fill [of "r * 80" 80 "blank (vcolor t)" "q * 80 + c"] index_less [OF that]
      by (simp add: blank_def)
  qed
  then show "rows_of (vmem (clear_row r t)) = (rows_of (vmem t))[r := replicate 80 (blank (vcolor t))]"
    using assms by (intro rows_of_eqI) (auto simp: nth_list_update)
  show "outside_vga (vmem t) (vmem (clear_row r t))"
    unfolding eq using assms by (intro outside_fold outside_set_cell) (auto simp: blank_def)
qed

lemma clear_row_simps [simp]:
  "vrow (clear_row r t) = vrow t" "vcol (clear_row r t) = vcol t" "vcolor (clear_row r t) = vcolor t"
  by (simp_all add: clear_row_def)

text \<open>The two nested loops are one loop over the cells from the second row on.\<close>

lemma move_rows:
  "fold (\<lambda>r. fold (move_cell r) [0..<80]) [1..<Suc n] m =
     fold (\<lambda>k m. set_cell m (k - 80) (cell m k)) [80..<80 * Suc n] m"
proof (induction n)
  case (Suc n)
  have "[80..<80 * Suc (Suc n)] = [80..<80 * Suc n] @ map (\<lambda>c. Suc n * 80 + c) [0..<80]"
  proof -
    have "[80..<80 * Suc n + 80] = [80..<80 * Suc n] @ [80 * Suc n..<80 * Suc n + 80]"
      by (rule upt_add_eq_append) simp
    moreover have "[80 * Suc n..<80 * Suc n + 80] = map (\<lambda>c. Suc n * 80 + c) [0..<80]"
      by (intro nth_equalityI) simp_all
    ultimately show ?thesis by (simp add: add.commute)
  qed
  moreover have "move_cell (Suc n) =
      (\<lambda>c m. set_cell m (Suc n * 80 + c - 80) (cell m (Suc n * 80 + c)))"
    by (intro ext) (simp add: move_cell_def vga_consts Let_def)
  moreover have "[1..<Suc (Suc n)] = [1..<Suc n] @ [Suc n]" by simp
  ultimately show ?case using Suc by (simp only: fold_append fold_map comp_def fold.simps id_apply)
qed simp

lemma rows_scroll:
  "rows_of (vmem (scroll_up t)) = tl (rows_of (vmem t)) @ [replicate 80 (blank (vcolor t))]"
  "outside_vga (vmem t) (vmem (scroll_up t))"
proof -
  define mm where "mm = fold (\<lambda>k m. set_cell m (k - 80) (cell m k)) [80..<2000] (vmem t)"
  let ?t = "t\<lparr>vmem := mm\<rparr>"
  have "80 * Suc 24 = (2000 :: nat)" "[1..<Suc 24] = [1..<25]" by simp_all
  from move_rows [of 24 "vmem t", unfolded this]
  have eq: "vmem (scroll_up t) = vmem (clear_row 24 ?t)"
    unfolding scroll_up_def vga_consts mm_def Let_def by (simp del: upt_rec_numeral)
  have m: "cell mm (q * 80 + c) = cell (vmem t) (Suc q * 80 + c)" if "q < 24" "c < 80" for q c
  proof -
    have "q * 80 + c + 80 < 2000" using that by linarith
    then have "cell mm (q * 80 + c) = cell (vmem t) (q * 80 + c + 80)"
      unfolding mm_def by (subst vga.shift) simp_all
    then show ?thesis by (simp add: add.commute add.left_commute)
  qed
  have out: "outside_vga (vmem t) mm"
    unfolding mm_def by (rule outside_fold, rule outside_set_cell) (auto simp del: upt_rec_numeral)
  show "rows_of (vmem (scroll_up t)) = tl (rows_of (vmem t)) @ [replicate 80 (blank (vcolor t))]"
    unfolding eq
  proof (rule rows_of_eqI)
    fix r c :: nat
    assume rc: "r < 25" "c < 80"
    have "cell (vmem (clear_row 24 ?t)) (r * 80 + c) = (rows_of mm)[24 := replicate 80 (blank (vcolor t))] ! r ! c"
      using rows_clear_row(1) [of 24 ?t] rows_of_simps(3) [OF rc, of "vmem (clear_row 24 ?t)"] by simp
    also have "\<dots> = (tl (rows_of (vmem t)) @ [replicate 80 (blank (vcolor t))]) ! r ! c"
    proof (cases "r = 24")
      case False
      with rc have "r < 24" "Suc r < 25" by auto
      with rc m show ?thesis by (simp add: nth_append nth_tl)
    qed (use rc in \<open>simp add: nth_append\<close>)
    finally show "cell (vmem (clear_row 24 ?t)) (r * 80 + c) =
      (tl (rows_of (vmem t)) @ [replicate 80 (blank (vcolor t))]) ! r ! c" .
  qed (auto simp: nth_append nth_tl)
  show "outside_vga (vmem t) (vmem (scroll_up t))"
    unfolding eq using rows_clear_row(2) [of 24 ?t] outside_trans [OF out] by simp
qed

section \<open>Every operation on the grid\<close>

text \<open>\<open>draws t g t'\<close>: \<open>t'\<close> shows \<open>g\<close>, with a legal cursor, and nothing but cells of the
  buffer differ from \<open>t\<close>.\<close>

definition draws :: "os_terminal \<Rightarrow> grid \<Rightarrow> os_terminal \<Rightarrow> bool" where
  "draws t g t' \<longleftrightarrow> grid_of t' = g \<and> cursor_ok t' \<and> vcolor t' = vcolor t \<and> outside_vga (vmem t) (vmem t')"

lemma draws_trans:
  "draws t g t1 \<Longrightarrow> draws t1 h t2 \<Longrightarrow> draws t h t2"
  by (auto simp: draws_def intro: outside_trans)

lemma grid_eqI: "rows g = rows h \<Longrightarrow> grow g = grow h \<Longrightarrow> gcol g = gcol h \<Longrightarrow> g = (h :: grid)"
  by simp

lemma scroll_simps [simp]:
  "vrow (scroll_up t) = 24" "vcol (scroll_up t) = 0" "vcolor (scroll_up t) = vcolor t"
  by (simp_all add: scroll_up_def vga_consts Let_def clear_row_def del: upt_rec_numeral)

lemma draws_new_line:
  "cursor_ok t \<Longrightarrow> draws t (grid_newline (vcolor t) (grid_of t)) (new_line t)"
  by (auto simp: draws_def new_line_def vga_consts cursor_ok_def grid_newline_def Let_def rows_scroll
      intro!: grid_eqI)

lemma draws_write_byte:
  assumes "cursor_ok t"
  shows "draws t (grid_byte (vcolor t) b (grid_of t)) (write_byte b t)"
proof (cases "b = 0x0A")
  case True
  with draws_new_line [OF assms] show ?thesis by (simp add: write_byte_def grid_byte_def)
next
  case False
  have put: "draws t (grid_put [b, vcolor t] (grid_of t))
      (t\<lparr>vmem := write_at (vrow t) (vcol t) b (vcolor t) (vmem t), vcol := vcol t + 1\<rparr>)"
    if "cursor_ok t" "vcol t < 80" for t :: os_terminal
    using that rows_write_at [of "vrow t" "vcol t"]
    by (auto simp: draws_def cursor_ok_def grid_put_def intro!: grid_eqI)
  show ?thesis
  proof (cases "vcol t \<ge> 80")
    case True
    have n: "draws t (grid_newline (vcolor t) (grid_of t)) (new_line t)"
      by (rule draws_new_line [OF assms])
    then have "cursor_ok (new_line t)" "vcolor (new_line t) = vcolor t"
        "grid_of (new_line t) = grid_newline (vcolor t) (grid_of t)"
      by (simp_all add: draws_def)
    moreover have "vcol (new_line t) = 0" by (simp add: new_line_def Let_def)
    ultimately show ?thesis
      using draws_trans [OF n put [of "new_line t"]] True False
      by (simp add: write_byte_def grid_byte_def vga_consts Let_def)
  next
    case less: False
    with put [OF assms] False show ?thesis
      by (simp add: write_byte_def grid_byte_def vga_consts Let_def)
  qed
qed

lemma write_str_draws:
  "cursor_ok t \<Longrightarrow> draws t (fold (\<lambda>b. grid_byte (vcolor t) (shown b)) s (grid_of t)) (write_str s t)"
proof (induction s arbitrary: t)
  case Nil
  then show ?case by (simp add: write_str_def draws_def)
next
  case (Cons b s)
  have step: "write_str (b # s) t = write_str s (write_byte (shown b) t)"
    by (simp add: write_str_def shown_def)
  note w = draws_write_byte [OF Cons.prems, of "shown b"]
  then have "cursor_ok (write_byte (shown b) t)" by (simp add: draws_def)
  from Cons.IH [OF this] w show ?case
    unfolding step by (auto simp: draws_def intro: outside_trans)
qed

text \<open>C26: the terminal on memory is the terminal on a grid. Writing any string from a legal
  cursor position has the effect of its bytes, one after the other, on a grid of 25 rows of
  80 cells (the next cell, a wrap to the next row, a scroll by one row at the bottom), the
  cursor stays legal, and no memory outside the 4000 bytes of the buffer is written.\<close>

theorem vga_refines_grid:
  assumes "vrow t < 25" "vcol t \<le> 80"
  shows "grid_of (write_str s t) = fold (\<lambda>b. grid_byte (vcolor t) (shown b)) s (grid_of t) \<and>
    vrow (write_str s t) < 25 \<and> vcol (write_str s t) \<le> 80 \<and>
    (\<forall>a. unat a < 0xb8000 \<or> 0xb8fa0 \<le> unat a \<longrightarrow> vmem (write_str s t) a = vmem t a)"
  using write_str_draws [of t s] assms by (auto simp: draws_def cursor_ok_def outside_vga_def)

theorem vga_refines_grid_witness:
  "let t = new_terminal (\<lambda>a. 0x2E); s = str ''Hi'' @ [0x0A, 0x01] in
   grid_of (write_str s t) = fold (\<lambda>b. grid_byte 14 (shown b)) s (grid_of t) \<and>
   vrow (write_str s t) < 25 \<and> vcol (write_str s t) \<le> 80"
  unfolding Let_def
  using vga_refines_grid [of "new_terminal (\<lambda>a. 0x2E)" "str ''Hi'' @ [0x0A, 0x01]"]
  by (simp add: new_terminal_def color_code_def)

section \<open>Printing lines\<close>

lemma draws_clear:
  "rows_of (vmem (fold clear_row [0..<n] t)) =
     (if n \<le> 25 then replicate n (replicate 80 (blank (vcolor t))) @ drop n (rows_of (vmem t))
      else rows_of (vmem (fold clear_row [0..<n] t)))"
  "vcolor (fold clear_row [0..<n] t) = vcolor t"
proof (induction n)
  case (Suc n)
  case 1
  show ?case
  proof (cases "n < 25")
    case True
    let ?b = "replicate 80 (blank (vcolor t))"
    have "(replicate n ?b @ drop n (rows_of (vmem t)))[n := ?b] =
        replicate (Suc n) ?b @ drop (Suc n) (rows_of (vmem t))"
      using True
      by (simp add: list_update_append Cons_nth_drop_Suc [symmetric] replicate_append_same [symmetric])
    then show ?thesis
      using Suc True rows_clear_row(1) [OF True, of "fold clear_row [0..<n] t"] by simp
  qed simp
next
  case (Suc n)
  case 2
  from Suc show ?case by simp
qed simp_all

lemma grid_clear_screen:
  "grid_of (clear_screen_inner t) =
     \<lparr>rows = replicate 25 (replicate 80 (blank (vcolor t))), grow = 0, gcol = 0\<rparr>"
  "vcolor (clear_screen_inner t) = vcolor t"
  using draws_clear [of 25 t]
  by (auto simp: clear_screen_inner_def vga_consts intro!: grid_eqI)

text \<open>A row that holds a line, and a grid that holds lines from its first row on.\<close>

definition row_of :: "u8 \<Rightarrow> bytes \<Rightarrow> screen_char list" where
  "row_of color l = map (\<lambda>b. [b, color]) l @ replicate (80 - length l) (blank color)"

definition page :: "u8 \<Rightarrow> bytes list \<Rightarrow> grid" where
  "page color ls =
     \<lparr>rows = map (row_of color) ls @ replicate (25 - length ls) (replicate 80 (blank color)),
      grow = length ls, gcol = 0\<rparr>"

text \<open>What is left of a page of lines after printing one more: all of it, or without the first.\<close>

definition add_line :: "bytes list \<Rightarrow> bytes \<Rightarrow> bytes list" where
  "add_line ls l = (if length ls < 24 then ls @ [l] else tl ls @ [l])"

lemma grid_byte_in_row:
  assumes "length ls < 25" "length l < 80" "b \<noteq> 0x0A"
  shows "grid_byte color b ((page color ls)\<lparr>rows := (rows (page color ls))[length ls := row_of color l],
      gcol := length l\<rparr>) =
    (page color ls)\<lparr>rows := (rows (page color ls))[length ls := row_of color (l @ [b])],
      gcol := length (l @ [b])\<rparr>"
proof -
  have "(row_of color l)[length l := [b, color]] = row_of color (l @ [b])"
    using assms(2) by (simp add: row_of_def list_update_append replicate_Suc [symmetric] Suc_diff_Suc
        flip: replicate_Suc) (cases "80 - length l", simp_all)
  with assms show ?thesis
    by (simp add: grid_byte_def grid_put_def page_def)
qed

lemma grid_bytes_in_row:
  assumes "length ls < 25"
  shows "length (l @ m) \<le> 80 \<Longrightarrow> 0x0A \<notin> set m \<Longrightarrow>
    fold (grid_byte color) m ((page color ls)\<lparr>rows := (rows (page color ls))[length ls := row_of color l],
      gcol := length l\<rparr>) =
    (page color ls)\<lparr>rows := (rows (page color ls))[length ls := row_of color (l @ m)],
      gcol := length (l @ m)\<rparr>"
proof (induction m arbitrary: l)
  case (Cons b m)
  with grid_byte_in_row [OF assms, of l b color] Cons.IH [of "l @ [b]"] show ?case by simp
qed simp

lemma grid_line:
  assumes "length ls \<le> 24" "length l \<le> 80" "0x0A \<notin> set l"
  shows "grid_newline color (fold (grid_byte color) l (page color ls)) = page color (add_line ls l)"
proof -
  let ?r = "replicate 80 (blank color)"
  have row: "row_of color [] = ?r" by (simp add: row_of_def)
  have "(rows (page color ls))[length ls := ?r] = rows (page color ls)"
  proof -
    have "rows (page color ls) ! length ls = ?r"
      using assms(1) by (simp add: page_def nth_append)
    then show ?thesis by (metis list_update_id)
  qed
  then have "page color ls =
      (page color ls)\<lparr>rows := (rows (page color ls))[length ls := row_of color []], gcol := length ([] :: bytes)\<rparr>"
    using row by (simp add: page_def)
  from grid_bytes_in_row [of ls "[]" l color] assms this
  have f: "fold (grid_byte color) l (page color ls) =
      (page color ls)\<lparr>rows := (rows (page color ls))[length ls := row_of color l], gcol := length l\<rparr>"
    by simp
  have upd: "(rows (page color ls))[length ls := row_of color l] =
      map (row_of color) (ls @ [l]) @ replicate (24 - length ls) ?r"
  proof -
    have "25 - length ls = Suc (24 - length ls)" using assms(1) by simp
    then show ?thesis by (simp add: page_def list_update_append)
  qed
  show ?thesis
  proof (cases "length ls < 24")
    case True
    then show ?thesis
      unfolding f upd by (simp add: grid_newline_def page_def add_line_def)
  next
    case False
    with assms(1) have n: "length ls = 24" by simp
    then obtain l0 ls' where "ls = l0 # ls'" by (cases ls) auto
    with n show ?thesis
      unfolding f upd by (simp add: grid_newline_def page_def add_line_def)
  qed
qed

lemma add_lines: "foldl add_line [] ls = drop (length ls - 24) ls"
proof (induction ls rule: rev_induct)
  case (snoc l ls)
  show ?case
  proof (cases "length ls < 24")
    case False
    then have "Suc (length ls) - 24 = Suc (length ls - 24)" by simp
    with False snoc show ?thesis by (simp add: add_line_def tl_drop drop_Suc)
  qed (use snoc in \<open>simp add: add_line_def\<close>)
qed simp

definition screen_line :: "bytes \<Rightarrow> bool" where
  "screen_line l \<longleftrightarrow> length l \<le> 80 \<and> (\<forall>b \<in> set l. 0x20 \<le> b \<and> b \<le> 0x7E)"

lemma println_page:
  assumes "screen_line l" "length ls \<le> 24" "cursor_ok t" "grid_of t = page (vcolor t) ls"
  shows "draws t (page (vcolor t) (add_line ls l)) (vga_println l t)"
proof -
  have eq: "vga_println l t = write_str (l @ [0x0A]) t"
    by (simp add: vga_println_def write_str_def)
  have sh: "fold (\<lambda>b. grid_byte (vcolor t) (shown b)) l g = fold (grid_byte (vcolor t)) l g" for g
    using assms(1) by (intro fold_cong) (auto simp: screen_line_def shown_def)
  have lf: "0x0A \<notin> set l" using assms(1) by (auto simp: screen_line_def)
  have "draws t (fold (\<lambda>b. grid_byte (vcolor t) (shown b)) (l @ [0x0A]) (grid_of t)) (vga_println l t)"
    unfolding eq using write_str_draws [OF assms(3)] .
  moreover have "fold (\<lambda>b. grid_byte (vcolor t) (shown b)) (l @ [0x0A]) (grid_of t) =
      page (vcolor t) (add_line ls l)"
    using grid_line [OF assms(2) _ lf, of "vcolor t"] assms(1,4) sh
    by (simp add: shown_def grid_byte_def screen_line_def)
  ultimately show ?thesis by simp
qed

lemma println_lines:
  assumes "\<forall>l \<in> set ls. screen_line l" "cursor_ok t" "grid_of t = page (vcolor t) []"
  shows "draws t (page (vcolor t) (foldl add_line [] ls)) (fold vga_println ls t)"
  using assms(1)
proof (induction ls rule: rev_induct)
  case Nil
  from assms show ?case by (simp add: draws_def)
next
  case (snoc l ls)
  let ?t = "fold vga_println ls t"
  have d: "draws t (page (vcolor t) (foldl add_line [] ls)) ?t" using snoc by simp
  then have "cursor_ok ?t" "vcolor ?t = vcolor t" "grid_of ?t = page (vcolor ?t) (foldl add_line [] ls)"
    by (simp_all add: draws_def)
  with println_page [of l "foldl add_line [] ls" ?t] snoc.prems draws_trans [OF d] show ?case
    by (simp add: add_lines)
qed

text \<open>The screen shows the end of what was printed: clear the screen and print any lines
  of at most 80 printable characters; the top rows then hold the last 24 of them (or all),
  in order, padded with blanks in the current colour, the rows below are blank, and the
  cursor is at the start of the next row.\<close>

lemma lines_shown:
  assumes "\<forall>l \<in> set ls. length l \<le> 80 \<and> (\<forall>b \<in> set l. 0x20 \<le> b \<and> b \<le> 0x7E)"
  shows "let last_lines = drop (length ls - 24) ls;
      t' = fold vga_println ls (clear_screen_inner t) in
    rows (grid_of t') =
      map (\<lambda>l. map (\<lambda>b. [b, vcolor t]) l @ replicate (80 - length l) [0x20, vcolor t]) last_lines @
      replicate (25 - length last_lines) (replicate 80 [0x20, vcolor t]) \<and>
    vrow t' = length last_lines \<and> vcol t' = 0"
proof -
  let ?c = "clear_screen_inner t"
  have c: "grid_of ?c = page (vcolor ?c) []" "vcolor ?c = vcolor t"
    by (simp_all add: grid_clear_screen page_def)
  have "cursor_ok ?c" by (simp add: cursor_ok_def clear_screen_inner_def)
  moreover have "\<forall>l \<in> set ls. screen_line l" using assms by (simp add: screen_line_def)
  ultimately have "grid_of (fold vga_println ls ?c) = page (vcolor t) (drop (length ls - 24) ls)"
    using println_lines [of ls ?c] c by (simp add: draws_def add_lines)
  then show ?thesis
    by (simp add: Let_def grid_of_def rows_of_def [symmetric] page_def row_of_def blank_def)
qed

end
