(* ===== verification/Display.thy ===== *)
theory Display
  imports Vga_Text
begin

text \<open>
  The kernel's two ways to the screen (\<open>kernel/src/main.rs\<close>): single pixels of the
  frame buffer, drawn for the terminal, and the text printed on the VGA buffer when there is
  no frame buffer.
\<close>

unbundle bit_operations_syntax

section \<open>Pixels\<close>

text \<open>The frame buffer description of the boot loader; it has further pixel formats.\<close>

datatype PixelFormat = Rgb | Bgr | U8 | OtherFormat

record FrameBufferInfo =
  fb_width :: nat
  fb_height :: nat
  fb_stride :: nat
  bytes_per_pixel :: nat
  pixel_format :: PixelFormat

type_synonym rgb = "u8 \<times> u8 \<times> u8"

text \<open>An assignment \<open>pixel[i] = v\<close>, which panics out of range.\<close>

definition set_at :: "nat \<Rightarrow> u8 \<Rightarrow> bytes \<Rightarrow> bytes option" where
  "set_at i v px = (if i < length px then Some (px[i := v]) else None)"

definition gray_of :: "rgb \<Rightarrow> u8" where
  "gray_of col =
     (case col of (r, g, b) \<Rightarrow> ucast ((ucast r + ucast g + ucast b :: u16) div 3))"

definition paint :: "FrameBufferInfo \<Rightarrow> rgb \<Rightarrow> bytes \<Rightarrow> bytes option" where
  "paint info col px =
     (case col of (c0, c1, c2) \<Rightarrow>
       (case pixel_format info of
          Rgb \<Rightarrow> Option.bind (set_at 0 c0 px) (\<lambda>px. Option.bind (set_at 1 c1 px) (set_at 2 c2))
        | Bgr \<Rightarrow> Option.bind (set_at 0 c2 px) (\<lambda>px. Option.bind (set_at 1 c1 px) (set_at 2 c0))
        | U8 \<Rightarrow> set_at 0 (gray_of col) px
        | OtherFormat \<Rightarrow>
            Option.bind (set_at 0 c0 px) (\<lambda>px.
            Option.bind (if bytes_per_pixel info > 1 then set_at 1 c1 px else Some px) (\<lambda>px.
              if bytes_per_pixel info > 2 then set_at 2 c2 px else Some px))))"

text \<open>The buffer after drawing; \<open>None\<close> is a panic, from the arithmetic or from an index.\<close>

definition draw_pixel :: "FrameBufferInfo \<Rightarrow> nat \<Rightarrow> nat \<Rightarrow> rgb \<Rightarrow> bytes \<Rightarrow> bytes option" where
  "draw_pixel info x y color buffer =
     (if x \<ge> fb_width info \<or> y \<ge> fb_height info then Some buffer
      else
        Option.bind (Option.bind (checked_mul_usize y (fb_stride info)) (\<lambda>p. checked_add_usize p x)) (\<lambda>pixel_index.
        Option.bind (checked_mul_usize pixel_index (bytes_per_pixel info)) (\<lambda>byte_index.
        Option.bind (checked_add_usize byte_index (bytes_per_pixel info)) (\<lambda>e.
          if e > length buffer then None
          else map_option (put_slice buffer byte_index)
                 (paint info color (sub_slice byte_index (bytes_per_pixel info) buffer))))))"

section \<open>What drawing promises\<close>

text \<open>A description that fits its buffer.\<close>

definition fb_ok :: "FrameBufferInfo \<Rightarrow> bytes \<Rightarrow> bool" where
  "fb_ok info buffer \<longleftrightarrow>
     fb_width info \<le> fb_stride info \<and>
     fb_height info * fb_stride info * bytes_per_pixel info \<le> length buffer \<and>
     length buffer < usize_bound \<and>
     bytes_per_pixel info \<ge> (if pixel_format info = Rgb \<or> pixel_format info = Bgr then 3 else 1)"

definition pixel_at :: "FrameBufferInfo \<Rightarrow> nat \<Rightarrow> nat \<Rightarrow> bytes \<Rightarrow> bytes" where
  "pixel_at info x y buffer =
     sub_slice ((y * fb_stride info + x) * bytes_per_pixel info) (bytes_per_pixel info) buffer"

text \<open>The bytes of a painted pixel: the colour first, what the format does not use as it was.\<close>

definition painted :: "FrameBufferInfo \<Rightarrow> rgb \<Rightarrow> bytes \<Rightarrow> bytes" where
  "painted info col px =
     (case col of (r, g, b) \<Rightarrow>
       let channels =
         (case pixel_format info of
            Rgb \<Rightarrow> [r, g, b] | Bgr \<Rightarrow> [b, g, r] | U8 \<Rightarrow> [gray_of col]
          | OtherFormat \<Rightarrow> take (bytes_per_pixel info) [r, g, b])
       in channels @ drop (length channels) px)"

lemma three_bytes: "3 \<le> length px \<Longrightarrow> \<exists>a b c ds. px = a # b # c # ds"
  by (cases px rule: list.exhaust; cases "tl px" rule: list.exhaust; cases "tl (tl px)" rule: list.exhaust) auto

lemma paint_painted:
  assumes "length px = bytes_per_pixel info"
    "bytes_per_pixel info \<ge> (if pixel_format info = Rgb \<or> pixel_format info = Bgr then 3 else 1)"
  shows "paint info col px = Some (painted info col px)"
proof -
  obtain r g b where col: "col = (r, g, b)" by (metis prod_cases3)
  consider (one) a where "px = [a]" | (two) a c where "px = [a, c]" | (more) a c d ds where "px = a # c # d # ds"
    using assms by (cases px; cases "tl px"; cases "tl (tl px)") (auto split: if_splits)
  then show ?thesis
    using assms(2) col unfolding paint_def painted_def assms(1) [symmetric]
    by cases (auto simp: set_at_def Let_def split: PixelFormat.splits if_splits)
qed

lemma length_painted:
  assumes "length px = bytes_per_pixel info"
    "bytes_per_pixel info \<ge> (if pixel_format info = Rgb \<or> pixel_format info = Bgr then 3 else 1)"
  shows "length (painted info col px) = length px"
  using assms by (auto simp: painted_def Let_def split: PixelFormat.splits prod.splits if_splits)

lemma pixel_range:
  assumes "fb_ok info buffer" "x < fb_width info" "y < fb_height info"
  shows "(y * fb_stride info + x) * bytes_per_pixel info + bytes_per_pixel info \<le> length buffer"
proof -
  have "y * fb_stride info + x + 1 \<le> (y + 1) * fb_stride info"
    using assms by (simp add: fb_ok_def)
  also have "\<dots> \<le> fb_height info * fb_stride info"
    using assms(3) by (intro mult_right_mono) simp_all
  finally have "(y * fb_stride info + x + 1) * bytes_per_pixel info \<le>
      fb_height info * fb_stride info * bytes_per_pixel info"
    by (rule mult_right_mono) simp
  also have "\<dots> \<le> length buffer" using assms(1) by (simp add: fb_ok_def)
  finally show ?thesis by (simp add: algebra_simps)
qed

lemma draw_pixel_eq:
  assumes "fb_ok info buffer" "x < fb_width info" "y < fb_height info"
  shows "draw_pixel info x y col buffer =
    Some (put_slice buffer ((y * fb_stride info + x) * bytes_per_pixel info)
      (painted info col (pixel_at info x y buffer)))"
proof -
  let ?i = "y * fb_stride info + x" and ?n = "bytes_per_pixel info"
  note range = pixel_range [OF assms]
  have n: "1 \<le> ?n" and len: "length buffer < usize_bound"
    using assms(1) by (auto simp: fb_ok_def split: if_splits)
  have "?i \<le> ?i * ?n" using n by simp
  then have i: "?i < usize_bound" "?i * ?n < usize_bound" "?i * ?n + ?n < usize_bound"
    using range len by - linarith+
  then have "y * fb_stride info < usize_bound" by linarith
  moreover have "length (pixel_at info x y buffer) = ?n"
    unfolding pixel_at_def using range by simp
  then have "paint info col (pixel_at info x y buffer) = Some (painted info col (pixel_at info x y buffer))"
    using assms(1) by (intro paint_painted) (simp_all add: fb_ok_def)
  ultimately show ?thesis
    using assms i range unfolding pixel_at_def
    by (simp add: draw_pixel_def checked_mul_usize_def checked_add_usize_def)
qed

lemma pixel_apart:
  assumes "x < w" "x' < w" "w \<le> s" "(x, y) \<noteq> (x', y')" "0 < (n :: nat)"
  shows "(y * s + x) * n + n \<le> (y' * s + x') * n \<or> (y' * s + x') * n + n \<le> (y * s + x) * n"
proof -
  have "y * s + x \<noteq> y' * s + x'"
  proof
    assume eq: "y * s + x = y' * s + x'"
    then have "(y * s + x) div s = (y' * s + x') div s" by simp
    with assms have "y = y'" by simp
    with eq assms(4) show False by simp
  qed
  then have "y * s + x + 1 \<le> y' * s + x' \<or> y' * s + x' + 1 \<le> y * s + x" by linarith
  then have "(y * s + x + 1) * n \<le> (y' * s + x') * n \<or> (y' * s + x' + 1) * n \<le> (y * s + x) * n"
    using mult_le_mono1 by blast
  then show ?thesis by (simp add: algebra_simps)
qed

text \<open>C34: drawing a pixel changes that pixel and nothing else. On a frame buffer that holds
  what its description says, it never panics; off the visible area it changes nothing; on it,
  the pixel gets the colour in the order of its format, bytes the format does not use keep
  their value, and every other pixel of the visible area is as before.\<close>

theorem pixel_drawn:
  assumes "fb_ok info buffer"
  shows "\<exists>buffer'. draw_pixel info x y col buffer = Some buffer' \<and> length buffer' = length buffer \<and>
    (if x < fb_width info \<and> y < fb_height info
     then pixel_at info x y buffer' = painted info col (pixel_at info x y buffer)
     else buffer' = buffer) \<and>
    (\<forall>x' < fb_width info. \<forall>y' < fb_height info. (x', y') \<noteq> (x, y) \<longrightarrow>
       pixel_at info x' y' buffer' = pixel_at info x' y' buffer)"
proof (cases "x < fb_width info \<and> y < fb_height info")
  case True
  let ?n = "bytes_per_pixel info"
  let ?px = "painted info col (pixel_at info x y buffer)"
  have xy: "x < fb_width info" "y < fb_height info" using True by simp_all
  note range = pixel_range [OF assms xy]
  have n: "0 < ?n" using assms by (auto simp: fb_ok_def split: if_splits)
  have "length (pixel_at info x y buffer) = ?n" unfolding pixel_at_def using range by simp
  then have len: "length ?px = ?n"
    using assms length_painted [of "pixel_at info x y buffer" info col] by (simp add: fb_ok_def)
  have same: "pixel_at info x y (put_slice buffer ((y * fb_stride info + x) * ?n) ?px) = ?px"
    unfolding pixel_at_def using range len
      sub_slice_put_same [of "(y * fb_stride info + x) * ?n" "?px" buffer] by (simp add: pixel_at_def)
  have other: "pixel_at info x' y' (put_slice buffer ((y * fb_stride info + x) * ?n) ?px) =
      pixel_at info x' y' buffer"
    if "x' < fb_width info" "y' < fb_height info" "(x', y') \<noteq> (x, y)" for x' y'
    unfolding pixel_at_def
    using pixel_apart [OF xy(1) that(1) _ that(3) [symmetric] n, of "fb_stride info"]
      assms range pixel_range [OF assms that(1,2)] len
    by (intro sub_slice_put_disjoint) (auto simp: fb_ok_def pixel_at_def)
  show ?thesis
    unfolding draw_pixel_eq [OF assms xy] using same other True range len by (auto simp: pixel_at_def)
next
  case False
  then show ?thesis by (auto simp: draw_pixel_def)
qed

definition demo_fb :: FrameBufferInfo where
  "demo_fb = \<lparr>fb_width = 2, fb_height = 2, fb_stride = 3, bytes_per_pixel = 4, pixel_format = Bgr\<rparr>"

theorem pixel_drawn_witness:
  "\<exists>buffer'. draw_pixel demo_fb 1 1 (0xAA, 0xBB, 0xCC) (replicate 24 7) = Some buffer' \<and>
    pixel_at demo_fb 1 1 buffer' = [0xCC, 0xBB, 0xAA, 7]"
  using pixel_drawn [of demo_fb "replicate 24 7" 1 1 "(0xAA, 0xBB, 0xCC)"]
  by (auto simp: fb_ok_def demo_fb_def painted_def pixel_at_def sub_slice_def)

section \<open>Text without a frame buffer\<close>

fun vga_fallback :: "bytes \<Rightarrow> nat \<Rightarrow> memory \<Rightarrow> memory" where
  "vga_fallback [] offset m = m"
| "vga_fallback (b # bs) offset m =
     (if b = 0x0A then vga_fallback bs ((offset div 80 + 1) * 80) m
      else if offset \<ge> 80 * 25 then m
      else
        vga_fallback bs (offset + 1)
          (mem_write (mem_write m (0xb8000 + of_nat (offset * 2)) [b])
            (0xb8000 + of_nat (offset * 2 + 1)) [0x0F]))"

definition vga_fallback_print :: "bytes \<Rightarrow> memory \<Rightarrow> memory" where
  "vga_fallback_print s m = vga_fallback s 0 m"

text \<open>Lines with line feeds between them.\<close>

fun join_lines :: "bytes list \<Rightarrow> bytes" where
  "join_lines [] = []"
| "join_lines [l] = l"
| "join_lines (l # ls) = l @ [0x0A] @ join_lines ls"

lemma fallback_cell:
  "mem_write (mem_write m (0xb8000 + of_nat (i * 2)) [b]) (0xb8000 + of_nat (i * 2 + 1)) [0x0F] =
     set_cell m i [b, 0x0F]"
  using mem_write_append [of "[b]" "[0x0F]" m "0xb8000 + of_nat (i * 2)"]
  by (simp add: set_cell_def cell_addr_def vga_consts algebra_simps)

lemma fallback_line:
  "0x0A \<notin> set l \<Longrightarrow> i + length l \<le> 2000 \<Longrightarrow>
     vga_fallback (l @ bs) i m =
     vga_fallback bs (i + length l) (fold (\<lambda>k m. set_cell m (i + k) [l ! k, 0x0F]) [0..<length l] m)"
proof (induction l arbitrary: i m)
  case (Cons b l)
  have "fold (\<lambda>k m. set_cell m (i + k) [(b # l) ! k, 0x0F]) [0..<length (b # l)] m =
      fold (\<lambda>k m. set_cell m (Suc i + k) [l ! k, 0x0F]) [0..<length l] (set_cell m i [b, 0x0F])"
    unfolding list.size(4) upt_conv_Cons [OF zero_less_Suc [of "length l"], simplified]
    by (simp add: upt_conv_Cons fold_map comp_def flip: map_Suc_upt del: upt_Suc)
  with Cons show ?case by (simp only: append_Cons vga_fallback.simps fallback_cell) simp
qed simp

lemma cells_written:
  "i + n \<le> 2000 \<Longrightarrow> j < 2000 \<Longrightarrow>
     cell (fold (\<lambda>k m. set_cell m (i + k) [f k, 0x0F]) [0..<n] m) j =
     (if i \<le> j \<and> j < i + n then [f (j - i), 0x0F] else cell m j)"
  by (induction n) (auto simp: cell_set_cell less_Suc_eq)

lemma lines_written_outside:
  "i + n \<le> 2000 \<Longrightarrow> outside_vga m (fold (\<lambda>k m. set_cell m (i + k) [f k, 0x0F]) [0..<n] m)"
  by (intro outside_fold outside_set_cell) auto

text \<open>Where line \<open>l\<close> in row \<open>r\<close> leaves the cells.\<close>

definition row_written :: "nat \<Rightarrow> bytes \<Rightarrow> memory \<Rightarrow> memory \<Rightarrow> bool" where
  "row_written r l m m' \<longleftrightarrow>
     (\<forall>c < 80. cell m' (r * 80 + c) = (if c < length l then [l ! c, 0x0F] else cell m (r * 80 + c)))"

lemma row_cells:
  assumes "length l < 80" "r < 25" "q < 25" "c < 80"
  shows "cell (fold (\<lambda>k m. set_cell m (r * 80 + k) [l ! k, 0x0F]) [0..<length l] m) (q * 80 + c) =
    (if q = r \<and> c < length l then [l ! c, 0x0F] else cell m (q * 80 + c))"
proof -
  have "r * 80 + length l \<le> 2000" using assms by linarith
  moreover have "r * 80 \<le> q * 80 + c \<and> q * 80 + c < r * 80 + length l \<longleftrightarrow> q = r \<and> c < length l"
    by (cases q r rule: linorder_cases) (use assms in auto)
  ultimately show ?thesis using cells_written [of "r * 80" "length l" "q * 80 + c" "\<lambda>k. l ! k" m] index_less [OF assms(3,4)]
    by auto
qed

lemma fallback_lines:
  assumes "\<forall>l \<in> set ls. length l < 80 \<and> 0x0A \<notin> set l" "r + length ls \<le> 25"
  shows "let m' = vga_fallback (join_lines ls) (r * 80) m in
    (\<forall>q < 25. row_written q (if r \<le> q \<and> q < r + length ls then ls ! (q - r) else []) m m') \<and>
    outside_vga m m'"
  using assms
proof (induction ls arbitrary: r m rule: join_lines.induct)
  case 1
  then show ?case by (auto simp: row_written_def)
next
  case (2 l)
  have room: "r * 80 + length l \<le> 2000" using 2 by simp
  from 2 have "vga_fallback l (r * 80) m =
      fold (\<lambda>k m. set_cell m (r * 80 + k) [l ! k, 0x0F]) [0..<length l] m"
    using fallback_line [of l "r * 80" "[]" m] room by simp
  with 2 room row_cells [of l r] lines_written_outside [OF room, of m "\<lambda>k. l ! k"] show ?case
    by (auto simp: row_written_def Let_def)
next
  case (3 l l' ls)
  let ?m = "fold (\<lambda>k m. set_cell m (r * 80 + k) [l ! k, 0x0F]) [0..<length l] m"
  have room: "r * 80 + length l \<le> 2000" using 3 by simp
  have len: "length l < 80" using 3 by simp
  then have "(r * 80 + length l) div 80 = r" by simp
  then have "vga_fallback (join_lines (l # l' # ls)) (r * 80) m = vga_fallback (join_lines (l' # ls)) (Suc r * 80) ?m"
    using fallback_line [of l "r * 80" "0x0A # join_lines (l' # ls)" m] room 3
    by (simp del: join_lines.simps add: join_lines.simps(3))
  moreover have "(let m' = vga_fallback (join_lines (l' # ls)) (Suc r * 80) ?m in
      (\<forall>q < 25. row_written q (if Suc r \<le> q \<and> q < Suc r + length (l' # ls) then (l' # ls) ! (q - Suc r) else []) ?m m') \<and>
      outside_vga ?m m')"
    using "3.prems" by (intro "3.IH") auto
  moreover have "row_written q (if r \<le> q \<and> q < r + length (l # l' # ls) then (l # l' # ls) ! (q - r) else []) m m'"
    if "q < 25" "row_written q (if Suc r \<le> q \<and> q < Suc r + length (l' # ls) then (l' # ls) ! (q - Suc r) else []) ?m m'"
    for q m'
  proof (cases "q = r")
    case True
    with that "3.prems" row_cells [OF len, of r] show ?thesis by (auto simp: row_written_def)
  next
    case False
    then have "q - r = Suc (q - Suc r)" if "r \<le> q" using that by simp
    with False that "3.prems" row_cells [OF len, of r q] show ?thesis
      by (auto simp: row_written_def Suc_le_eq)
  qed
  ultimately show ?case
    using outside_trans [OF lines_written_outside [OF room]] by (auto simp: Let_def)
qed

text \<open>Without a frame buffer, the text appears as written: up to 25 lines of fewer than 80
  characters are stored, white on black, from column 0 of row 0, 1, ... on, one per row; every
  other cell, and all memory outside the 4000 bytes of the buffer, is left alone.\<close>

lemma fallback_text_shown:
  assumes "\<forall>l \<in> set ls. length l < 80 \<and> 0x0A \<notin> set l" "length ls \<le> 25"
  shows "let m' = vga_fallback_print (join_lines ls) m in
    (\<forall>r < 25. \<forall>c < 80. cell m' (r * 80 + c) =
       (if r < length ls \<and> c < length (ls ! r) then [ls ! r ! c, 0x0F] else cell m (r * 80 + c))) \<and>
    (\<forall>a. unat a < 0xb8000 \<or> 0xb8fa0 \<le> unat a \<longrightarrow> m' a = m a)"
  using fallback_lines [OF assms(1), of 0 m] assms(2)
  by (auto simp: vga_fallback_print_def row_written_def outside_vga_def Let_def)

end
