(* ===== verification/Fmt.thy ===== *)
theory Fmt
  imports Guest_Mem Fs
begin

text \<open>
  What the format strings of the kernel print: unsigned and signed numbers in decimal, octal
  and hexadecimal, padding, and the derived \<open>Debug\<close> output of the error types.
\<close>

section \<open>Numbers\<close>

definition digit :: "nat \<Rightarrow> u8" where
  "digit d = (if d < 10 then of_nat (48 + d) else of_nat (87 + d))"

function radix :: "nat \<Rightarrow> nat \<Rightarrow> bytes" where
  "radix b n = (if n < b \<or> b < 2 then [digit n] else radix b (n div b) @ [digit (n mod b)])"
  by pat_completeness auto
termination
  by (relation "measure snd") auto

declare radix.simps [simp del]

definition dec :: "nat \<Rightarrow> bytes" where "dec n = radix 10 n"
definition oct :: "nat \<Rightarrow> bytes" where "oct n = radix 8 n"
definition hex :: "nat \<Rightarrow> bytes" where "hex n = radix 16 n"

text \<open>A signed number, given as its two's complement pattern.\<close>

definition sdec :: "'a::len word \<Rightarrow> bytes" where
  "sdec w = (if sint w < 0 then str ''-'' @ dec (nat (- sint w)) else dec (nat (sint w)))"

text \<open>Padding on the left to a width: \<open>{:>8}\<close>, \<open>{:02x}\<close>.\<close>

definition pad_left :: "u8 \<Rightarrow> nat \<Rightarrow> bytes \<Rightarrow> bytes" where
  "pad_left fill w s = replicate (w - length s) fill @ s"

section \<open>Reading numbers back\<close>

definition digit_value :: "u8 \<Rightarrow> nat" where
  "digit_value c = (if unat c < 58 then unat c - 48 else unat c - 87)"

definition number_of :: "nat \<Rightarrow> bytes \<Rightarrow> nat" where
  "number_of b s = foldl (\<lambda>v c. v * b + digit_value c) 0 s"

lemma digit_value_digit: "d < 16 \<Longrightarrow> digit_value (digit d) = d"
proof -
  have "\<forall>d \<in> set [0..<16]. digit_value (digit d) = d" by code_simp
  then show "d < 16 \<Longrightarrow> digit_value (digit d) = d" by (simp only: set_upt) simp
qed

lemma number_of_snoc: "number_of b (s @ [c]) = number_of b s * b + digit_value c"
  by (simp add: number_of_def)

lemma number_of_radix:
  assumes "2 \<le> b" "b \<le> 16"
  shows "number_of b (radix b n) = n"
proof (induction n rule: less_induct)
  case (less n)
  show ?case
  proof (cases "n < b")
    case True
    with assms show ?thesis
      using number_of_snoc [of b "[]" "digit n"]
      by (simp add: radix.simps [of b n] digit_value_digit) (simp add: number_of_def)
  next
    case False
    have "n mod b < b" using assms by simp
    with assms(2) have m: "n mod b < 16" by linarith
    have "n div b < n" using False assms by simp
    from less [OF this] False assms m show ?thesis
      by (simp add: radix.simps [of b n] number_of_snoc digit_value_digit)
  qed
qed

lemma radix_not_Nil [simp]: "radix b n \<noteq> []"
  by (simp add: radix.simps [of b n])

section \<open>Derived \<open>Debug\<close>\<close>

fun debug_fs_error :: "FsError \<Rightarrow> bytes" where
  "debug_fs_error TooSmall = str ''TooSmall''"
| "debug_fs_error BadMagic = str ''BadMagic''"
| "debug_fs_error BadVersion = str ''BadVersion''"
| "debug_fs_error OutOfBounds = str ''OutOfBounds''"
| "debug_fs_error InvalidName = str ''InvalidName''"
| "debug_fs_error NotFound = str ''NotFound''"

fun debug_elf_error :: "ElfError \<Rightarrow> bytes" where
  "debug_elf_error ElfTooSmall = str ''TooSmall''"
| "debug_elf_error ElfBadMagic = str ''BadMagic''"
| "debug_elf_error UnsupportedClass = str ''UnsupportedClass''"
| "debug_elf_error UnsupportedEndian = str ''UnsupportedEndian''"
| "debug_elf_error UnsupportedMachine = str ''UnsupportedMachine''"
| "debug_elf_error BadHeader = str ''BadHeader''"

text \<open>A list of items with separators: \<open>[1, 2]\<close>, and a hexadecimal dump with spaces.\<close>

fun sep_by :: "bytes \<Rightarrow> bytes list \<Rightarrow> bytes" where
  "sep_by s [] = []"
| "sep_by s [x] = x"
| "sep_by s (x # xs) = x @ s @ sep_by s xs"

definition debug_bytes :: "bytes \<Rightarrow> bytes" where
  "debug_bytes bs = str ''['' @ sep_by (str '', '') (map (\<lambda>b. dec (unat b)) bs) @ str '']''"

fun debug_run_error :: "RunError \<Rightarrow> bytes" where
  "debug_run_error (ParseError e) = str ''Parse('' @ debug_elf_error e @ str '')''"
| "debug_run_error NoLoadSegment = str ''NoLoadSegment''"
| "debug_run_error AddressOutOfRange = str ''AddressOutOfRange''"
| "debug_run_error (UnsupportedComplexElf e n m) =
     str ''UnsupportedComplexElf { entry: '' @ dec (unat e) @ str '', segments: '' @ dec n @
     str '', memory_size: '' @ dec m @ str '' }''"
| "debug_run_error (UnsupportedInstruction r b) =
     str ''UnsupportedInstruction { rip: '' @ dec (unat r) @ str '', bytes: '' @ debug_bytes b @ str '' }''"
| "debug_run_error (StepLimit n r) =
     str ''StepLimit { steps: '' @ dec n @ str '', last_rip: '' @ dec (unat r) @ str '' }''"

text \<open>\<open>hex_bytes\<close> of \<open>native_runner.rs\<close>: two digits per byte, spaces in between.\<close>

fun hex_bytes_from :: "bytes \<Rightarrow> nat \<Rightarrow> nat \<Rightarrow> bytes" where
  "hex_bytes_from [] i n = []"
| "hex_bytes_from (b # bs) i n =
     pad_left 0x30 2 (hex (unat b)) @ (if i + 1 \<noteq> n then str '' '' else []) @ hex_bytes_from bs (i + 1) n"

definition hex_bytes :: "bytes \<Rightarrow> bytes" where
  "hex_bytes bs = hex_bytes_from bs 0 (length bs)"

lemma hex_bytes_sep:
  "i + length bs = n \<Longrightarrow>
     hex_bytes_from bs i n = sep_by (str '' '') (map (\<lambda>b. pad_left 0x30 2 (hex (unat b))) bs)"
proof (induction bs arbitrary: i)
  case (Cons b bs)
  from Cons.IH [of "i + 1"] Cons.prems show ?case by (cases bs) auto
qed simp

lemma hex_bytes_eq: "hex_bytes bs = sep_by (str '' '') (map (\<lambda>b. pad_left 0x30 2 (hex (unat b))) bs)"
  unfolding hex_bytes_def by (rule hex_bytes_sep) simp

end
