(* ===== verification/Native_Mem.thy ===== *)
theory Native_Mem
  imports Interp Fmt
begin

text \<open>
  The memory of a program that runs natively (\<open>kernel/src/native_runner.rs\<close>): the buffer
  that becomes its image, its segments and its initial stack. The code repeats what the
  interpreter has for its guest, with errors of its own; the theorems here say that the two
  agree, so that what holds of the interpreter's loader and stack holds of the native one.
\<close>

unbundle bit_operations_syntax

section \<open>Errors\<close>

datatype NativeError =
    NativeParse ElfError
  | NativeNoLoadSegment
  | NativeAddressOutOfRange
  | FixedVaddrUnsupported (fixed_min_vaddr: u64) (fixed_e_type: u16)
  | PagingUnavailable
  | PageNotMapped (unmapped_addr: u64)
  | PageFlagUpdate (locked_addr: u64)
  | NativeComplexElf (native_entry: u64) (native_segments: nat) (native_memory_size: nat)

definition MAX_NATIVE_MEM :: nat where "MAX_NATIVE_MEM = 32 * 1024 * 1024"
definition NATIVE_STACK_SIZE :: nat where "NATIVE_STACK_SIZE = 256 * 1024"

section \<open>The buffer\<close>

definition native_va_to_index :: "u64 \<Rightarrow> bytes \<Rightarrow> u64 \<Rightarrow> NativeError + nat" where
  "native_va_to_index base mem va =
     (if va < base then Inl NativeAddressOutOfRange
      else
        (let idx = unat (va - base) in
         if idx \<ge> length mem then Inl NativeAddressOutOfRange else Inr idx))"

definition native_write_u64 :: "u64 \<Rightarrow> bytes \<Rightarrow> u64 \<Rightarrow> u64 \<Rightarrow> NativeError + bytes" where
  "native_write_u64 base mem va v =
     try_res (native_va_to_index base mem va) (\<lambda>i.
     try_res (ok_or NativeAddressOutOfRange (checked_add_usize i 8)) (\<lambda>e.
       if e > length mem then Inl NativeAddressOutOfRange
       else Inr (put_slice mem i (to_le 8 v))))"

definition native_push_cstr :: "u64 \<Rightarrow> u64 \<Rightarrow> bytes \<Rightarrow> bytes \<Rightarrow> (NativeError, bytes, u64) run" where
  "native_push_cstr base sp bs mem =
     (let len = length bs + 1 in
      with_res mem (ok_or NativeAddressOutOfRange (checked_sub_u64 sp (of_nat len))) (\<lambda>new_sp.
      with_res mem (native_va_to_index base mem new_sp) (\<lambda>start.
      with_res mem (ok_or NativeAddressOutOfRange (checked_add_usize start len)) (\<lambda>e.
        if e > length mem then Fail NativeAddressOutOfRange mem
        else Done new_sp ((put_slice mem start bs)[start + length bs := 0])))))"

text \<open>The loop over the strings, last first.\<close>

fun native_push_strs ::
  "u64 \<Rightarrow> u64 \<Rightarrow> bytes list \<Rightarrow> bytes \<Rightarrow> (NativeError, bytes, u64 \<times> u64 list) run" where
  "native_push_strs base sp [] mem = Done (sp, []) mem"
| "native_push_strs base sp (s # rest) mem =
     and_then (native_push_cstr base sp s mem) (\<lambda>p mem.
     and_then (native_push_strs base p rest mem) (\<lambda>(sp', ptrs) mem. Done (sp', p # ptrs) mem))"

fun native_write_words ::
  "u64 \<Rightarrow> u64 \<Rightarrow> nat \<Rightarrow> u64 list \<Rightarrow> bytes \<Rightarrow> (NativeError, bytes, unit) run" where
  "native_write_words base sp i [] mem = Done () mem"
| "native_write_words base sp i (v # vs) mem =
     or_panic (checked_add_u64 sp (of_nat i * 8)) (\<lambda>a.
     with_res mem (native_write_u64 base mem a v) (\<lambda>mem. native_write_words base sp (Suc i) vs mem))"

definition native_build_initial_stack ::
  "u64 \<Rightarrow> u64 \<Rightarrow> bytes list \<Rightarrow> bytes list \<Rightarrow> bytes \<Rightarrow> (NativeError, bytes, u64) run" where
  "native_build_initial_stack base stack_top argv envp mem =
     (let sp = stack_top AND NOT 0xF in
      and_then (native_push_strs base sp (rev argv) mem) (\<lambda>(sp, ptrs) mem.
        (let arg_ptrs = rev ptrs in
         and_then (native_push_strs base sp (rev envp) mem) (\<lambda>(sp, ptrs) mem.
           (let env_ptrs = rev ptrs;
                words = [of_nat (length arg_ptrs)] @ arg_ptrs @ [0] @ env_ptrs @
                  [0, AT_PAGESZ, 4096, AT_NULL, 0];
                sp = sp AND NOT 0xF;
                bytes = (of_nat (length words * 8) :: u64)
            in with_res mem (ok_or NativeAddressOutOfRange (checked_sub_u64 sp bytes)) (\<lambda>sp.
               and_then (native_write_words base sp 0 words mem) (\<lambda>_ mem. Done sp mem)))))))"

text \<open>A line of the serial log; \<open>seg_line\<close> is the one for a segment.\<close>

definition native_line :: "bytes \<Rightarrow> bytes" where
  "native_line msg = str ''[LeonOS3] native '' @ msg @ [0x0A]"

definition seg_line :: "nat \<Rightarrow> LoadSegment \<Rightarrow> bytes" where
  "seg_line idx seg =
     native_line (str ''seg['' @ dec idx @ str '']: vaddr=0x'' @ hex (unat (vaddr seg)) @
       str '' mem=0x'' @ hex (unat (mem_size seg)) @ str '' file_off=0x'' @ hex (unat (file_offset seg)) @
       str '' file_sz=0x'' @ hex (unat (file_size seg)))"

text \<open>Copying the segments from number \<open>idx\<close> on; \<open>lo\<close> is \<open>min_vaddr\<close>. The state is
  the buffer and the serial log.\<close>

fun native_copy_segments ::
  "bytes \<Rightarrow> u64 \<Rightarrow> nat \<Rightarrow> LoadSegment list \<Rightarrow> bytes \<times> bytes \<Rightarrow> (NativeError, bytes \<times> bytes, unit) run" where
  "native_copy_segments img lo idx [] (mem, lg) = Done () (mem, lg)"
| "native_copy_segments img lo idx (seg # segs) (mem, lg) =
     (let lg = lg @ seg_line idx seg;
          dst_start = unat (vaddr seg - lo);
          dst_end = saturating_add_usize dst_start (unat (mem_size seg));
          src_start = unat (file_offset seg);
          src_end = saturating_add_usize src_start (unat (file_size seg));
          file_len = unat (file_size seg)
      in if dst_end > length mem then
           Fail NativeAddressOutOfRange
             (mem, lg @ native_line (str ''step: copy segments dst out of range''))
         else if src_end > length img then
           Fail NativeAddressOutOfRange
             (mem, lg @ native_line (str ''step: copy segments src out of range''))
         else if dst_start + file_len > length mem then Panic
         else native_copy_segments img lo (Suc idx) segs
                (put_slice mem dst_start (sub_slice src_start file_len img), lg))"

section \<open>Agreement with the interpreter\<close>

fun rename_err :: "('e \<Rightarrow> 'f) \<Rightarrow> ('e, 's, 'a) run \<Rightarrow> ('f, 's, 'a) run" where
  "rename_err f (Done x s) = Done x s"
| "rename_err f (Fail e s) = Fail (f e) s"
| "rename_err f Panic = Panic"
| "rename_err f Hang = Hang"

fun native_error :: "RunError \<Rightarrow> NativeError" where
  "native_error (ParseError e) = NativeParse e"
| "native_error NoLoadSegment = NativeNoLoadSegment"
| "native_error (UnsupportedComplexElf e n m) = NativeComplexElf e n m"
| "native_error _ = NativeAddressOutOfRange"

lemma rename_and_then:
  "rename_err f (and_then r g) = and_then (rename_err f r) (\<lambda>x s. rename_err f (g x s))"
  by (cases r) simp_all

lemma rename_with_res:
  "rename_err f (with_res s r g) = with_res s (map_err f r) (\<lambda>x. rename_err f (g x))"
  by (cases r) simp_all

lemma rename_or_panic: "rename_err f (or_panic r g) = or_panic r (\<lambda>x. rename_err f (g x))"
  by (cases r) simp_all

lemma map_err_ok_or [simp]: "map_err f (ok_or e x) = ok_or (f e) x"
  by (cases x) simp_all

lemma map_err_try_res: "map_err f (try_res r g) = try_res (map_err f r) (\<lambda>x. map_err f (g x))"
  by (cases r) simp_all

lemmas rename = rename_and_then rename_with_res rename_or_panic map_err_try_res

lemma native_va_eq: "native_va_to_index base mem va = map_err native_error (va_to_index base mem va)"
  by (simp add: native_va_to_index_def va_to_index_def Let_def)

lemma try_res_assoc: "try_res (try_res r f) g = try_res r (\<lambda>x. try_res (f x) g)"
  by (cases r) simp_all

lemma native_write_eq: "native_write_u64 base mem va v = map_err native_error (write_u64 base mem va v)"
proof -
  have "map_err native_error (write_u64 base mem va v) =
      try_res (native_va_to_index base mem va) (\<lambda>i.
      try_res (ok_or NativeAddressOutOfRange (checked_add_usize i 8)) (\<lambda>e.
      try_res (if e > length mem then Inl NativeAddressOutOfRange else Inr i)
        (\<lambda>i. Inr (put_slice mem i (to_le 8 v)))))"
    by (cases "va_to_index base mem va")
      (auto simp: write_u64_def span_index_def native_va_eq rename try_res_assoc checked_add_usize_def)
  then show ?thesis
    by (cases "native_va_to_index base mem va") (auto simp: native_write_u64_def checked_add_usize_def)
qed

lemma rename_if: "rename_err f (if c then x else y) = (if c then rename_err f x else rename_err f y)"
  by simp

lemma native_push_eq:
  "native_push_cstr base sp bs = (\<lambda>mem. rename_err native_error (push_cstr base sp bs mem))"
  by (intro ext) (simp add: native_push_cstr_def push_cstr_def Let_def rename native_va_eq rename_if
      cong del: if_weak_cong)

lemma native_push_strs_eq:
  "native_push_strs base sp ss = (\<lambda>mem. rename_err native_error (push_strs base sp ss mem))"
proof (induction ss arbitrary: sp)
  case (Cons s ss)
  show ?case by (intro ext) (simp add: rename native_push_eq Cons case_prod_unfold)
qed (intro ext, simp)

lemma native_write_words_eq:
  "native_write_words base sp i ws = (\<lambda>mem. rename_err native_error (write_words base sp i ws mem))"
proof (induction ws arbitrary: i)
  case (Cons w ws)
  show ?case by (intro ext) (simp add: rename native_write_eq Cons)
qed (intro ext, simp)

lemma native_stack_eq:
  "native_build_initial_stack base tos argv envp mem =
     rename_err native_error (build_initial_stack base tos argv envp mem)"
  by (simp add: native_build_initial_stack_def build_initial_stack_def Let_def rename
      native_push_strs_eq native_write_words_eq case_prod_unfold stack_words_def)

text \<open>The part of the state that is the buffer.\<close>

fun buffer_only :: "('e, bytes \<times> 'l, 'a) run \<Rightarrow> ('e, bytes, 'a) run" where
  "buffer_only (Done x s) = Done x (fst s)"
| "buffer_only (Fail e s) = Fail e (fst s)"
| "buffer_only Panic = Panic"
| "buffer_only Hang = Hang"

lemma native_copy_eq:
  "buffer_only (native_copy_segments img lo idx segs (mem, lg)) =
     rename_err native_error (copy_segments img lo segs mem)"
  by (induction segs arbitrary: idx mem lg) (simp_all add: Let_def)

end
