(* ===== verification/Traps.thy ===== *)
theory Traps
  imports Shell Fmt
begin

text \<open>
  The processor's exceptions (\<open>kernel/src/traps.rs\<close>): the interrupt descriptor table that
  \<open>traps::init\<close> loads, and the handlers, which report on the serial port and, the
  breakpoint's apart, halt. The text that \<open>{:?}\<close> makes of a page fault's error code comes
  from the \<open>x86_64\<close> crate and is an argument.
\<close>

section \<open>The table\<close>

datatype trap_handler =
    BreakpointHandler | InvalidOpcodeHandler | GeneralProtectionFaultHandler | PageFaultHandler
  | DoubleFaultHandler

text \<open>The gates by vector; the terminal with the serial port and the statics \<open>IDT\<close> and
  \<open>IDT_READY\<close>.\<close>

type_synonym InterruptDescriptorTable = "u8 \<Rightarrow> trap_handler option"

record logged = tty +
  serial_log :: bytes
  idt :: "InterruptDescriptorTable option"
  idt_ready :: bool

definition serial_text :: "bytes \<Rightarrow> 'a logged_scheme \<Rightarrow> 'a logged_scheme" where
  "serial_text text s = s\<lparr>serial_log := serial_log s @ text\<rparr>"

definition kernel_idt :: InterruptDescriptorTable where
  "kernel_idt = (\<lambda>_. None)(3 := Some BreakpointHandler, 6 := Some InvalidOpcodeHandler,
     13 := Some GeneralProtectionFaultHandler, 14 := Some PageFaultHandler, 8 := Some DoubleFaultHandler)"

definition traps_init :: "'a logged_scheme \<Rightarrow> 'a logged_scheme" where
  "traps_init s =
     (if idt_ready s then s
      else
        (let s = s\<lparr>idt := Some kernel_idt\<rparr>;
             s = s\<lparr>idt_ready := True\<rparr>
         in serial_text (str ''[LeonOS3] traps: idt loaded'' @ [0x0A]) s))"

section \<open>The handlers\<close>

text \<open>A handler returns to the instruction that trapped, or halts for ever.\<close>

datatype after_trap = Resumed | Halted

definition breakpoint_handler :: "u64 \<Rightarrow> 'a logged_scheme \<Rightarrow> after_trap \<times> 'a logged_scheme" where
  "breakpoint_handler rip s =
     (Resumed, serial_text (str ''[LeonOS3] trap: breakpoint rip=0x'' @ hex (unat rip) @ [0x0A]) s)"

definition invalid_opcode_handler :: "u64 \<Rightarrow> 'a logged_scheme \<Rightarrow> after_trap \<times> 'a logged_scheme" where
  "invalid_opcode_handler rip s =
     (Halted, serial_text (str ''[LeonOS3] trap: invalid opcode rip=0x'' @ hex (unat rip) @ [0x0A]) s)"

definition general_protection_fault_handler ::
  "u64 \<Rightarrow> u64 \<Rightarrow> 'a logged_scheme \<Rightarrow> after_trap \<times> 'a logged_scheme" where
  "general_protection_fault_handler rip code s =
     (Halted, serial_text (str ''[LeonOS3] trap: gpf rip=0x'' @ hex (unat rip) @ str '' code=0x'' @
        hex (unat code) @ [0x0A]) s)"

text \<open>\<open>Cr2::read\<close> gives the raw value whether it is a canonical address or not.\<close>

definition page_fault_handler ::
  "(u64 \<Rightarrow> bytes) \<Rightarrow> u64 \<Rightarrow> u64 \<Rightarrow> u64 \<Rightarrow> 'a logged_scheme \<Rightarrow> after_trap \<times> 'a logged_scheme" where
  "page_fault_handler debug_code rip cr2 code s =
     (Halted, serial_text (str ''[LeonOS3] trap: page fault rip=0x'' @ hex (unat rip) @ str '' cr2=0x'' @
        hex (unat cr2) @ str '' err='' @ debug_code code @ [0x0A]) s)"

definition double_fault_handler :: "u64 \<Rightarrow> u64 \<Rightarrow> 'a logged_scheme \<Rightarrow> after_trap \<times> 'a logged_scheme" where
  "double_fault_handler rip code s =
     (Halted, serial_text (str ''[LeonOS3] trap: double fault rip=0x'' @ hex (unat rip) @ str '' code=0x'' @
        hex (unat code) @ [0x0A]) s)"

text \<open>The processor takes the exception of a vector, with the address of the instruction, the
  error code and \<open>CR2\<close>; \<open>None\<close> when there is no gate for it.\<close>

fun run_handler ::
  "(u64 \<Rightarrow> bytes) \<Rightarrow> trap_handler \<Rightarrow> u64 \<Rightarrow> u64 \<Rightarrow> u64 \<Rightarrow> 'a logged_scheme \<Rightarrow> after_trap \<times> 'a logged_scheme" where
  "run_handler dbg BreakpointHandler rip code cr2 s = breakpoint_handler rip s"
| "run_handler dbg InvalidOpcodeHandler rip code cr2 s = invalid_opcode_handler rip s"
| "run_handler dbg GeneralProtectionFaultHandler rip code cr2 s = general_protection_fault_handler rip code s"
| "run_handler dbg PageFaultHandler rip code cr2 s = page_fault_handler dbg rip cr2 code s"
| "run_handler dbg DoubleFaultHandler rip code cr2 s = double_fault_handler rip code s"

definition take_trap ::
  "(u64 \<Rightarrow> bytes) \<Rightarrow> u8 \<Rightarrow> u64 \<Rightarrow> u64 \<Rightarrow> u64 \<Rightarrow> 'a logged_scheme \<Rightarrow> (after_trap \<times> 'a logged_scheme) option" where
  "take_trap dbg v rip code cr2 s =
     (case idt s of
        None \<Rightarrow> None
      | Some gates \<Rightarrow> map_option (\<lambda>h. run_handler dbg h rip code cr2 s) (gates v))"

section \<open>What they do\<close>

lemma traps_init_again: "traps_init (traps_init s) = traps_init s"
  by (simp add: traps_init_def serial_text_def Let_def)

text \<open>No handler changes anything but the serial log, to which each adds one line; only a
  breakpoint lets the kernel go on.\<close>

lemma run_handler_logs:
  "\<exists>msg r. run_handler dbg h rip code cr2 s = (r, serial_text (msg @ [0x0A]) s) \<and>
     (r = Resumed \<longleftrightarrow> h = BreakpointHandler)"
proof -
  have "\<exists>msg. serial_text t s = serial_text (msg @ [0x0A]) s" if "\<exists>msg. t = msg @ [0x0A]" for t
    using that by blast
  then show ?thesis
    by (cases h) (auto simp: breakpoint_handler_def invalid_opcode_handler_def
        general_protection_fault_handler_def page_fault_handler_def double_fault_handler_def)
qed

lemma kernel_idt_gates:
  "kernel_idt v \<noteq> None \<longleftrightarrow> v \<in> {3, 6, 8, 13, 14}" "kernel_idt v = Some BreakpointHandler \<longleftrightarrow> v = 3"
  by (simp_all add: kernel_idt_def)

lemma take_trap_loaded:
  assumes "idt s = Some kernel_idt"
  shows "take_trap dbg v rip code cr2 s \<noteq> None \<longleftrightarrow> v \<in> {3, 6, 8, 13, 14}"
    "take_trap dbg v rip code cr2 s = Some (r, s') \<Longrightarrow>
       (\<exists>msg. s' = serial_text (msg @ [0x0A]) s) \<and> (r = Resumed \<longleftrightarrow> v = 3)"
proof -
  show "take_trap dbg v rip code cr2 s \<noteq> None \<longleftrightarrow> v \<in> {3, 6, 8, 13, 14}"
    unfolding kernel_idt_gates(1) [symmetric] using assms by (simp add: take_trap_def)
  assume "take_trap dbg v rip code cr2 s = Some (r, s')"
  then obtain h where h: "kernel_idt v = Some h" "run_handler dbg h rip code cr2 s = (r, s')"
    using assms by (auto simp: take_trap_def)
  have "h = BreakpointHandler \<longleftrightarrow> v = 3" using h(1) kernel_idt_gates(2) [of v] by simp
  with h(2) run_handler_logs [of dbg h rip code cr2 s]
  show "(\<exists>msg. s' = serial_text (msg @ [0x0A]) s) \<and> (r = Resumed \<longleftrightarrow> v = 3)" by auto
qed

end
