(* ===== verification/Native.thy ===== *)
theory Native
  imports Native_Mem Interp_Laws Traps Syscall_Calls
begin

text \<open>
  The native runner (\<open>kernel/src/native_runner.rs\<close>): it loads a program into kernel memory,
  makes the pages executable and jumps to it; the program's \<open>syscall\<close> instructions come
  back through \<open>LSTAR\<close> (the entry stub is in \<open>Native_Entry\<close>) to
  \<open>native_syscall_dispatch\<close>.
\<close>

unbundle bit_operations_syntax

section \<open>The system\<close>

text \<open>
  The terminal and the serial log with everything else that the commands of the kernel reach:
  the statics of the system calls, the registers and statics of the native runner,
  the page table, and the ram disk with its address. \<open>OUT_FN\<close> and \<open>OUT_CTX\<close> are set and
  cleared together.
\<close>

record 'p system = logged +
  skern :: kernel
  syscall_ready :: bool
  efer :: u64
  star :: u64
  lstar :: u64
  sfmask :: u64
  phys_off :: "u64 option"
  out_installed :: bool
  page_table :: 'p
  ramdisk :: "(u64 \<times> bytes) option"

type_synonym ('p, 'a) nrun = "(NativeError, 'p system, 'a) run"

text \<open>
  What a program does to the rest of the system: it stores to memory and makes system calls
  (number and five arguments).
\<close>

datatype event =
    Store u64 bytes
  | Call u64 u64 u64 u64 u64 u64

text \<open>
  What is not code of the kernel: the address the heap gives to a buffer (\<open>None\<close>: the
  allocation error handler), the addresses that \<open>VirtAddr::new\<close> accepts, the page tables
  (the flags of a mapped page, and changing them), the address of the entry stub, and the
  processor running a program from an entry and a stack pointer, as the events it causes.
\<close>

record 'p platform =
  image_addr :: "nat \<Rightarrow> u64 option"
  canonical :: "u64 \<Rightarrow> bool"
  translate :: "'p \<Rightarrow> u64 \<Rightarrow> u64 option"
  update_flags :: "'p \<Rightarrow> u64 \<Rightarrow> u64 \<Rightarrow> 'p option"
  syscall_entry :: u64
  program :: "u64 \<Rightarrow> u64 \<Rightarrow> 'p system \<Rightarrow> event list"

definition say :: "bytes \<Rightarrow> 'p system \<Rightarrow> 'p system" where
  "say msg s = s\<lparr>serial_log := serial_log s @ native_line msg\<rparr>"

text \<open>A computation on the statics of the system calls.\<close>

fun on_kernel :: "'p system \<Rightarrow> ('e, kernel, 'a) run \<Rightarrow> ('e, 'p system, 'a) run" where
  "on_kernel s (Done x k) = Done x (s\<lparr>skern := k\<rparr>)"
| "on_kernel s (Fail e k) = Fail e (s\<lparr>skern := k\<rparr>)"
| "on_kernel s Panic = Panic"
| "on_kernel s Hang = Hang"

section \<open>System calls of a native program\<close>

definition native_mark_exit :: "u64 \<Rightarrow> 'p system \<Rightarrow> 'p system" where
  "native_mark_exit code s = s\<lparr>skern := mark_exit_code (ucast code) (skern s)\<rparr>"

definition term_write_impl :: "u64 \<Rightarrow> u64 \<Rightarrow> 'p system \<Rightarrow> 'p system" where
  "term_write_impl ptr len s =
     (if ptr = 0 \<or> len = 0 then s else process (mem_read (umem (skern s)) ptr (unat len)) s)"

text \<open>The \<open>while got < len\<close> loop: \<open>n\<close> bytes may still come.\<close>

fun native_stdin :: "u64 \<Rightarrow> nat \<Rightarrow> nat \<Rightarrow> kernel \<Rightarrow> ('e, kernel, nat) run" where
  "native_stdin ptr got 0 k = Done got k"
| "native_stdin ptr got (Suc n) k =
     and_then (read_stdin_byte_blocking k) (\<lambda>r k.
       case r of
         None \<Rightarrow> Done got k
       | Some ch \<Rightarrow>
           (let mapped = (if ch = CR then LF else ch);
                k = poke (ptr + of_nat got) [mapped] k
            in if mapped = LF then Done (got + 1) k else native_stdin ptr (got + 1) n k))"

definition native_syscall_dispatch ::
  "u64 \<Rightarrow> u64 \<Rightarrow> u64 \<Rightarrow> u64 \<Rightarrow> u64 \<Rightarrow> u64 \<Rightarrow> 'p system \<Rightarrow> ('e, 'p system, u64) run" where
  "native_syscall_dispatch nr a0 a1 a2 a3 a4 s =
     (if nr = SYS_WRITE then
        (let fd = a0; ptr = a1; len = a2 in
         if (fd = 1 \<or> fd = 2) \<and> ptr \<noteq> 0 \<and> len \<noteq> 0 then
           Done len (if out_installed s then term_write_impl ptr len s else s)
         else on_kernel s (dispatch nr a0 a1 a2 a3 a4 0 (skern s)))
      else if nr = SYS_READ then
        (let fd = a0 in
         if fd = 0 then
           (let ptr = a1; len = a2 in
            if ptr = 0 \<or> len = 0 then Done 0 s
            else and_then (on_kernel s (native_stdin ptr 0 (unat len) (skern s)))
                   (\<lambda>got. Done (of_nat got)))
         else on_kernel s (dispatch nr a0 a1 a2 a3 a4 0 (skern s)))
      else on_kernel s (dispatch nr a0 a1 a2 a3 a4 0 (skern s)))"

section \<open>The system call path\<close>

definition KERNEL_CS :: u64 where "KERNEL_CS = 0x08"

text \<open>\<open>EFER.SCE\<close>, the selectors in \<open>STAR\<close>, the entry point, and the interrupt flag in
  \<open>SFMASK\<close>.\<close>

definition init_syscall_path :: "'p platform \<Rightarrow> 'p system \<Rightarrow> ('p, unit) nrun" where
  "init_syscall_path p s =
     (if syscall_ready s then Done () (say (str ''syscall path: already ready'') s)
      else
        (let s = say (str ''syscall path: set EFER begin'') s;
             s = s\<lparr>efer := efer s OR 1\<rparr>;
             s = say (str ''syscall path: set EFER done (NXE unchanged)'') s;
             s = say (str ''syscall path: use fixed cs=0x08'') s;
             s = say (str ''syscall path: write STAR begin'') s;
             s = s\<lparr>star := push_bit 48 0x13 OR push_bit 32 KERNEL_CS\<rparr>;
             s = say (str ''syscall path: write STAR done'') s;
             s = say (str ''syscall path: write LSTAR begin'') s
         in if \<not> canonical p (syscall_entry p) then Panic
            else
              (let s = s\<lparr>lstar := syscall_entry p\<rparr>;
                   s = say (str ''syscall path: write LSTAR done'') s;
                   s = say (str ''syscall path: write SFMASK begin'') s;
                   s = s\<lparr>sfmask := 0x200\<rparr>;
                   s = say (str ''syscall path: write SFMASK done'') s;
                   s = s\<lparr>syscall_ready := True\<rparr>
               in Done () (say (str ''syscall path: ready'') s))))"

definition set_physical_memory_offset :: "u64 \<Rightarrow> 'p system \<Rightarrow> 'p system" where
  "set_physical_memory_offset offset s = s\<lparr>phys_off := Some offset\<rparr>"

section \<open>Executable pages\<close>

definition NO_EXECUTE :: u64 where "NO_EXECUTE = push_bit 63 1"

definition page_of :: "u64 \<Rightarrow> u64" where
  "page_of a = a AND NOT 0xFFF"

text \<open>\<open>Page::range_inclusive\<close>, by the first addresses of the pages.\<close>

definition pages_between :: "u64 \<Rightarrow> u64 \<Rightarrow> u64 list" where
  "pages_between start_page end_page =
     map (\<lambda>i. start_page + of_nat i * 4096)
       [0..<(if start_page \<le> end_page then unat (end_page - start_page) div 4096 + 1 else 0)]"

fun open_pages :: "'p platform \<Rightarrow> u64 list \<Rightarrow> 'p system \<Rightarrow> ('p, unit) nrun" where
  "open_pages p [] s = Done () s"
| "open_pages p (a # as) s =
     (case translate p (page_table s) a of
        None \<Rightarrow> Fail (PageNotMapped a) s
      | Some flags \<Rightarrow>
          if flags AND NO_EXECUTE \<noteq> 0 then
            (case update_flags p (page_table s) a (flags AND NOT NO_EXECUTE) of
               Some t \<Rightarrow> open_pages p as (s\<lparr>page_table := t\<rparr>)
             | None \<Rightarrow> Fail (PageFlagUpdate a) s)
          else open_pages p as s)"

definition ensure_region_executable ::
  "'p platform \<Rightarrow> u64 \<Rightarrow> nat \<Rightarrow> 'p system \<Rightarrow> ('p, unit) nrun" where
  "ensure_region_executable p start len s =
     (if len = 0 then Done () s
      else
        with_res s (ok_or PagingUnavailable (phys_off s)) (\<lambda>off.
          if \<not> canonical p off \<or> \<not> canonical p start then Panic
          else
            with_res s (ok_or NativeAddressOutOfRange
                (Option.bind (checked_add_u64 start (of_nat len)) (\<lambda>v. checked_sub_u64 v 1))) (\<lambda>last.
              if \<not> canonical p last then Panic
              else open_pages p (pages_between (page_of start) (page_of last)) s)))"

section \<open>Running a program\<close>

text \<open>
  The processor between \<open>leonos3_native_enter\<close> and its return: \<open>exit\<close> and \<open>exit_group\<close>
  end the program, and a program that calls neither never comes back (one that returns from
  its entry does not either: \<open>Native_Entry\<close>). The words that the entry stub pushes below
  the program's stack pointer are among the stores.
\<close>

fun run_program :: "event list \<Rightarrow> 'p system \<Rightarrow> ('p, unit) nrun" where
  "run_program [] s = Hang"
| "run_program (Store a bs # es) s = run_program es (s\<lparr>skern := poke a bs (skern s)\<rparr>)"
| "run_program (Call nr a0 a1 a2 a3 a4 # es) s =
     (if nr = 60 \<or> nr = 231 then Done () (native_mark_exit a0 s)
      else and_then (native_syscall_dispatch nr a0 a1 a2 a3 a4 s) (\<lambda>_. run_program es))"

text \<open>The checks of \<open>run_native_elf_with_args\<close>: the image, \<open>min_vaddr\<close> and \<open>mem_len\<close>.\<close>

definition native_check :: "bytes \<Rightarrow> 'p system \<Rightarrow> ('p, ElfImage \<times> u64 \<times> nat) nrun" where
  "native_check img s =
     (let s = say (str ''step: parse elf begin'') s in
      with_res s (map_err NativeParse (parse_elf64 img)) (\<lambda>elf.
        (let s = say (str ''step: parse elf done'') s in
         if segments elf = [] then Fail NativeNoLoadSegment (say (str ''step: no load segment'') s)
         else
           (let s = say (str ''step: scan segments begin'') s;
                (min_vaddr, max_vaddr) = vaddr_range (segments elf);
                s = say (str ''step: scan segments done'') s
            in if e_type elf = 2 then
                 Fail (FixedVaddrUnsupported min_vaddr (e_type elf))
                   (say (str ''step: ET_EXEC fixed-vaddr not supported in relocate mode'') s)
               else if max_vaddr \<le> min_vaddr then
                 Fail NativeAddressOutOfRange (say (str ''step: invalid vaddr range'') s)
               else
                 (let mem_len = unat (max_vaddr - min_vaddr);
                      s = say (str ''size: segs='' @ dec (length (segments elf)) @ str '' image='' @
                        dec (length img) @ str '' mem='' @ dec mem_len) s
                  in if mem_len > MAX_NATIVE_MEM \<or> length (segments elf) > 16 then
                       Fail (NativeComplexElf (entry elf) (length (segments elf)) mem_len)
                         (say (str ''step: elf too complex for runner'') s)
                     else Done (elf, min_vaddr, mem_len) s)))))"

text \<open>Computations on the buffer and the log, and on the buffer alone.\<close>

fun copying :: "'p system \<Rightarrow> (NativeError, bytes \<times> bytes, unit) run \<Rightarrow> ('p, bytes) nrun" where
  "copying s (Done _ (mem, lg)) = Done mem (s\<lparr>serial_log := lg\<rparr>)"
| "copying s (Fail e (mem, lg)) = Fail e (s\<lparr>serial_log := lg\<rparr>)"
| "copying s Panic = Panic"
| "copying s Hang = Hang"

fun on_buffer :: "'p system \<Rightarrow> (NativeError, bytes, 'a) run \<Rightarrow> ('p, 'a \<times> bytes) nrun" where
  "on_buffer s (Done x mem) = Done (x, mem) s"
| "on_buffer s (Fail e mem) = Fail e s"
| "on_buffer s Panic = Panic"
| "on_buffer s Hang = Hang"

text \<open>The buffer with the segments and the stack: its address, its bytes, the stack pointer.\<close>

definition native_image ::
  "'p platform \<Rightarrow> bytes \<Rightarrow> bytes list \<Rightarrow> bytes list \<Rightarrow> ElfImage \<Rightarrow> u64 \<Rightarrow> nat \<Rightarrow> 'p system \<Rightarrow>
     ('p, u64 \<times> bytes \<times> u64) nrun" where
  "native_image p img argv envp elf min_vaddr mem_len s =
     with_res s (ok_or NativeAddressOutOfRange (checked_add_usize mem_len NATIVE_STACK_SIZE)) (\<lambda>total_len.
       (let s = say (str ''step: alloc image memory begin'') s in
        or_panic (image_addr p total_len) (\<lambda>runtime_base.
          (let s = say (str ''step: alloc image memory done'') s;
               s = say (str ''step: copy segments begin'') s
           in and_then (copying s (native_copy_segments img min_vaddr 0 (segments elf)
                          (replicate total_len 0, serial_log s))) (\<lambda>mem s.
              (let s = say (str ''step: copy segments done'') s in
               or_panic (Option.bind (checked_add_u64 runtime_base (of_nat (length mem)))
                           (\<lambda>top. checked_sub_u64 top 0x10)) (\<lambda>stack_top.
                 (let s = say (str ''step: build user stack begin'') s in
                  and_then (on_buffer s (native_build_initial_stack runtime_base stack_top argv envp mem))
                    (\<lambda>(user_rsp, mem) s.
                      Done (runtime_base, mem, user_rsp)
                        (say (str ''step: build user stack done'') s))))))))))"

text \<open>The entry point: past an \<open>endbr64\<close>.\<close>

definition native_entry_point ::
  "ElfImage \<Rightarrow> u64 \<Rightarrow> u64 \<Rightarrow> bytes \<Rightarrow> 'p system \<Rightarrow> ('p, u64) nrun" where
  "native_entry_point elf min_vaddr runtime_base mem s =
     with_res s (ok_or NativeAddressOutOfRange (checked_sub_u64 (entry elf) min_vaddr)) (\<lambda>entry_off.
     or_panic (checked_add_u64 runtime_base entry_off) (\<lambda>entry_va.
     with_res s (native_va_to_index runtime_base mem entry_va) (\<lambda>entry_idx.
       (let preview_len = min 16 (length mem - entry_idx);
            preview = sub_slice entry_idx preview_len mem;
            s = say (str ''entry bytes: '' @ hex_bytes preview) s
        in if take 4 preview = [0xF3, 0x0F, 0x1E, 0xFA] then
             Done (saturating_add_u64 entry_va 4)
               (say (str ''step: entry starts with ENDBR64, skip +4'') s)
           else Done entry_va s))))"

definition native_start :: "'p platform \<Rightarrow> u64 \<Rightarrow> bytes \<Rightarrow> u64 \<Rightarrow> u64 \<Rightarrow> 'p system \<Rightarrow> ('p, unit) nrun" where
  "native_start p runtime_base mem entry_va user_rsp s =
     (let s = say (str ''map base=0x'' @ hex (unat runtime_base) @ str '' entry=0x'' @
            hex (unat entry_va) @ str '' rsp=0x'' @ hex (unat user_rsp)) s;
          s = s\<lparr>skern := mark_exit_code 0 (poke runtime_base mem (skern s))\<rparr>;
          s = say (str ''step: install terminal writer'') s;
          s = s\<lparr>out_installed := True\<rparr>;
          s = say (str ''step: jump to user entry'') s
      in and_then (run_program (program p entry_va user_rsp s) s) (\<lambda>_ s.
           (let s = say (str ''returned to kernel'') s;
                s = s\<lparr>out_installed := False\<rparr>
            in Done () (say (str ''step: clear terminal writer'') s))))"

definition run_native_elf_with_args ::
  "'p platform \<Rightarrow> bytes \<Rightarrow> bytes list \<Rightarrow> bytes list \<Rightarrow> 'p system \<Rightarrow> ('p, unit) nrun" where
  "run_native_elf_with_args p img argv envp s =
     (let s = say (str ''step: enter runner'') s;
          s = say (str ''step: init syscall path begin'') s
      in and_then (init_syscall_path p s) (\<lambda>_ s.
         and_then (native_check img (say (str ''step: init syscall path done'') s))
           (\<lambda>(elf, min_vaddr, mem_len) s.
         and_then (native_image p img argv envp elf min_vaddr mem_len s)
           (\<lambda>(runtime_base, mem, user_rsp) s.
         and_then (native_entry_point elf min_vaddr runtime_base mem s) (\<lambda>entry_va s.
         and_then (ensure_region_executable p runtime_base (length mem)
             (say (str ''step: make native pages executable begin'') s)) (\<lambda>_ s.
           native_start p runtime_base mem entry_va user_rsp
             (say (str ''step: make native pages executable done'') s)))))))"

end
