(* ===== verification/Native_Props.thy ===== *)
theory Native_Props
  imports Native
begin

text \<open>
  What the native runner promises: the pages it opens, the image and the stack it builds, the
  line it reads for a program, and what a run leaves behind.
\<close>

unbundle bit_operations_syntax

section \<open>Pages\<close>

text \<open>What the page tables do: changing the flags of a page changes these and no others.\<close>

definition mapper_ok :: "'p platform \<Rightarrow> bool" where
  "mapper_ok p \<longleftrightarrow>
     (\<forall>t a f t' b. page_of a = a \<longrightarrow> page_of b = b \<longrightarrow> update_flags p t a f = Some t' \<longrightarrow>
        translate p t' b = (if b = a then Some f else translate p t b))"

lemma page_of_unat: "unat (page_of a) = unat a div 4096 * 4096"
proof -
  have "(0xFFF :: u64) = mask 12" by (simp add: mask_eq_exp_minus_1)
  then show ?thesis using unat_align [of 12 a] by (simp only: page_of_def) simp
qed

lemma page_of_iff: "page_of a = a \<longleftrightarrow> 4096 dvd unat a"
  by (simp only: word_unat_eq_iff page_of_unat dvd_div_mult_self [symmetric])
    (metis dvd_div_mult_self dvd_triv_right)

lemma page_of_page [simp]: "page_of (page_of a) = page_of a"
  by (simp only: page_of_iff page_of_unat dvd_triv_right)

lemma pages_between_eq:
  assumes "lo \<le> hi"
  shows "pages_between (page_of lo) (page_of hi) =
    map (\<lambda>i. of_nat (i * 4096)) [unat lo div 4096..<Suc (unat hi div 4096)]"
proof -
  define i where "i = unat lo div 4096"
  define j where "j = unat hi div 4096"
  have ij: "i \<le> j"
    unfolding i_def j_def using assms by (intro div_le_mono) (simp add: word_le_nat_alt)
  have u: "unat (page_of lo) = i * 4096" "unat (page_of hi) = j * 4096"
    by (simp_all add: page_of_unat i_def j_def)
  have lo: "page_of lo = of_nat (i * 4096)" by (simp flip: u(1))
  have le: "page_of lo \<le> page_of hi" using ij by (simp add: word_le_nat_alt u)
  then have n: "unat (page_of hi - page_of lo) div 4096 = j - i"
    by (simp add: unat_sub u flip: diff_mult_distrib)
  have "pages_between (page_of lo) (page_of hi) = map (\<lambda>k. of_nat ((i + k) * 4096)) [0..<Suc (j - i)]"
    unfolding pages_between_def n using le by (simp add: lo algebra_simps)
  also have "\<dots> = map (\<lambda>i. of_nat (i * 4096)) [i..<Suc j]"
    using ij by (intro nth_equalityI) (auto simp: nth_upt distrib_right simp del: upt_Suc)
  finally show ?thesis by (simp only: i_def j_def)
qed

lemma pages_between_iff:
  assumes "lo \<le> hi"
  shows "b \<in> set (pages_between (page_of lo) (page_of hi)) \<longleftrightarrow>
    page_of b = b \<and> page_of lo \<le> b \<and> b \<le> page_of hi"
proof
  assume "b \<in> set (pages_between (page_of lo) (page_of hi))"
  then obtain i where i: "b = of_nat (i * 4096)" "unat lo div 4096 \<le> i" "i \<le> unat hi div 4096"
    by (auto simp: pages_between_eq [OF assms] simp del: upt_Suc)
  then have "i * 4096 \<le> unat (page_of hi)" by (simp add: page_of_unat)
  then have "i * 4096 < usize_bound" using unat_u64_bound [of "page_of hi"] by linarith
  then have b: "unat b = i * 4096" unfolding i(1) by (rule unat_of_nat_u64)
  have "4096 dvd unat b" unfolding b by simp
  with i(2,3) show "page_of b = b \<and> page_of lo \<le> b \<and> b \<le> page_of hi"
    unfolding page_of_iff word_le_nat_alt page_of_unat b by simp
next
  assume b: "page_of b = b \<and> page_of lo \<le> b \<and> b \<le> page_of hi"
  then have u: "unat b = unat b div 4096 * 4096" by (metis page_of_unat)
  have le: "unat lo div 4096 * 4096 \<le> unat b" "unat b \<le> unat hi div 4096 * 4096"
    using b by (simp_all add: word_le_nat_alt page_of_unat)
  then have "unat lo div 4096 \<le> unat b div 4096" "unat b div 4096 \<le> unat hi div 4096"
    using div_le_mono [OF le(1), of 4096] div_le_mono [OF le(2), of 4096] by simp_all
  moreover have "b = of_nat (unat b div 4096 * 4096)" by (simp flip: u)
  ultimately show "b \<in> set (pages_between (page_of lo) (page_of hi))"
    unfolding pages_between_eq [OF assms] by (auto simp del: upt_Suc)
qed

lemma clear_bits [simp]: "((f :: u64) AND NOT m) AND m = 0"
  by (rule bit_word_eqI) (auto simp: bit_simps)

lemma clear_clear: "(f :: u64) AND m = 0 \<Longrightarrow> f AND NOT m = f"
proof (rule bit_word_eqI)
  fix n assume "f AND m = 0" "n < LENGTH(64)"
  then have "\<not> (bit f n \<and> bit m n)" by (metis bit_0_eq bit_and_iff bot2E bot_apply)
  then show "bit (f AND NOT m) n = bit f n" using \<open>n < LENGTH(64)\<close> by (auto simp: bit_simps)
qed

text \<open>The flags after opening: those of the pages in the list lose the bit, if it was set.\<close>

lemma open_pages_done:
  assumes "mapper_ok p" "\<forall>a \<in> set as. page_of a = a" "open_pages p as s = Done u s'"
  shows "(\<forall>a \<in> set as. translate p (page_table s) a \<noteq> None) \<and>
    (\<forall>b. page_of b = b \<longrightarrow> translate p (page_table s') b =
       (if b \<in> set as then map_option (\<lambda>f. f AND NOT NO_EXECUTE) (translate p (page_table s) b)
        else translate p (page_table s) b)) \<and>
    s' = s\<lparr>page_table := page_table s'\<rparr>"
  using assms(2,3)
proof (induction as arbitrary: s)
  case (Cons a as)
  from Cons.prems(2) obtain f where f: "translate p (page_table s) a = Some f"
    by (auto split: option.splits)
  show ?case
  proof (cases "f AND NO_EXECUTE = 0")
    case True
    with Cons.IH [of s] Cons.prems f clear_clear [OF True] show ?thesis by auto
  next
    case False
    with Cons.prems f obtain t where
      t: "update_flags p (page_table s) a (f AND NOT NO_EXECUTE) = Some t"
        "open_pages p as (s\<lparr>page_table := t\<rparr>) = Done u s'"
      by (auto split: option.splits)
    have tr: "translate p t b = (if b = a then Some (f AND NOT NO_EXECUTE) else translate p (page_table s) b)"
      if "page_of b = b" for b
      using assms(1) Cons.prems(1) t(1) that unfolding mapper_ok_def by simp
    from Cons.IH [of "s\<lparr>page_table := t\<rparr>"] t(2) Cons.prems(1)
    have IH: "\<forall>a \<in> set as. translate p t a \<noteq> None"
      "\<And>b. page_of b = b \<Longrightarrow> translate p (page_table s') b =
         (if b \<in> set as then map_option (\<lambda>f. f AND NOT NO_EXECUTE) (translate p t b) else translate p t b)"
      "s' = s\<lparr>page_table := page_table s'\<rparr>"
      by auto
    have "translate p (page_table s) c \<noteq> None" if "c \<in> set (a # as)" for c
      using that IH(1) tr Cons.prems(1) f by (auto split: if_splits)
    with IH(2,3) tr f Cons.prems(1) show ?thesis
      by (auto simp: clear_clear)
  qed
qed simp

lemma page_of_mono: "a \<le> b \<Longrightarrow> page_of a \<le> page_of b"
  by (simp add: word_le_nat_alt page_of_unat div_le_mono)

lemma page_of_le: "page_of a \<le> a"
  by (simp add: word_le_nat_alt page_of_unat)

lemma region_pages:
  assumes "lo \<le> hi" "page_of b = b"
  shows "(\<exists>x. lo \<le> x \<and> x \<le> hi \<and> page_of x = b) \<longleftrightarrow> page_of lo \<le> b \<and> b \<le> page_of hi"
proof
  assume "\<exists>x. lo \<le> x \<and> x \<le> hi \<and> page_of x = b"
  then show "page_of lo \<le> b \<and> b \<le> page_of hi" using page_of_mono by auto
next
  assume b: "page_of lo \<le> b \<and> b \<le> page_of hi"
  show "\<exists>x. lo \<le> x \<and> x \<le> hi \<and> page_of x = b"
  proof (cases "lo \<le> b")
    case True
    with b assms(2) page_of_le [of hi] show ?thesis by (intro exI [of _ b]) auto
  next
    case False
    then have "b \<le> page_of lo" using page_of_mono [of b lo] assms(2) by simp
    with b assms(1) show ?thesis by (intro exI [of _ lo]) auto
  qed
qed

text \<open>The addresses of a region that does not wrap.\<close>

lemma region_addresses:
  assumes "len \<noteq> 0" "Option.bind (checked_add_u64 base (of_nat len)) (\<lambda>v. checked_sub_u64 v 1) = Some z"
    "len < usize_bound"
  shows "base \<le> z" "unat (x - base) < len \<longleftrightarrow> base \<le> x \<and> x \<le> z"
proof -
  have n: "unat (of_nat len :: u64) = len" by (rule unat_of_nat_u64 [OF assms(3)])
  from assms(2) obtain v where v: "checked_add_u64 base (of_nat len) = Some v" "checked_sub_u64 v 1 = Some z"
    by (auto simp: bind_eq_Some_conv)
  have "unat v = unat base + len" using checked_add_u64_unat [OF v(1)] n by simp
  with checked_sub_u64_unat [OF v(2)] assms(1) have z: "unat z = unat base + len - 1" by simp
  then show "base \<le> z" using assms(1) by (simp add: word_le_nat_alt)
  show "unat (x - base) < len \<longleftrightarrow> base \<le> x \<and> x \<le> z"
  proof (cases "base \<le> x")
    case True
    then have "unat (x - base) = unat x - unat base" by (simp add: unat_sub)
    with True z assms(1) show ?thesis by (auto simp: word_le_nat_alt)
  next
    case False
    then have "unat (x - base) = usize_bound - (unat base - unat x)"
      by (simp add: word_le_nat_alt unat_sub_if')
    moreover have "unat base + len \<le> usize_bound" using z unat_u64_bound [of z] assms(1) by linarith
    ultimately show ?thesis using False by (simp add: word_le_nat_alt)
  qed
qed

text \<open>A region made executable is executable, and nothing else becomes so. When the call
  succeeds, every page that holds a byte of the region is mapped and keeps its flags but for
  a no-execute bit, every other page keeps all of its flags, and nothing but the page tables
  changes.\<close>

lemma native_region_full:
  assumes "mapper_ok p" "ensure_region_executable p base len s = Done () s'" "len < 2 ^ 64"
  shows "(\<forall>x. unat (x - base) < len \<longrightarrow>
      (\<exists>f. translate p (page_table s') (page_of x) = Some f \<and> f AND NO_EXECUTE = 0)) \<and>
    (\<forall>b. page_of b = b \<longrightarrow> translate p (page_table s') b =
       (if \<exists>x. unat (x - base) < len \<and> page_of x = b
        then map_option (\<lambda>f. f AND NOT NO_EXECUTE) (translate p (page_table s) b)
        else translate p (page_table s) b)) \<and>
    s' = s\<lparr>page_table := page_table s'\<rparr>"
proof (cases "len = 0")
  case True
  with assms(2) show ?thesis by (simp add: ensure_region_executable_def)
next
  case False
  with assms(2) obtain z where
    z: "Option.bind (checked_add_u64 base (of_nat len)) (\<lambda>v. checked_sub_u64 v 1) = Some z"
      "open_pages p (pages_between (page_of base) (page_of z)) s = Done () s'"
    by (cases "phys_off s"; cases "Option.bind (checked_add_u64 base (of_nat len)) (\<lambda>v. checked_sub_u64 v 1)")
      (auto simp: ensure_region_executable_def split: if_splits)
  have len: "len < usize_bound" using assms(3) by simp
  note region = region_addresses [OF False z(1) len]
  have pages: "\<forall>a \<in> set (pages_between (page_of base) (page_of z)). page_of a = a"
    by (simp add: pages_between_iff [OF region(1)])
  have inside: "b \<in> set (pages_between (page_of base) (page_of z)) \<longleftrightarrow>
      (\<exists>x. unat (x - base) < len \<and> page_of x = b)" if "page_of b = b" for b
    using that by (simp add: pages_between_iff [OF region(1)] region(2) region_pages [OF region(1) that])
  note opened = open_pages_done [OF assms(1) pages z(2)]
  show ?thesis
  proof (intro conjI allI impI)
    fix x assume x: "unat (x - base) < len"
    then have m: "page_of x \<in> set (pages_between (page_of base) (page_of z))"
      using inside [of "page_of x"] by auto
    with opened obtain f where "translate p (page_table s) (page_of x) = Some f" by auto
    with opened m show "\<exists>f. translate p (page_table s') (page_of x) = Some f \<and> f AND NO_EXECUTE = 0"
      by simp
  qed (use opened inside in auto)
qed

lemma native_region:
  assumes "mapper_ok p" "ensure_region_executable p base len s = Done () s'" "len < 2 ^ 64"
  shows "\<forall>x. unat (x - base) < len \<longrightarrow>
      (\<exists>f. translate p (page_table s') (page_of x) = Some f \<and> f AND NO_EXECUTE = 0)"
    "s' = s\<lparr>page_table := page_table s'\<rparr>"
  by (rule conjunct1 [OF native_region_full [OF assms]],
      rule conjunct2 [OF conjunct2 [OF native_region_full [OF assms]]])

text \<open>A platform with its page table as a map from pages to flags.\<close>

definition demo_platform :: "event list \<Rightarrow> (u64 \<Rightarrow> u64 option) platform" where
  "demo_platform es =
     \<lparr>image_addr = (\<lambda>n. Some 0x200800), canonical = (\<lambda>a. a < 0x800000000000),
      translate = (\<lambda>t a. t a), update_flags = (\<lambda>t a f. if t a = None then None else Some (t(a := Some f))),
      syscall_entry = 0x100000, program = (\<lambda>_ _ _. es)\<rparr>"

definition demo_table :: "u64 \<Rightarrow> u64 option" where
  "demo_table a = (if page_of a = a \<and> a < 0x1000000 then Some 0x8000000000000003 else None)"

definition demo_system :: "(u64 \<Rightarrow> u64 option) system" where
  "demo_system =
     \<lparr>tty_out = [], serial_log = [], idt = None, idt_ready = False, skern = boot_kernel (\<lambda>_. 0), syscall_ready = False, efer = 0,
      star = 0, lstar = 0, sfmask = 0, phys_off = Some 0x10000000000, out_installed = False,
      page_table = demo_table, ramdisk = None\<rparr>"

lemma demo_mapper: "mapper_ok (demo_platform es)"
  by (auto simp: mapper_ok_def demo_platform_def split: if_splits)

section \<open>The image and the stack\<close>

text \<open>C40: the native runner builds the image the interpreter builds. At any load address, for
  every file, segment table, arguments and environment, it copies the same bytes to the same
  places, lays the same initial stack out, and fails and panics in the same cases, with its
  own names for the errors.\<close>

theorem native_same_image:
  "buffer_only (native_copy_segments img lo idx segs (mem, lg)) =
     rename_err native_error (copy_segments img lo segs mem) \<and>
   native_build_initial_stack base tos argv envp mem =
     rename_err native_error (build_initial_stack base tos argv envp mem)"
  by (simp add: native_copy_eq native_stack_eq)

end
