(* ===== verification/Native_Run.thy ===== *)
theory Native_Run
  imports Native_Props Guest_Stack
begin

text \<open>
  Running a native program: the line that \<open>read\<close> delivers, and what a run leaves behind.
\<close>

section \<open>Reading a line\<close>

text \<open>Return is delivered as a line feed.\<close>

definition newline :: "u8 \<Rightarrow> u8" where
  "newline c = (if c = CR then LF else c)"

lemma stdin_byte_poll:
  "stdin_reader k = Some ps \<Longrightarrow> poll_byte ps = Some (c, ps') \<Longrightarrow>
     read_stdin_byte_blocking k = Done (Some c) (k\<lparr>stdin_reader := Some ps'\<rparr>)"
  by (simp add: read_stdin_byte_blocking_def)

lemma native_stdin_step:
  assumes "stdin_reader k = Some ps" "poll_byte ps = Some (c, ps')"
  shows "native_stdin ptr got (Suc n) k =
    (let k = poke (ptr + of_nat got) [newline c] (k\<lparr>stdin_reader := Some ps'\<rparr>)
     in if c = LF \<or> c = CR then Done (got + 1) k else native_stdin ptr (got + 1) n k)"
  by (auto simp: stdin_byte_poll [OF assms] newline_def Let_def)

lemma native_stdin_line:
  assumes "stdin_reader k = Some ps" "got + n < usize_bound"
  shows "(case line_of n (keys ps) of
      None \<Rightarrow> native_stdin ptr got n k = (Hang :: ('e, kernel, nat) run)
    | Some l \<Rightarrow> \<exists>ps'. keys ps = l @ keys ps' \<and>
        native_stdin ptr got n k = (Done (got + length l) :: kernel \<Rightarrow> ('e, kernel, nat) run)
          (poke (ptr + of_nat got) (map newline l) (k\<lparr>stdin_reader := Some ps'\<rparr>)))"
  using assms
proof (induction n arbitrary: got k ps)
  case 0
  then have "k\<lparr>stdin_reader := Some ps\<rparr> = k" by simp
  then show ?case by (auto simp: poke_def intro!: exI [of _ ps])
next
  case (Suc n)
  show ?case
  proof (cases "poll_byte ps")
    case None
    then have "keys ps = []" by (simp add: poll_byte_hang_iff)
    with None Suc.prems(1) show ?thesis by (simp add: read_stdin_byte_blocking_def)
  next
    case (Some r)
    then obtain c ps1 where r: "poll_byte ps = Some (c, ps1)" by (cases r) auto
    note keys = poll_byte_keys [OF r]
    note step = native_stdin_step [OF Suc.prems(1) r, of ptr got n]
    let ?k = "poke (ptr + of_nat got) [newline c] (k\<lparr>stdin_reader := Some ps1\<rparr>)"
    show ?thesis
    proof (cases "c = LF \<or> c = CR")
      case True
      with keys show ?thesis by (auto simp: step simp del: native_stdin.simps)
    next
      case False
      have "stdin_reader ?k = Some ps1" by (simp add: poke_def)
      note IH = Suc.IH [OF this, of "got + 1"]
      have glue: "poke (ptr + of_nat (got + 1)) (map newline l) (?k\<lparr>stdin_reader := Some ps'\<rparr>) =
          poke (ptr + of_nat got) (map newline (c # l)) (k\<lparr>stdin_reader := Some ps'\<rparr>)"
        if "length l \<le> n" for l ps'
        using mem_write_append [of "[newline c]" "map newline l" "umem k" "ptr + of_nat got"]
          that Suc.prems(2) by (simp add: poke_def algebra_simps)
      show ?thesis
      proof (cases "line_of n (keys ps1)")
        case None
        with IH Suc.prems(2) keys False show ?thesis by (simp add: step del: native_stdin.simps)
      next
        case (Some l)
        with IH Suc.prems(2) obtain ps' where ps': "keys ps1 = l @ keys ps'"
          "(native_stdin ptr (got + 1) n ?k :: ('e, kernel, nat) run) = Done (got + 1 + length l)
            (poke (ptr + of_nat (got + 1)) (map newline l) (?k\<lparr>stdin_reader := Some ps'\<rparr>))" by auto
        with Some keys False glue [of l ps'] line_of_length [OF Some] show ?thesis
          by (auto simp: step simp del: native_stdin.simps intro!: exI [of _ ps'])
      qed
    qed
  qed
qed

section \<open>What a run leaves behind\<close>

text \<open>The exit code of a program, from what it does.\<close>

fun exit_status :: "event list \<Rightarrow> u32" where
  "exit_status [] = 0"
| "exit_status (Store a bs # es) = exit_status es"
| "exit_status (Call nr a0 a1 a2 a3 a4 # es) = (if nr = 60 \<or> nr = 231 then ucast a0 else exit_status es)"

text \<open>What neither a system call nor a program changes.\<close>

definition hardware ::
  "'p system \<Rightarrow> bool \<times> u64 \<times> u64 \<times> u64 \<times> u64 \<times> u64 option \<times> bool \<times> 'p \<times> (u64 \<times> bytes) option \<times>
     InterruptDescriptorTable option \<times> bool" where
  "hardware s = (syscall_ready s, efer s, star s, lstar s, sfmask s, phys_off s, out_installed s,
     page_table s, ramdisk s, idt s, idt_ready s)"

lemma hardware_updates [simp]:
  "hardware (s\<lparr>skern := k\<rparr>) = hardware s" "hardware (process bs s) = hardware s"
  "hardware (say msg s) = hardware s"
  by (simp_all add: hardware_def process_def say_def)

lemma on_kernel_ok:
  "state_ok I r \<Longrightarrow> state_ok (\<lambda>s'. I (skern s') \<and> hardware s' = hardware s) (on_kernel s r)"
  by (cases r) auto

lemma skern_term_write [simp]:
  "skern (term_write_impl ptr len s) = skern s" "hardware (term_write_impl ptr len s) = hardware s"
  by (simp_all add: term_write_impl_def process_def hardware_def)

context call_invariant begin

lemma I_stdin_poll: "I k \<Longrightarrow> state_ok I (read_stdin_byte_blocking k)"
  by (auto simp: read_stdin_byte_blocking_def intro: I_stdin split: option.splits)

lemma I_native_stdin: "I k \<Longrightarrow> state_ok I (native_stdin ptr got n k)"
proof (induction n arbitrary: got k)
  case (Suc n)
  show ?case unfolding native_stdin.simps
    by (rule state_ok_and_then [OF I_stdin_poll [OF Suc.prems]])
      (auto simp: Let_def intro: Suc.IH I_poke split: option.split)
qed simp

lemma I_native_dispatch:
  assumes "I (skern s)" "nr \<noteq> 60" "nr \<noteq> 231"
  shows "state_ok (\<lambda>s'. I (skern s') \<and> hardware s' = hardware s)
    (native_syscall_dispatch nr a0 a1 a2 a3 a4 s)"
proof -
  have ne: "nr \<noteq> SYS_EXIT" "nr \<noteq> SYS_EXIT_GROUP" using assms by (simp_all add: sys_nrs)
  show ?thesis
    unfolding native_syscall_dispatch_def Let_def
    by (intro state_ok_if_cond state_ok_and_then on_kernel_ok I_native_stdin I_dispatch_live assms(1) ne)
      (use assms(1) in auto)
qed

end

lemma last_exit_set_fd [simp]: "last_exit (set_fd fd e k) = last_exit k"
  by (simp add: set_fd_def)

text \<open>A property of the kernel, with the exit code besides, survives every call but \<open>exit\<close>.\<close>

sublocale kernel_invariant < live: call_invariant "\<lambda>k. I k \<and> last_exit k = c" for c
  by unfold_locales (auto simp del: One_nat_def intro: I_fd_inv updates I_set_fd)

context kernel_invariant begin

lemma run_program_ok:
  "I (skern s) \<Longrightarrow> state_ok (\<lambda>s'. I (skern s') \<and> hardware s' = hardware s) (run_program es s)"
proof (induction es s rule: run_program.induct)
  case (2 a bs es s)
  then show ?case using I_poke [of "skern s" a bs] by simp
next
  case (3 nr a0 a1 a2 a3 a4 es s)
  show ?case
  proof (cases "nr = 60 \<or> nr = 231")
    case True
    with 3(2) show ?thesis by (auto simp: native_mark_exit_def mark_exit_code_def I_exit)
  next
    case False
    have keep: "state_ok (\<lambda>s'. I (skern s') \<and> hardware s' = hardware s) (run_program es s1)"
      if s1: "I (skern s1) \<and> hardware s1 = hardware s" for s1
    proof -
      have "state_ok (\<lambda>s'. I (skern s') \<and> hardware s' = hardware s1) (run_program es s1)"
        by (rule 3(1)) (use False s1 in auto)
      then show ?thesis unfolding conjunct2 [OF s1] .
    qed
    have "run_program (Call nr a0 a1 a2 a3 a4 # es) s =
        and_then (native_syscall_dispatch nr a0 a1 a2 a3 a4 s) (\<lambda>_. run_program es)"
      using False by simp
    then show ?thesis
      by (simp only:) (rule state_ok_and_then [OF I_native_dispatch keep], use 3(2) False in auto)
  qed
qed simp

lemma run_program_done:
  "run_program es s = Done u s' \<Longrightarrow> I (skern s) \<Longrightarrow> last_exit (skern s) = 0 \<Longrightarrow>
     I (skern s') \<and> last_exit (skern s') = exit_status es \<and> hardware s' = hardware s"
proof (induction es s rule: run_program.induct)
  case (2 a bs es s)
  then show ?case using I_poke [of "skern s" a bs] by (simp add: poke_def)
next
  case (3 nr a0 a1 a2 a3 a4 es s)
  show ?case
  proof (cases "nr = 60 \<or> nr = 231")
    case True
    have "I (skern (native_mark_exit a0 s))"
      unfolding native_mark_exit_def mark_exit_code_def by (simp add: I_exit 3(3))
    with 3 True show ?thesis
      by (auto simp: native_mark_exit_def mark_exit_code_def)
  next
    case False
    then have ok: "state_ok (\<lambda>s1. (I (skern s1) \<and> last_exit (skern s1) = 0) \<and>
        hardware s1 = hardware s)
        (native_syscall_dispatch nr a0 a1 a2 a3 a4 s :: (NativeError, 'a system, u64) run)"
      using 3(3,4) by (intro live.I_native_dispatch) auto
    with 3 False show ?thesis
      by (cases "native_syscall_dispatch nr a0 a1 a2 a3 a4 s :: (NativeError, 'a system, u64) run")
        auto
  qed
qed simp_all

end

section \<open>Loading\<close>

fun never_fails :: "('e, 's, 'a) run \<Rightarrow> bool" where
  "never_fails (Fail e s) = False"
| "never_fails _ = True"

lemma never_fails_and_then:
  "never_fails r \<Longrightarrow> (\<And>x s. never_fails (f x s)) \<Longrightarrow> never_fails (and_then r f)"
  by (cases r) auto

lemma state_ok_never_fails:
  "never_fails r \<Longrightarrow> state_ok P r \<Longrightarrow> (\<And>x s. P s \<Longrightarrow> state_ok Q (f x s)) \<Longrightarrow> state_ok Q (and_then r f)"
  by (cases r) auto

lemma never_fails_ret [simp]: "never_fails (ret r)"
  by (cases r) simp

lemma never_fails_dispatch: "never_fails (dispatch nr a0 a1 a2 a3 a4 a5 k)"
proof -
  have mmap: "never_fails (sys_mmap l k)" for l
    by (cases "checked_add_u64 (max l 0x1000) 0xFFF") (simp_all add: sys_mmap_def Let_def)
  have read: "never_fails (posix_read fd b l k)" for fd b l
    by (auto simp: posix_read_def split: option.splits)
  show ?thesis
    unfolding dispatch_def by (intro run_if [where P = never_fails]) (simp_all add: mmap read)
qed

lemma never_fails_on_kernel: "never_fails r \<Longrightarrow> never_fails (on_kernel s r)"
  by (cases r) auto

lemma never_fails_stdin: "never_fails (native_stdin ptr got n k)"
proof (induction n arbitrary: got k)
  case (Suc n)
  have "never_fails (read_stdin_byte_blocking k)" for k :: kernel
    by (auto simp: read_stdin_byte_blocking_def split: option.splits)
  then show ?case unfolding native_stdin.simps
    by (intro never_fails_and_then) (auto simp: Let_def Suc.IH split: option.split)
qed simp

lemma never_fails_native_dispatch: "never_fails (native_syscall_dispatch nr a0 a1 a2 a3 a4 s)"
  unfolding native_syscall_dispatch_def Let_def
  by (intro run_if [where P = never_fails] never_fails_and_then never_fails_on_kernel
      never_fails_dispatch never_fails_stdin) simp_all

lemma never_fails_program: "never_fails (run_program es s)"
  by (induction es s rule: run_program.induct)
    (auto intro!: never_fails_and_then never_fails_native_dispatch)

text \<open>What loading a program leaves alone, even when it fails.\<close>

definition loading :: "'p system \<Rightarrow> 'p system \<Rightarrow> bool" where
  "loading s s' \<longleftrightarrow>
     skern s' = skern s \<and> tty_out s' = tty_out s \<and> out_installed s' = out_installed s \<and>
     ramdisk s' = ramdisk s \<and> phys_off s' = phys_off s \<and>
     idt s' = idt s \<and> idt_ready s' = idt_ready s"

lemma loading_simps [simp]:
  "loading s s" "loading s (say msg s') = loading s s'" "loading s (s'\<lparr>serial_log := lg\<rparr>) = loading s s'"
  "loading s (s'\<lparr>efer := e\<rparr>) = loading s s'" "loading s (s'\<lparr>star := e\<rparr>) = loading s s'"
  "loading s (s'\<lparr>lstar := e\<rparr>) = loading s s'" "loading s (s'\<lparr>sfmask := e\<rparr>) = loading s s'"
  "loading s (s'\<lparr>syscall_ready := b\<rparr>) = loading s s'" "loading s (s'\<lparr>page_table := t\<rparr>) = loading s s'"
  by (simp_all add: loading_def say_def)

lemma loading_trans: "loading s s' \<Longrightarrow> loading s' s'' \<Longrightarrow> loading s s''"
  by (simp add: loading_def)

lemma loading_open_pages: "loading s s' \<Longrightarrow> state_ok (loading s) (open_pages p as s')"
  by (induction as arbitrary: s') (auto split: option.split)

lemma loading_stages:
  "loading s s' \<Longrightarrow> state_ok (loading s) (init_syscall_path p s')"
  "loading s s' \<Longrightarrow> state_ok (loading s) (native_check img s')"
  "loading s s' \<Longrightarrow> state_ok (loading s) (native_image p img argv envp elf lo n s')"
  "loading s s' \<Longrightarrow> state_ok (loading s) (native_entry_point elf lo base mem s')"
  "loading s s' \<Longrightarrow> state_ok (loading s) (ensure_region_executable p base len s')"
proof -
  have cp: "state_ok (loading s) (copying s' r)" if "loading s s'" for s' r
    using that by (cases "(s', r)" rule: copying.cases) auto
  have bf: "state_ok (loading s) (on_buffer s' r)" if "loading s s'"
    for s' and r :: "(NativeError, bytes, u64) run"
    using that by (cases r) auto
  show "loading s s' \<Longrightarrow> state_ok (loading s) (init_syscall_path p s')"
    by (simp add: init_syscall_path_def Let_def)
  show "loading s s' \<Longrightarrow> state_ok (loading s) (native_check img s')"
    unfolding native_check_def Let_def case_prod_unfold by (intro run_intro) auto
  show "loading s s' \<Longrightarrow> state_ok (loading s) (native_image p img argv envp elf lo n s')"
    unfolding native_image_def Let_def case_prod_unfold by (intro run_intro cp bf) auto
  show "loading s s' \<Longrightarrow> state_ok (loading s) (native_entry_point elf lo base mem s')"
    unfolding native_entry_point_def Let_def by (intro run_intro) auto
  show "loading s s' \<Longrightarrow> state_ok (loading s) (ensure_region_executable p base len s')"
    unfolding ensure_region_executable_def by (intro run_intro loading_open_pages) auto
qed

text \<open>The processor's system call registers, as \<open>init_syscall_path\<close> sets them.\<close>

definition path_set :: "'p platform \<Rightarrow> 'p system \<Rightarrow> bool" where
  "path_set p s \<longleftrightarrow> syscall_ready s \<and> lstar s = syscall_entry p \<and> efer s AND 1 = 1 \<and>
     star s = 0x0013000800000000 \<and> sfmask s = 0x200"

lemma path_set_hardware: "hardware s' = hardware s \<Longrightarrow> path_set p s' = path_set p s"
  by (simp add: hardware_def path_set_def)

lemma init_path_set:
  assumes "syscall_ready s \<longrightarrow> path_set p s" "init_syscall_path p s = Done u s'"
  shows "path_set p s'"
proof -
  have "(e OR 1) AND (1 :: u64) = 1" for e
    by (rule bit_word_eqI) (auto simp: bit_simps)
  then show ?thesis using assms
    by (auto simp: init_syscall_path_def path_set_def say_def KERNEL_CS_def Let_def split: if_splits)
qed

lemma hardware_stages:
  "hardware s' = hardware s \<Longrightarrow> state_ok (\<lambda>t. hardware t = hardware s) (native_check img s')"
  "hardware s' = hardware s \<Longrightarrow> state_ok (\<lambda>t. hardware t = hardware s) (native_image p img argv envp elf lo n s')"
  "hardware s' = hardware s \<Longrightarrow> state_ok (\<lambda>t. hardware t = hardware s) (native_entry_point elf lo base mem s')"
proof -
  have lg: "hardware (s'\<lparr>serial_log := lg\<rparr>) = hardware s'" for s' :: "'b system" and lg
    by (simp add: hardware_def)
  have cp: "state_ok (\<lambda>t. hardware t = hardware s) (copying s' r)" if "hardware s' = hardware s" for s' r
    using that by (cases "(s', r)" rule: copying.cases) (auto simp: lg)
  have bf: "state_ok (\<lambda>t. hardware t = hardware s) (on_buffer s' r)" if "hardware s' = hardware s"
    for s' and r :: "(NativeError, bytes, u64) run"
    using that by (cases r) auto
  show "hardware s' = hardware s \<Longrightarrow> state_ok (\<lambda>t. hardware t = hardware s) (native_check img s')"
    unfolding native_check_def Let_def case_prod_unfold by (intro run_intro) auto
  show "hardware s' = hardware s \<Longrightarrow> state_ok (\<lambda>t. hardware t = hardware s) (native_image p img argv envp elf lo n s')"
    unfolding native_image_def Let_def case_prod_unfold by (intro run_intro cp bf) auto
  show "hardware s' = hardware s \<Longrightarrow> state_ok (\<lambda>t. hardware t = hardware s) (native_entry_point elf lo base mem s')"
    unfolding native_entry_point_def Let_def by (intro run_intro) auto
qed

lemma with_res_Done: "with_res s r f = Done x s' \<longleftrightarrow> (\<exists>v. r = Inr v \<and> f v = Done x s')"
  by (cases r) auto

lemma or_panic_Done: "or_panic r f = Done x s' \<longleftrightarrow> (\<exists>v. r = Some v \<and> f v = Done x s')"
  by (cases r) auto

lemma and_then_Done: "and_then r f = Done x s' \<longleftrightarrow> (\<exists>v s. r = Done v s \<and> f v s = Done x s')"
  by (cases r) auto

lemmas run_Done = with_res_Done or_panic_Done and_then_Done

lemma check_done:
  assumes "native_check img s = Done (elf, lo, n) s'"
  shows "n \<le> MAX_NATIVE_MEM"
  using assms by (auto simp: native_check_def Let_def case_prod_unfold run_Done split: if_splits)

lemma copying_Done:
  "copying s r = Done mem s' \<longleftrightarrow> (\<exists>u lg. r = Done u (mem, lg) \<and> s' = s\<lparr>serial_log := lg\<rparr>)"
  by (cases "(s, r)" rule: copying.cases) auto

lemma on_buffer_Done: "on_buffer s r = Done (x, mem) s' \<longleftrightarrow> r = Done x mem \<and> s' = s"
  by (cases r) auto

lemma rename_Done: "rename_err f r = Done x s \<longleftrightarrow> r = Done x s"
  by (cases r) auto

lemma native_copy_length:
  "native_copy_segments img lo idx segs (mem, lg) = Done u (mem', lg') \<Longrightarrow> length mem' = length mem"
proof (induction segs arbitrary: idx mem lg)
  case (Cons seg segs)
  have "length (put_slice mem i (sub_slice j n img)) = length mem" if "i + n \<le> length mem" for i j n
    using that by (simp add: put_slice_def sub_slice_def)
  with Cons show ?case by (auto simp: Let_def split: if_splits)
qed simp

lemma image_done:
  assumes "native_image p img argv envp elf lo n s = Done (base, mem, sp) s'" "n \<le> MAX_NATIVE_MEM"
  shows "length mem = n + NATIVE_STACK_SIZE \<and> (\<exists>aps eps. stack_image base mem sp aps eps argv envp)"
proof -
  from assms(1) obtain tot buf lg u lg' tos where
    tot: "checked_add_usize n NATIVE_STACK_SIZE = Some tot"
    and cp: "native_copy_segments img lo 0 (segments elf) (replicate tot 0, lg) = Done u (buf, lg')"
    and tos: "Option.bind (checked_add_u64 base (of_nat (length buf))) (\<lambda>t. checked_sub_u64 t 0x10) = Some tos"
    and st: "native_build_initial_stack base tos argv envp buf = Done sp mem"
    by (auto simp: native_image_def Let_def case_prod_unfold run_Done copying_Done on_buffer_Done
        ok_or_Inr_iff)
  have len: "length buf = n + NATIVE_STACK_SIZE"
    using native_copy_length [OF cp] tot by (auto simp: checked_add_usize_def split: if_splits)
  then have small: "length buf < u32_bound" and big: "length buf \<ge> 262144"
    using assms(2) by (simp_all add: MAX_NATIVE_MEM_def NATIVE_STACK_SIZE_def)
  then have l64: "unat (of_nat (length buf) :: u64) = length buf"
    by (intro unat_of_nat_u64) linarith
  from tos obtain t where t: "checked_add_u64 base (of_nat (length buf)) = Some t" "checked_sub_u64 t 0x10 = Some tos"
    by (auto simp: bind_eq_Some_conv)
  have "unat t = unat base + length buf" using checked_add_u64_unat [OF t(1)] l64 by simp
  with checked_sub_u64_unat [OF t(2)] have u: "unat tos = unat base + length buf - 16" by simp
  have le: "unat base + 16 \<le> unat tos" "unat tos \<le> unat base + length buf"
    using u big by linarith+
  have "build_initial_stack base tos argv envp buf = Done sp mem"
    using st unfolding native_stack_eq rename_Done .
  from build_stack_done [OF this small] obtain aps eps where
    "stack_image base mem sp aps eps argv envp" "length mem = length buf"
    using le by auto
  with len show ?thesis by auto
qed

lemma entry_done:
  assumes "native_entry_point elf lo base mem s = Done e s'"
  shows "unat (e - base) \<le> length mem"
proof -
  from assms obtain v i where v: "native_va_to_index base mem v = Inr i"
    and e: "e = v \<or> e = saturating_add_u64 v 4 \<and> take 4 (sub_slice i (min 16 (length mem - i)) mem) = [0xF3, 0x0F, 0x1E, 0xFA]"
    by (auto simp: native_entry_point_def Let_def run_Done split: if_splits)
  from v have i: "base \<le> v" "i = unat (v - base)" "i < length mem"
    by (auto simp: native_va_to_index_def Let_def split: if_splits)
  show ?thesis
  proof (cases "e = v")
    case False
    with e have "length (take 4 (sub_slice i (min 16 (length mem - i)) mem)) = 4" by auto
    with i(3) have fit: "i + 4 \<le> length mem" by (auto simp: length_sub_slice)
    have "unat e \<le> unat v + 4"
      using False e by (simp add: saturating_add_u64_unat)
    moreover have "base \<le> e"
    proof -
      have "unat e = min (unat v + 4) 18446744073709551615"
        using False e by (simp add: saturating_add_u64_unat)
      with i(1) unat_u64_bound [of v] show ?thesis unfolding word_le_nat_alt by linarith
    qed
    moreover from this have "unat (e - base) = unat e - unat base" by (simp add: unat_sub)
    moreover have "unat (v - base) = unat v - unat base" using i(1) by (simp add: unat_sub)
    ultimately show ?thesis using fit i by (simp add: word_le_nat_alt)
  qed (use i in simp)
qed

section \<open>A run\<close>

text \<open>The processor at the first instruction of a program: the image with its stack lies in
  memory at \<open>base\<close>, executable; the entry is in it; the stack is the one of the System V
  ABI; and system calls reach the kernel.\<close>

definition entered ::
  "'p platform \<Rightarrow> bytes list \<Rightarrow> bytes list \<Rightarrow> u64 \<Rightarrow> bytes \<Rightarrow> u64 \<Rightarrow> u64 \<Rightarrow> 'p system \<Rightarrow> bool" where
  "entered p argv envp base mem entry_va sp s \<longleftrightarrow>
     mem_read (umem (skern s)) base (length mem) = mem \<and>
     (\<forall>x. unat (x - base) < length mem \<longrightarrow>
       (\<exists>f. translate p (page_table s) (page_of x) = Some f \<and> f AND NO_EXECUTE = 0)) \<and>
     unat (entry_va - base) \<le> length mem \<and>
     (\<exists>aps eps. stack_image base mem sp aps eps argv envp) \<and>
     path_set p s \<and> out_installed s \<and> last_exit (skern s) = 0"

context kernel_invariant begin

lemma start_done:
  assumes "native_start p base mem entry_va sp s = Done u s'" "I (skern s)"
  shows "\<exists>s0. skern s0 = mark_exit_code 0 (poke base mem (skern s)) \<and>
    hardware s0 = hardware (s\<lparr>out_installed := True\<rparr>) \<and>
    I (skern s') \<and> last_exit (skern s') = exit_status (program p entry_va sp s0) \<and>
    hardware s' = hardware (s\<lparr>out_installed := False\<rparr>)"
proof -
  let ?s0 = "say (str ''step: jump to user entry'') ((say (str ''step: install terminal writer'')
    ((say (str ''map base=0x'' @ hex (unat base) @ str '' entry=0x'' @ hex (unat entry_va) @
       str '' rsp=0x'' @ hex (unat sp)) s)\<lparr>skern := mark_exit_code 0 (poke base mem (skern s))\<rparr>))
       \<lparr>out_installed := True\<rparr>)"
  have k: "skern ?s0 = mark_exit_code 0 (poke base mem (skern s))" by (simp add: say_def)
  have h: "hardware ?s0 = hardware (s\<lparr>out_installed := True\<rparr>)" by (simp add: hardware_def say_def)
  have st: "I (skern ?s0)" "last_exit (skern ?s0) = 0"
    unfolding k by (simp_all add: mark_exit_code_def I_exit I_poke assms(2))
  from assms(1) obtain t where t: "run_program (program p entry_va sp ?s0) ?s0 = Done () t"
    and s': "s' = say (str ''step: clear terminal writer'')
      ((say (str ''returned to kernel'') t)\<lparr>out_installed := False\<rparr>)"
    by (auto simp: native_start_def Let_def run_Done say_def)
  from run_program_done [OF t st] have r: "I (skern t)"
    "last_exit (skern t) = exit_status (program p entry_va sp ?s0)" "hardware t = hardware ?s0" by auto
  have "hardware s' = hardware (s\<lparr>out_installed := False\<rparr>)"
    using r(3) h s' by (simp add: hardware_def say_def)
  moreover have "skern s' = skern t" using s' by (simp add: say_def)
  ultimately show ?thesis using k h r by (intro exI [of _ ?s0]) simp
qed

end

lemma state_okD: "state_ok P r \<Longrightarrow> r = Done x s \<Longrightarrow> P s"
  by simp

text \<open>The stages before the program starts, when all succeed.\<close>

lemma run_stages:
  assumes "run_native_elf_with_args p img argv envp s = Done u s'"
  obtains elf lo n base mem sp entry_va s1 s2 s3 s4 s5 where
    "init_syscall_path p (say (str ''step: init syscall path begin'') (say (str ''step: enter runner'') s)) = Done () s1"
    "native_check img (say (str ''step: init syscall path done'') s1) = Done (elf, lo, n) s2"
    "native_image p img argv envp elf lo n s2 = Done (base, mem, sp) s3"
    "native_entry_point elf lo base mem s3 = Done entry_va s4"
    "ensure_region_executable p base (length mem)
       (say (str ''step: make native pages executable begin'') s4) = Done () s5"
    "native_start p base mem entry_va sp (say (str ''step: make native pages executable done'') s5) = Done () s'"
  using assms by (auto simp: run_native_elf_with_args_def Let_def case_prod_unfold run_Done)

definition fails_in :: "('s \<Rightarrow> bool) \<Rightarrow> ('e, 's, 'a) run \<Rightarrow> bool" where
  "fails_in P r \<longleftrightarrow> (\<forall>e s'. r = Fail e s' \<longrightarrow> P s')"

lemma fails_in_and_then:
  "state_ok P r \<Longrightarrow> (\<And>x s. P s \<Longrightarrow> fails_in P (f x s)) \<Longrightarrow> fails_in P (and_then r f)"
  by (cases r) (auto simp: fails_in_def)

lemma fails_in_never: "never_fails r \<Longrightarrow> fails_in P r"
  by (cases r) (simp_all add: fails_in_def)

lemma run_failed: "fails_in (loading s) (run_native_elf_with_args p img argv envp s)"
proof -
  have start: "never_fails (native_start p base mem v sp t)" for base mem v sp t
    unfolding native_start_def Let_def by (intro never_fails_and_then never_fails_program) simp
  show ?thesis
    unfolding run_native_elf_with_args_def Let_def case_prod_unfold
    by (intro fails_in_and_then fails_in_never start loading_stages) simp_all
qed

text \<open>The stages of a run that comes back.\<close>

context kernel_invariant begin

lemma run_outcome:
  assumes "I (skern s)" "mapper_ok p" "syscall_ready s \<longrightarrow> path_set p s"
    "run_native_elf_with_args p img argv envp s = Done () s'"
  shows "\<exists>base mem entry_va sp s0. entered p argv envp base mem entry_va sp s0 \<and>
    I (skern s') \<and> last_exit (skern s') = exit_status (program p entry_va sp s0) \<and>
    path_set p s' \<and> \<not> out_installed s'"
proof -
  from assms(4) obtain elf lo n base mem sp entry_va s1 s2 s3 s4 s5 where st:
    "init_syscall_path p (say (str ''step: init syscall path begin'') (say (str ''step: enter runner'') s)) = Done () s1"
    "native_check img (say (str ''step: init syscall path done'') s1) = Done (elf, lo, n) s2"
    "native_image p img argv envp elf lo n s2 = Done (base, mem, sp) s3"
    "native_entry_point elf lo base mem s3 = Done entry_va s4"
    "ensure_region_executable p base (length mem)
       (say (str ''step: make native pages executable begin'') s4) = Done () s5"
    "native_start p base mem entry_va sp (say (str ''step: make native pages executable done'') s5) = Done () s'"
    by (rule run_stages)
  have "loading s s1" by (rule state_okD [OF loading_stages(1) st(1)]) simp
  then have "loading s s2" by (intro state_okD [OF loading_stages(2) st(2)]) simp
  then have "loading s s3" by (intro state_okD [OF loading_stages(3) st(3)])
  then have "loading s s4" by (intro state_okD [OF loading_stages(4) st(4)])
  then have "loading s s5" by (intro state_okD [OF loading_stages(5) st(5)]) simp
  then have k5: "I (skern s5)" using assms(1) by (simp add: loading_def)
  have "hardware s2 = hardware s1" by (rule state_okD [OF hardware_stages(1) st(2)]) simp
  then have "hardware s3 = hardware s1" by (intro state_okD [OF hardware_stages(2) st(3)])
  then have "hardware s4 = hardware s1" by (intro state_okD [OF hardware_stages(3) st(4)])
  moreover have "path_set p s1"
    using init_path_set [OF _ st(1)] assms(3) by (simp add: path_set_def say_def)
  ultimately have p4: "path_set p s4" using path_set_hardware by blast
  note img = image_done [OF st(3) check_done [OF st(2)]]
  have small: "length mem < 2 ^ 64"
    using img check_done [OF st(2)] by (simp add: MAX_NATIVE_MEM_def NATIVE_STACK_SIZE_def)
  note ex = native_region [OF assms(2) st(5) small]
  obtain s0 where s0: "skern s0 = mark_exit_code 0 (poke base mem (skern s5))"
    "hardware s0 = hardware (s5\<lparr>out_installed := True\<rparr>)"
    "I (skern s')" "last_exit (skern s') = exit_status (program p entry_va sp s0)"
    "hardware s' = hardware (s5\<lparr>out_installed := False\<rparr>)"
    using start_done [OF st(6)] k5 by (auto simp: say_def hardware_def)
  have rd: "mem_read (mem_write m base mem) base (length mem) = mem" for m
    using small by (intro mem_read_write_same) simp
  have p5: "path_set p s5"
    by (subst ex(2)) (use p4 in \<open>simp add: path_set_def say_def\<close>)
  have "entered p argv envp base mem entry_va sp s0"
    unfolding entered_def
    using s0(1,2) ex(1) entry_done [OF st(4)] conjunct2 [OF img] p5 rd
    by (auto simp: hardware_def path_set_def mark_exit_code_def poke_def)
  moreover have "path_set p s'" "\<not> out_installed s'"
    using s0(5) p5 by (simp_all add: path_set_def hardware_def)
  ultimately show ?thesis using s0(3,4) by blast
qed

end

end
