(* ===== verification/Native_Entry.thy ===== *)
theory Native_Entry
  imports Native_Run
begin

text \<open>
  The assembly of the native runner (\<open>global_asm!\<close> of
  \<open>kernel/src/native_runner.rs\<close>): entering a program, the target of its \<open>syscall\<close>
  instruction, and the way back when it exits. The listing is data; a small machine with
  sixteen registers and the memory of the system runs it.
\<close>

section \<open>The listing\<close>

datatype reg =
  RAX | RBX | RCX | RDX | RSI | RDI | RBP | RSP | R8 | R9 | R10 | R11 | R12 | R13 | R14 | R15

datatype label = Native_enter | Native_return | Native_syscall_entry | Native_exit
datatype static = Return_rsp | Return_rip
datatype rust_fn = Fn_dispatch | Fn_mark_exit

datatype instr =
    Lab label
  | Mov_to_static static reg
  | Mov_from_static reg static
  | Lea_label reg label
  | Mov reg reg
  | Cmp reg u64
  | Je label
  | Push reg
  | Pop reg
  | Call_reg reg
  | Call_fn rust_fn
  | Ret
  | Jmp_reg reg
  | Jmp_static static

definition native_stub :: "instr list" where
  "native_stub =
     [Lab Native_enter,
      Mov_to_static Return_rsp RSP,
      Lea_label RAX Native_return,
      Mov_to_static Return_rip RAX,
      Mov RSP RSI,
      Call_reg RDI,
      Lab Native_return,
      Ret,
      Lab Native_syscall_entry,
      Cmp RAX 60,
      Je Native_exit,
      Cmp RAX 231,
      Je Native_exit,
      Push RCX, Push R11, Push RBX, Push RBP, Push R12, Push R13, Push R14, Push R15,
      Mov RBX RDI, Mov RBP RSI, Mov R12 RDX, Mov R13 R10, Mov R14 R8, Mov R15 R9,
      Mov RDI RAX, Mov RSI RBX, Mov RDX RBP, Mov RCX R12, Mov R8 R13, Mov R9 R14,
      Call_fn Fn_dispatch,
      Pop R15, Pop R14, Pop R13, Pop R12, Pop RBP, Pop RBX, Pop R11, Pop RCX,
      Jmp_reg RCX,
      Lab Native_exit,
      Call_fn Fn_mark_exit,
      Mov_from_static RSP Return_rsp,
      Jmp_static Return_rip]"

fun label_index :: "label \<Rightarrow> instr list \<Rightarrow> nat" where
  "label_index l [] = 0"
| "label_index l (i # is) = (if i = Lab l then 0 else Suc (label_index l is))"

section \<open>The machine\<close>

text \<open>Where the linker puts the listing and the statics.\<close>

record linkage =
  code_addr :: "nat \<Rightarrow> u64"
  static_addr :: "static \<Rightarrow> u64"

definition label_addr :: "linkage \<Rightarrow> label \<Rightarrow> u64" where
  "label_addr L l = code_addr L (label_index l native_stub)"

record 'p processor =
  regs :: "reg \<Rightarrow> u64"
  zflag :: bool
  pc :: nat
  sys :: "'p system"

definition set_r :: "reg \<Rightarrow> u64 \<Rightarrow> 'p processor \<Rightarrow> 'p processor" where
  "set_r r v c = c\<lparr>regs := (regs c)(r := v)\<rparr>"

definition load64 :: "u64 \<Rightarrow> 'p processor \<Rightarrow> u64" where
  "load64 a c = from_le (mem_read (umem (skern (sys c))) a 8)"

definition store64 :: "u64 \<Rightarrow> u64 \<Rightarrow> 'p processor \<Rightarrow> 'p processor" where
  "store64 a v c = c\<lparr>sys := (sys c)\<lparr>skern := poke a (to_le 8 v) (skern (sys c))\<rparr>\<rparr>"

definition push64 :: "u64 \<Rightarrow> 'p processor \<Rightarrow> 'p processor" where
  "push64 v c = (let sp = regs c RSP - 8 in store64 sp v (set_r RSP sp c))"

text \<open>
  A call of a Rust function, by the System V ABI: the arguments are in registers, the result
  in \<open>RAX\<close>; the callee keeps \<open>RBX\<close>, \<open>RBP\<close>, \<open>RSP\<close> and \<open>R12\<close> to \<open>R15\<close>, leaves what it
  likes (\<open>junk\<close>) in the other registers, and its own frame (the bytes \<open>frame\<close>) in the
  memory below the stack pointer. \<open>None\<close> is a callee that does not come back.
\<close>

record compiled =
  junk :: "reg \<Rightarrow> u64"
  frame :: bytes

definition callee_saved :: "reg set" where
  "callee_saved = {RBX, RBP, RSP, R12, R13, R14, R15}"

definition after_call :: "compiled \<Rightarrow> u64 \<Rightarrow> 'p system \<Rightarrow> 'p processor \<Rightarrow> 'p processor" where
  "after_call X v s c =
     c\<lparr>regs := (\<lambda>r. if r \<in> callee_saved then regs c r else if r = RAX then v else junk X r),
       sys := s\<lparr>skern := poke (regs c RSP - of_nat (length (frame X))) (frame X) (skern s)\<rparr>\<rparr>"

fun call_rust :: "compiled \<Rightarrow> rust_fn \<Rightarrow> 'p processor \<Rightarrow> 'p processor option" where
  "call_rust X Fn_dispatch c =
     (case native_syscall_dispatch (regs c RDI) (regs c RSI) (regs c RDX) (regs c RCX) (regs c R8)
             (regs c R9) (sys c) :: (unit, 'p system, u64) run of
        Done v s \<Rightarrow> Some (after_call X v s c)
      | _ \<Rightarrow> None)"
| "call_rust X Fn_mark_exit c =
     Some (after_call X (junk X RAX) (native_mark_exit (regs c RDI) (sys c)) c)"

text \<open>One instruction: the next one of the listing, or control leaves it for an address.\<close>

datatype 'p flow = Next "'p processor" | Leaves u64 "'p processor" | Lost

fun asm_step :: "linkage \<Rightarrow> compiled \<Rightarrow> instr \<Rightarrow> 'p processor \<Rightarrow> 'p flow" where
  "asm_step L X (Lab l) c = Next c"
| "asm_step L X (Mov_to_static s r) c = Next (store64 (static_addr L s) (regs c r) c)"
| "asm_step L X (Mov_from_static r s) c = Next (set_r r (load64 (static_addr L s) c) c)"
| "asm_step L X (Lea_label r l) c = Next (set_r r (label_addr L l) c)"
| "asm_step L X (Mov r q) c = Next (set_r r (regs c q) c)"
| "asm_step L X (Cmp r v) c = Next (c\<lparr>zflag := regs c r = v\<rparr>)"
| "asm_step L X (Je l) c = Next (if zflag c then c\<lparr>pc := label_index l native_stub\<rparr> else c)"
| "asm_step L X (Push r) c = Next (push64 (regs c r) c)"
| "asm_step L X (Pop r) c =
     Next (set_r r (load64 (regs c RSP) c) (set_r RSP (regs c RSP + 8) c))"
| "asm_step L X (Call_reg r) c = Leaves (regs c r) (push64 (code_addr L (pc c)) c)"
| "asm_step L X (Call_fn f) c = (case call_rust X f c of Some c' \<Rightarrow> Next c' | None \<Rightarrow> Lost)"
| "asm_step L X Ret c = Leaves (load64 (regs c RSP) c) (set_r RSP (regs c RSP + 8) c)"
| "asm_step L X (Jmp_reg r) c = Leaves (regs c r) c"
| "asm_step L X (Jmp_static s) c = Leaves (load64 (static_addr L s) c) c"

text \<open>At most \<open>n\<close> instructions: where control leaves the listing.\<close>

fun asm_run :: "linkage \<Rightarrow> compiled \<Rightarrow> nat \<Rightarrow> 'p processor \<Rightarrow> (u64 \<times> 'p processor) option" where
  "asm_run L X 0 c = None"
| "asm_run L X (Suc n) c =
     (if pc c < length native_stub then
        (case asm_step L X (native_stub ! pc c) (c\<lparr>pc := Suc (pc c)\<rparr>) of
           Next c' \<Rightarrow> asm_run L X n c'
         | Leaves a c' \<Rightarrow> Some (a, c')
         | Lost \<Rightarrow> None)
      else None)"

definition at_label :: "label \<Rightarrow> 'p processor \<Rightarrow> 'p processor" where
  "at_label l c = c\<lparr>pc := label_index l native_stub\<rparr>"

section \<open>Words in memory\<close>

lemma mem_read_write_apart:
  assumes "8 \<le> unat (a - b)" "8 \<le> unat (b - a)" "length bs = 8"
  shows "mem_read (mem_write m a bs) b 8 = mem_read m b 8"
proof -
  have "\<not> unat (b + of_nat i - a) < 8" if i: "i < 8" for i
  proof (cases "unat (b - a) + i < usize_bound")
    case True
    have "unat (of_nat i :: u64) = i" using i by (intro unat_of_nat_u64) simp
    with True have "unat (b - a + of_nat i) = unat (b - a) + i"
      by (simp add: unat_plus_if')
    moreover have "b + of_nat i - a = b - a + of_nat i" by simp
    ultimately show ?thesis using assms(2) by (simp only: not_less)
  next
    case False
    have "unat (a - b) = usize_bound - unat (b - a)"
      using unat_neg_u64 [of "b - a"] assms(2) by simp
    with False assms(1) i show ?thesis by linarith
  qed
  then show ?thesis using assms(3) by (auto simp: mem_read_def mem_write_def)
qed

interpretation flat: word_store "\<lambda>m a. Inr (from_le (mem_read m a 8)) :: unit + u64"
  "\<lambda>m a v. Inr (mem_write m a (to_le 8 v))"
proof unfold_locales
  fix m m' :: memory and a v :: u64
  assume "Inr (mem_write m a (to_le 8 v)) = (Inr m' :: unit + memory)"
  then show "Inr (from_le (mem_read m' a 8)) = (Inr v :: unit + u64)"
    using mem_read_write_same [of "to_le 8 v" m a] by (auto simp: from_le_to_le_64)
next
  fix m m' :: memory and a b v :: u64
  assume "Inr (mem_write m a (to_le 8 v)) = (Inr m' :: unit + memory)" "8 \<le> unat (a - b)" "8 \<le> unat (b - a)"
  then show "Inr (from_le (mem_read m' b 8)) = (Inr (from_le (mem_read m b 8)) :: unit + u64)"
    by (auto simp: mem_read_write_apart)
qed

section \<open>Running the listing\<close>

lemma stub_code:
  "length native_stub = 47"
  "native_stub ! 0 = Lab Native_enter" "native_stub ! Suc 0 = Mov_to_static Return_rsp RSP"
  "native_stub ! 2 = Lea_label RAX Native_return"
  "native_stub ! 3 = Mov_to_static Return_rip RAX" "native_stub ! 4 = Mov RSP RSI"
  "native_stub ! 5 = Call_reg RDI" "native_stub ! 6 = Lab Native_return" "native_stub ! 7 = Ret"
  "native_stub ! 8 = Lab Native_syscall_entry" "native_stub ! 9 = Cmp RAX 60"
  "native_stub ! 10 = Je Native_exit" "native_stub ! 11 = Cmp RAX 231"
  "native_stub ! 12 = Je Native_exit" "native_stub ! 13 = Push RCX"
  "native_stub ! 14 = Push R11" "native_stub ! 15 = Push RBX" "native_stub ! 16 = Push RBP"
  "native_stub ! 17 = Push R12" "native_stub ! 18 = Push R13" "native_stub ! 19 = Push R14"
  "native_stub ! 20 = Push R15" "native_stub ! 21 = Mov RBX RDI"
  "native_stub ! 22 = Mov RBP RSI" "native_stub ! 23 = Mov R12 RDX"
  "native_stub ! 24 = Mov R13 R10" "native_stub ! 25 = Mov R14 R8"
  "native_stub ! 26 = Mov R15 R9" "native_stub ! 27 = Mov RDI RAX"
  "native_stub ! 28 = Mov RSI RBX" "native_stub ! 29 = Mov RDX RBP"
  "native_stub ! 30 = Mov RCX R12" "native_stub ! 31 = Mov R8 R13"
  "native_stub ! 32 = Mov R9 R14" "native_stub ! 33 = Call_fn Fn_dispatch"
  "native_stub ! 34 = Pop R15" "native_stub ! 35 = Pop R14" "native_stub ! 36 = Pop R13"
  "native_stub ! 37 = Pop R12" "native_stub ! 38 = Pop RBP" "native_stub ! 39 = Pop RBX"
  "native_stub ! 40 = Pop R11" "native_stub ! 41 = Pop RCX" "native_stub ! 42 = Jmp_reg RCX"
  "native_stub ! 43 = Lab Native_exit" "native_stub ! 44 = Call_fn Fn_mark_exit"
  "native_stub ! 45 = Mov_from_static RSP Return_rsp" "native_stub ! 46 = Jmp_static Return_rip"
  by (simp_all add: native_stub_def)

lemma stub_labels:
  "label_index Native_enter native_stub = 0" "label_index Native_return native_stub = 6"
  "label_index Native_syscall_entry native_stub = 8" "label_index Native_exit native_stub = 43"
  by (simp_all add: native_stub_def)

lemma asm_run_numeral:
  "asm_run L X (numeral n) c =
     (if pc c < length native_stub then
        (case asm_step L X (native_stub ! pc c) (c\<lparr>pc := Suc (pc c)\<rparr>) of
           Next c' \<Rightarrow> asm_run L X (pred_numeral n) c'
         | Leaves a c' \<Rightarrow> Some (a, c')
         | Lost \<Rightarrow> None)
      else None)"
  by (simp add: numeral_eq_Suc)

lemmas asm_eval = asm_run_numeral stub_code stub_labels at_label_def set_r_def push64_def store64_def
  load64_def label_addr_def

declare asm_run.simps [simp del]

text \<open>The registers saved by the entry, in the order of the pushes, and the processor then.\<close>

definition saved_regs :: "reg list" where
  "saved_regs = [RCX, R11, RBX, RBP, R12, R13, R14, R15]"

definition pushed :: "'p processor \<Rightarrow> 'p processor" where
  "pushed c = fold (\<lambda>r. push64 (regs c r)) saved_regs c"

definition before_call :: "'p processor \<Rightarrow> 'p processor" where
  "before_call c = c\<lparr>zflag := False, sys := sys (pushed c),
     regs := (regs c)(RSP := regs c RSP - 64,
       RBX := regs c RDI, RBP := regs c RSI, R12 := regs c RDX, R13 := regs c R10, R14 := regs c R8,
       R15 := regs c R9, RDI := regs c RAX, RSI := regs c RDI, RDX := regs c RSI, RCX := regs c RDX,
       R8 := regs c R10, R9 := regs c R8), pc := 34\<rparr>"

lemma run_to_call:
  assumes "regs c RAX \<noteq> 60" "regs c RAX \<noteq> 231"
  shows "asm_run L X 35 (at_label Native_syscall_entry c) =
    (case call_rust X Fn_dispatch (before_call c) of Some d \<Rightarrow> asm_run L X 9 d | None \<Rightarrow> None)"
proof -
  have "asm_run L X 35 (at_label Native_syscall_entry c) =
      (case (case call_rust X Fn_dispatch (before_call c) of Some d \<Rightarrow> Next d | None \<Rightarrow> Lost) of
         Next d \<Rightarrow> asm_run L X 9 d | Leaves a d \<Rightarrow> Some (a, d) | Lost \<Rightarrow> None)"
    using assms
    by (simp add: asm_eval before_call_def pushed_def saved_regs_def Let_def fun_upd_twist
        split: option.split del: call_rust.simps)
  then show ?thesis by (cases "call_rust X Fn_dispatch (before_call c)") simp_all
qed

definition popped :: "u64 \<Rightarrow> 'p processor \<Rightarrow> 'p processor" where
  "popped sp d = d\<lparr>regs := (regs d)(R15 := load64 sp d, R14 := load64 (sp + 8) d,
     R13 := load64 (sp + 16) d, R12 := load64 (sp + 24) d, RBP := load64 (sp + 32) d,
     RBX := load64 (sp + 40) d, R11 := load64 (sp + 48) d, RCX := load64 (sp + 56) d,
     RSP := sp + 64), pc := 43\<rparr>"

lemma run_from_call:
  assumes "pc d = 34"
  shows "asm_run L X 9 d = Some (load64 (regs d RSP + 56) d, popped (regs d RSP) d)"
  using assms by (simp add: asm_eval asm_run.simps(2) [of _ _ 0] popped_def fun_upd_twist algebra_simps)

lemma load_store_same: "from_le (mem_read (mem_write m a (to_le 8 (v :: u64))) a 8) = v"
  using flat.rd_wr_same [of m a v] by simp

lemma load_store_other:
  fixes v :: u64
  shows "8 \<le> unat (a - b) \<Longrightarrow> 8 \<le> unat (b - a) \<Longrightarrow>
     (from_le (mem_read (mem_write m a (to_le 8 v)) b 8) :: u64) = from_le (mem_read m b 8)"
  using flat.rd_wr_other [of m a v] by simp

lemma pushed_mem:
  "umem (skern (sys (pushed c))) =
     (let sp = regs c RSP; w = (\<lambda>d r m. mem_write m (sp - d) (to_le 8 (regs c r))) in
      w 64 R15 (w 56 R14 (w 48 R13 (w 40 R12 (w 32 RBP (w 24 RBX (w 16 R11 (w 8 RCX
        (umem (skern (sys c)))))))))))"
  by (simp add: pushed_def saved_regs_def push64_def store64_def set_r_def poke_def Let_def)

lemma pushed_words:
  "from_le (mem_read (umem (skern (sys (pushed c)))) (regs c RSP - 64) 8) = regs c R15"
  "from_le (mem_read (umem (skern (sys (pushed c)))) (regs c RSP - 56) 8) = regs c R14"
  "from_le (mem_read (umem (skern (sys (pushed c)))) (regs c RSP - 48) 8) = regs c R13"
  "from_le (mem_read (umem (skern (sys (pushed c)))) (regs c RSP - 40) 8) = regs c R12"
  "from_le (mem_read (umem (skern (sys (pushed c)))) (regs c RSP - 32) 8) = regs c RBP"
  "from_le (mem_read (umem (skern (sys (pushed c)))) (regs c RSP - 24) 8) = regs c RBX"
  "from_le (mem_read (umem (skern (sys (pushed c)))) (regs c RSP - 16) 8) = regs c R11"
  "from_le (mem_read (umem (skern (sys (pushed c)))) (regs c RSP - 8) 8) = regs c RCX"
  unfolding pushed_mem Let_def by (simp_all add: load_store_same load_store_other)

text \<open>The saved words, as the pops find them: the callee kept the 64 bytes from its stack
  pointer on.\<close>

lemma load_saved:
  fixes c :: "'p processor"
  assumes "\<forall>a. unat (a - (regs c RSP - 64)) < 64 \<longrightarrow>
      umem (skern (sys d)) a = umem (skern (sys (pushed c))) a" "k \<le> 56"
  shows "load64 (regs c RSP - 64 + of_nat k) d =
    from_le (mem_read (umem (skern (sys (pushed c)))) (regs c RSP - 64 + of_nat k) 8)"
proof -
  have "unat (of_nat k + of_nat i :: u64) < 64" if "i < 8" for i
  proof -
    have "unat (of_nat (k + i) :: u64) = k + i" using that assms(2) by (intro unat_of_nat_u64) simp
    then show ?thesis using that assms(2) by simp
  qed
  then show ?thesis using assms(1) by (auto simp: load64_def mem_read_def algebra_simps intro!: arg_cong [of _ _ from_le])
qed

text \<open>The callee's frame lies below the saved words.\<close>

lemma frame_below:
  assumes "length f \<le> 2 ^ 64 - 64" "unat (a - sp) < 64"
  shows "mem_write m (sp - of_nat (length f)) f a = m a"
proof -
  have "unat (of_nat (length f) :: u64) = length f" using assms(1) by (intro unat_of_nat_u64) simp
  then have "unat (a - sp + of_nat (length f)) = unat (a - sp) + length f"
    using assms by (simp add: unat_plus_if')
  moreover have "a - (sp - of_nat (length f)) = a - sp + of_nat (length f)" by simp
  ultimately have "\<not> unat (a - (sp - of_nat (length f))) < length f" by (simp only:)
  then show ?thesis by (simp add: mem_write_def)
qed

lemma pushed_regs: "regs (before_call c) = (regs c)(RSP := regs c RSP - 64,
       RBX := regs c RDI, RBP := regs c RSI, R12 := regs c RDX, R13 := regs c R10, R14 := regs c R8,
       R15 := regs c R9, RDI := regs c RAX, RSI := regs c RDI, RDX := regs c RSI, RCX := regs c RDX,
       R8 := regs c R10, R9 := regs c R8)"
  by (simp add: before_call_def)

text \<open>C38: the system call entry is transparent to the program where it can be: for every call
  but \<open>exit\<close>, whatever the compiled handler leaves in the registers it may use and in its
  frame, control goes back to the address in \<open>RCX\<close> with the handler's result in \<open>RAX\<close> and
  the callee-saved registers, the stack pointer, \<open>RCX\<close> and \<open>R11\<close> as they were, provided
  the handler leaves the 64 bytes below the program's stack pointer alone. The argument
  registers come back with whatever the handler left in them.\<close>

theorem native_entry_transparent:
  assumes "regs c RAX \<noteq> 60" "regs c RAX \<noteq> 231"
    "native_syscall_dispatch (regs c RAX) (regs c RDI) (regs c RSI) (regs c RDX) (regs c R10)
       (regs c R8) (sys (pushed c)) = (Done v s :: (unit, 'p system, u64) run)"
    "\<forall>a. unat (a - (regs c RSP - 64)) < 64 \<longrightarrow> umem (skern s) a = umem (skern (sys (pushed c))) a"
    "length (frame X) \<le> 2 ^ 64 - 64"
  shows "\<exists>c'. asm_run L X 35 (at_label Native_syscall_entry c) = Some (regs c RCX, c') \<and>
    (\<forall>r \<in> {RBX, RBP, RSP, R12, R13, R14, R15, RCX, R11}. regs c' r = regs c r) \<and>
    regs c' RAX = v \<and> (\<forall>r \<in> {RDI, RSI, RDX, R8, R9, R10}. regs c' r = junk X r) \<and>
    sys c' = s\<lparr>skern := poke (regs c RSP - 64 - of_nat (length (frame X))) (frame X) (skern s)\<rparr>"
proof -
  let ?b = "before_call c" and ?sp = "regs c RSP - 64"
  define d where "d = after_call X v s ?b"
  have call: "call_rust X Fn_dispatch ?b = Some d"
    using assms(3) by (simp add: pushed_regs) (simp add: before_call_def d_def)
  have sp: "regs d RSP = ?sp" by (simp add: d_def after_call_def callee_saved_def pushed_regs)
  have sysd: "sys d = s\<lparr>skern := poke (?sp - of_nat (length (frame X))) (frame X) (skern s)\<rparr>"
    by (simp add: d_def after_call_def pushed_regs)
  have mem: "\<forall>a. unat (a - ?sp) < 64 \<longrightarrow> umem (skern (sys d)) a = umem (skern (sys (pushed c))) a"
    using assms(4) frame_below [OF assms(5)] by (simp add: sysd poke_def)
  note w = load_saved [OF mem]
  have words: "load64 ?sp d = regs c R15" "load64 (?sp + 8) d = regs c R14"
    "load64 (?sp + 16) d = regs c R13" "load64 (?sp + 24) d = regs c R12"
    "load64 (?sp + 32) d = regs c RBP" "load64 (?sp + 40) d = regs c RBX"
    "load64 (?sp + 48) d = regs c R11" "load64 (?sp + 56) d = regs c RCX"
    using w [of 0] w [of 8] w [of 16] w [of 24] w [of 32] w [of 40] w [of 48] w [of 56]
    by (simp_all add: pushed_words)
  have pc: "pc d = 34" by (simp add: d_def after_call_def before_call_def)
  have "asm_run L X 35 (at_label Native_syscall_entry c) = asm_run L X 9 d"
    unfolding run_to_call [OF assms(1,2)] call by simp
  also have "\<dots> = Some (regs c RCX, popped ?sp d)"
    unfolding run_from_call [OF pc] sp words(8) ..
  finally have run: "asm_run L X 35 (at_label Native_syscall_entry c) = Some (regs c RCX, popped ?sp d)" .
  have rp: "regs (popped ?sp d) = (regs d)(R15 := regs c R15, R14 := regs c R14, R13 := regs c R13,
      R12 := regs c R12, RBP := regs c RBP, RBX := regs c RBX, R11 := regs c R11, RCX := regs c RCX,
      RSP := regs c RSP)"
    unfolding popped_def words by simp
  have "sys (popped ?sp d) = sys d" by (simp add: popped_def)
  moreover have "regs d RAX = v" "\<forall>r \<in> {RDI, RSI, RDX, R8, R9, R10}. regs d r = junk X r"
    by (simp_all add: d_def after_call_def callee_saved_def)
  ultimately show ?thesis
    using run sysd by (intro exI [of _ "popped ?sp d"]) (simp add: rp)
qed

definition demo_processor :: "u64 \<Rightarrow> u64 \<Rightarrow> (u64 \<Rightarrow> u64 option) processor" where
  "demo_processor nr arg =
     \<lparr>regs = (\<lambda>r. if r = RAX then nr else if r = RDI then arg else if r = RSP then 0x300000
                  else if r = RCX then 0x201234 else 7),
      zflag = False, pc = 0, sys = demo_system\<rparr>"

definition demo_compiled :: compiled where
  "demo_compiled = \<lparr>junk = (\<lambda>r. 0xDEAD), frame = [1, 2, 3, 4, 5, 6, 7, 8]\<rparr>"

definition demo_link :: linkage where
  "demo_link = \<lparr>code_addr = (\<lambda>i. 0x100000 + of_nat i * 4),
     static_addr = (\<lambda>st. if st = Return_rsp then 0x110000 else 0x110008)\<rparr>"

theorem native_entry_transparent_witness:
  "\<exists>c'. asm_run demo_link demo_compiled 35 (at_label Native_syscall_entry (demo_processor 39 0)) =
      Some (0x201234, c') \<and> regs c' RAX = 3 \<and> regs c' RBX = 7 \<and> regs c' RSP = 0x300000 \<and>
      regs c' RDI = 0xDEAD"
proof -
  let ?c = "demo_processor 39 0"
  have r: "regs ?c RAX = 39" "regs ?c RSP = 0x300000" "regs ?c RCX = 0x201234" "regs ?c RBX = 7"
    by (simp_all add: demo_processor_def)
  have pid: "pid (skern (sys (pushed ?c))) = 3"
    by (simp add: pushed_def saved_regs_def push64_def store64_def set_r_def poke_def Let_def
        demo_processor_def demo_system_def boot_kernel_def)
  have "native_syscall_dispatch 39 a0 a1 a2 a3 a4 s = (Done (ucast (pid (skern s))) s :: (unit, _, u64) run)"
    for a0 a1 a2 a3 a4 and s :: "(u64 \<Rightarrow> u64 option) system"
    by (simp add: native_syscall_dispatch_def dispatch_def sys_nrs getpid_def)
  then have "native_syscall_dispatch (regs ?c RAX) (regs ?c RDI) (regs ?c RSI) (regs ?c RDX) (regs ?c R10)
      (regs ?c R8) (sys (pushed ?c)) = (Done 3 (sys (pushed ?c)) :: (unit, _, u64) run)"
    unfolding r by (simp add: pid)
  from native_entry_transparent [OF _ _ this, of demo_compiled demo_link] show ?thesis
    by (auto simp: r demo_compiled_def)
qed

section \<open>Entering and leaving a program\<close>

definition apart8 :: "u64 \<Rightarrow> u64 \<Rightarrow> bool" where
  "apart8 a b \<longleftrightarrow> 8 \<le> unat (a - b) \<and> 8 \<le> unat (b - a)"

text \<open>The word at \<open>a\<close> is not touched by a frame below the stack pointer \<open>sp\<close>.\<close>

definition off_frame :: "bytes \<Rightarrow> u64 \<Rightarrow> u64 \<Rightarrow> bool" where
  "off_frame f sp a \<longleftrightarrow> (\<forall>i < 8. length f \<le> unat (a + of_nat i - (sp - of_nat (length f))))"

lemma load_off_frame:
  "off_frame f sp a \<Longrightarrow> mem_read (mem_write m (sp - of_nat (length f)) f) a 8 = mem_read m a 8"
  by (auto simp: off_frame_def mem_read_def mem_write_def)

definition link_apart :: "linkage \<Rightarrow> u64 \<Rightarrow> bool" where
  "link_apart L user_sp \<longleftrightarrow>
     apart8 (static_addr L Return_rsp) (static_addr L Return_rip) \<and>
     apart8 (static_addr L Return_rsp) (user_sp - 8) \<and>
     apart8 (static_addr L Return_rip) (user_sp - 8)"

lemma enter_runs:
  assumes "link_apart L (regs c RSI)"
  shows "\<exists>c1. asm_run L X 6 (at_label Native_enter c) = Some (regs c RDI, c1) \<and>
    regs c1 RSP = regs c RSI - 8 \<and> load64 (regs c RSI - 8) c1 = label_addr L Native_return \<and>
    load64 (static_addr L Return_rsp) c1 = regs c RSP \<and>
    load64 (static_addr L Return_rip) c1 = label_addr L Native_return \<and>
    (\<forall>a. apart8 (static_addr L Return_rsp) a \<longrightarrow> apart8 (static_addr L Return_rip) a \<longrightarrow>
       apart8 (regs c RSI - 8) a \<longrightarrow> load64 a c1 = load64 a c)"
proof -
  have ap: "apart8 a b \<Longrightarrow> (from_le (mem_read (mem_write m a (to_le 8 (v :: u64))) b 8) :: u64) =
      from_le (mem_read m b 8)"
    "apart8 b a \<Longrightarrow> (from_le (mem_read (mem_write m a (to_le 8 (v :: u64))) b 8) :: u64) =
      from_le (mem_read m b 8)" for a b m v
    using load_store_other [of a b m v] by (simp_all add: apart8_def)
  show ?thesis
    using assms
    by (simp add: asm_eval asm_run.simps(2) [of _ _ 0] numeral_2_eq_2 [symmetric] Let_def poke_def
        load_store_same link_apart_def ap)
qed

lemma exit_runs:
  assumes "regs c RAX = 60 \<or> regs c RAX = 231"
    "\<forall>st. off_frame (frame X) (regs c RSP) (static_addr L st)"
  shows "\<exists>c'. asm_run L X 9 (at_label Native_syscall_entry c) =
      Some (load64 (static_addr L Return_rip) c, c') \<and>
    regs c' RSP = load64 (static_addr L Return_rsp) c \<and>
    (\<forall>r \<in> {RBX, RBP, R12, R13, R14, R15}. regs c' r = regs c r) \<and>
    sys c' = (native_mark_exit (regs c RDI) (sys c))
      \<lparr>skern := poke (regs c RSP - of_nat (length (frame X))) (frame X)
         (skern (native_mark_exit (regs c RDI) (sys c)))\<rparr>"
proof -
  have ld: "mem_read (mem_write m (regs c RSP - of_nat (length (frame X))) (frame X)) (static_addr L st) 8 =
      mem_read m (static_addr L st) 8" for m st
    using assms(2) by (simp add: load_off_frame)
  consider "regs c RAX = 60" | "regs c RAX = 231" "regs c RAX \<noteq> 60" using assms(1) by auto
  then show ?thesis
    by cases (simp_all add: asm_eval asm_run.simps(2) [of _ _ 0] after_call_def callee_saved_def
        native_mark_exit_def mark_exit_code_def poke_def ld)
qed

lemma return_runs:
  "\<exists>c'. asm_run L X 2 (at_label Native_return c) = Some (load64 (regs c RSP) c, c') \<and>
     regs c' = (regs c)(RSP := regs c RSP + 8) \<and> sys c' = sys c"
  by (simp add: asm_eval asm_run.simps(2) [of _ _ 0])

text \<open>C39: a program that exits comes back to the kernel. Entering jumps to the entry point on
  the program's stack; whatever the program does after that, if it spares the two return
  statics and the return address on the kernel's stack, \<open>exit\<close> or \<open>exit_group\<close> from any
  depth records its code, restores the kernel's stack pointer and returns to the caller of
  \<open>leonos3_native_enter\<close>. The caller's callee-saved registers are not restored: they hold
  what the program left in them.\<close>

theorem native_exit_unwinds:
  assumes "link_apart L (regs c RSI)" "asm_run L X 6 (at_label Native_enter c) = Some (e, c1)"
    "regs c2 RAX = 60 \<or> regs c2 RAX = 231"
    "\<forall>st. load64 (static_addr L st) c2 = load64 (static_addr L st) c1"
    "load64 (regs c RSP) c2 = load64 (regs c RSP) c"
    "\<forall>st. off_frame (frame X) (regs c2 RSP) (static_addr L st)"
    "off_frame (frame X) (regs c2 RSP) (regs c RSP)"
  shows "e = regs c RDI \<and> regs c1 RSP = regs c RSI - 8 \<and>
    (\<exists>c3 c4. asm_run L X 9 (at_label Native_syscall_entry c2) = Some (label_addr L Native_return, c3) \<and>
       asm_run L X 2 (at_label Native_return c3) = Some (load64 (regs c RSP) c, c4) \<and>
       regs c4 RSP = regs c RSP + 8 \<and> last_exit (skern (sys c4)) = ucast (regs c2 RDI) \<and>
       (\<forall>r \<in> {RBX, RBP, R12, R13, R14, R15}. regs c4 r = regs c2 r))"
proof -
  from enter_runs [OF assms(1), of X] assms(2) have en: "e = regs c RDI" "regs c1 RSP = regs c RSI - 8"
    "load64 (static_addr L Return_rsp) c1 = regs c RSP"
    "load64 (static_addr L Return_rip) c1 = label_addr L Native_return" by auto
  obtain c3 where c3: "asm_run L X 9 (at_label Native_syscall_entry c2) = Some (label_addr L Native_return, c3)"
    "regs c3 RSP = regs c RSP" "\<forall>r \<in> {RBX, RBP, R12, R13, R14, R15}. regs c3 r = regs c2 r"
    "sys c3 = (native_mark_exit (regs c2 RDI) (sys c2))
      \<lparr>skern := poke (regs c2 RSP - of_nat (length (frame X))) (frame X)
         (skern (native_mark_exit (regs c2 RDI) (sys c2)))\<rparr>"
    using exit_runs [OF assms(3,6)] assms(4) en(3,4) by auto
  have "load64 (regs c RSP) c3 = load64 (regs c RSP) c2"
    using load_off_frame [OF assms(7)]
    by (simp add: load64_def c3(4) poke_def native_mark_exit_def mark_exit_code_def)
  with assms(5) have ra: "load64 (regs c RSP) c3 = load64 (regs c RSP) c" by simp
  have code: "last_exit (skern (sys c3)) = ucast (regs c2 RDI)"
    by (simp add: c3(4) poke_def native_mark_exit_def mark_exit_code_def)
  show ?thesis
    using return_runs [of L X c3] en(1,2) c3(1-3) code ra by auto
qed

text \<open>A program that returns from its entry point instead arrives at \<open>Native_return\<close> with
  its own stack, where the first word is \<open>argc\<close>: the \<open>ret\<close> there jumps to that number.\<close>

lemma load_image:
  assumes "mem_read (umem (skern (sys c))) base (length mem) = mem" "read_u64 base mem a = Inr v"
  shows "load64 a c = v"
proof -
  from assms(2) obtain i where i: "span_index base mem a 8 = Inr i" "v = from_le (sub_slice i 8 mem)"
    by (cases "span_index base mem a 8") (auto simp: read_u64_def)
  then have a: "base \<le> a" "i = unat (a - base)" "i + 8 \<le> length mem" by (simp_all add: span_index_iff)
  have "sub_slice i 8 (mem_read (umem (skern (sys c))) base (length mem)) = mem_read (umem (skern (sys c))) a 8"
    using a(3) by (intro nth_equalityI) (simp_all add: nth_sub_slice mem_read_def a(2) algebra_simps)
  then show ?thesis using i(2) assms(1) by (simp add: load64_def)
qed

lemma return_jumps_to_argc:
  assumes "mem_read (umem (skern (sys c))) base (length mem) = mem"
    "stack_image base mem (regs c RSP) aps eps argv envp"
  shows "\<exists>c'. asm_run L X 2 (at_label Native_return c) = Some (of_nat (length argv), c')"
proof -
  have w: "length (stack_words aps eps) > 0" "stack_words aps eps ! 0 = of_nat (length argv)"
    using assms(2) by (simp_all add: stack_words_def stack_image_def)
  then have "read_u64 base mem (regs c RSP) = Inr (of_nat (length argv))"
    using assms(2) by (auto simp: stack_image_def dest!: spec [of _ 0])
  from load_image [OF assms(1) this] show ?thesis using return_runs [of L X c] by auto
qed

text \<open>A kernel at \<open>leonos3_native_enter\<close>, and the program later, at \<open>exit(7)\<close>, with the
  memory that entering left.\<close>

definition demo_enter :: "(u64 \<Rightarrow> u64 option) processor" where
  "demo_enter = (demo_processor 0 0x201000)\<lparr>regs := (\<lambda>r. if r = RDI then 0x201000
     else if r = RSI then 0x2FFF00 else if r = RSP then 0x120000 else 1)\<rparr>"

definition demo_exit :: "(u64 \<Rightarrow> u64 option) processor" where
  "demo_exit = (demo_processor 60 7)\<lparr>sys :=
     sys (snd (the (asm_run demo_link demo_compiled 6 (at_label Native_enter demo_enter))))\<rparr>"

lemma off_frame_eval:
  "off_frame f sp a \<longleftrightarrow>
     list_all (\<lambda>i. length f \<le> unat (a + i - (sp - of_nat (length f)))) [0, 1, 2, 3, 4, 5, 6, 7]"
proof -
  have "(\<forall>i < 8. P (of_nat i)) \<longleftrightarrow> list_all P [0, 1, 2, 3, 4, 5, 6, 7]" for P :: "u64 \<Rightarrow> bool"
    by (simp add: numeral_eq_Suc All_less_Suc conj_ac)
  then show ?thesis by (simp only: off_frame_def)
qed

theorem native_exit_unwinds_witness:
  "\<exists>c3 c4. asm_run demo_link demo_compiled 9 (at_label Native_syscall_entry demo_exit) =
       Some (label_addr demo_link Native_return, c3) \<and>
     asm_run demo_link demo_compiled 2 (at_label Native_return c3) =
       Some (load64 0x120000 demo_enter, c4) \<and>
     regs c4 RSP = 0x120008 \<and> last_exit (skern (sys c4)) = 7 \<and> regs c4 RBX = 7"
proof -
  have apart: "link_apart demo_link (regs demo_enter RSI)"
    by (simp add: link_apart_def apart8_def demo_link_def demo_enter_def)
  obtain c1 where c1: "asm_run demo_link demo_compiled 6 (at_label Native_enter demo_enter) = Some (0x201000, c1)"
    using enter_runs [OF apart, of demo_compiled] by (auto simp: demo_enter_def)
  have sp: "regs demo_enter RSP = 0x120000" by (simp add: demo_enter_def)
  have st: "static_addr demo_link Return_rsp = 0x110000" "static_addr demo_link Return_rip = 0x110008"
    by (simp_all add: demo_link_def)
  have s2: "sys demo_exit = sys c1" by (simp add: demo_exit_def c1)
  have r2: "regs demo_exit RAX = 60" "regs demo_exit RSP = 0x300000" "regs demo_exit RDI = 7"
    "regs demo_exit RBX = 7"
    by (simp_all add: demo_exit_def demo_processor_def)
  have si: "regs demo_enter RSI = 0x2FFF00" by (simp add: demo_enter_def)
  have "load64 0x120000 c1 = load64 0x120000 demo_enter"
    using enter_runs [OF apart, of demo_compiled] c1 by (auto simp: si st apart8_def)
  then have ra: "load64 (regs demo_enter RSP) demo_exit = load64 (regs demo_enter RSP) demo_enter"
    by (simp add: load64_def s2 sp)
  have sts: "\<forall>t. load64 (static_addr demo_link t) demo_exit = load64 (static_addr demo_link t) c1"
    by (simp add: load64_def s2)
  have off: "off_frame (frame demo_compiled) 0x300000 a" if "a \<in> {0x110000, 0x110008, 0x120000}" for a
    using that by (auto simp: off_frame_eval demo_compiled_def)
  have fr: "\<forall>t. off_frame (frame demo_compiled) (regs demo_exit RSP) (static_addr demo_link t)"
    by (intro allI, case_tac t) (simp_all add: off r2 st)
  have fr2: "off_frame (frame demo_compiled) (regs demo_exit RSP) (regs demo_enter RSP)"
    by (simp add: off r2 sp)
  from native_exit_unwinds [OF apart c1 _ sts ra fr fr2] r2 show ?thesis by (auto simp: sp)
qed

end
