(* ===== verification/Commands.thy ===== *)
theory Commands
  imports Native_Run Serial Keyboard Display
begin

text \<open>
  The kernel's commands and its start (\<open>kernel/src/main.rs\<close>): what the shell hands to
  \<open>handle_custom_command\<close>, over the whole state of the system, and \<open>kernel_main\<close> from
  the boot information to the shell loop.
\<close>

section \<open>What the commands print\<close>

fun debug_native_error :: "NativeError \<Rightarrow> bytes" where
  "debug_native_error (NativeParse e) = str ''Parse('' @ debug_elf_error e @ str '')''"
| "debug_native_error NativeNoLoadSegment = str ''NoLoadSegment''"
| "debug_native_error NativeAddressOutOfRange = str ''AddressOutOfRange''"
| "debug_native_error (FixedVaddrUnsupported v t) =
     str ''FixedVaddrUnsupported { min_vaddr: '' @ dec (unat v) @ str '', e_type: '' @ dec (unat t) @ str '' }''"
| "debug_native_error PagingUnavailable = str ''PagingUnavailable''"
| "debug_native_error (PageNotMapped a) = str ''PageNotMapped { addr: '' @ dec (unat a) @ str '' }''"
| "debug_native_error (PageFlagUpdate a) = str ''PageFlagUpdate { addr: '' @ dec (unat a) @ str '' }''"
| "debug_native_error (NativeComplexElf e n m) =
     str ''UnsupportedComplexElf { entry: '' @ dec (unat e) @ str '', segments: '' @ dec n @
     str '', memory_size: '' @ dec m @ str '' }''"

definition supported_syscalls_hint :: bytes where
  "supported_syscalls_hint = str ''read, write, close, dup/dup2, brk, mmap, mprotect, munmap, rt_sigaction, rt_sigprocmask, ioctl, getpid/gettid, exit/exit_group, wait4(min), arch_prctl, futex, clock_gettime/gettimeofday, uname, uid/gid, getcwd/chdir, access/faccessat, readlink/readlinkat, openat, fstat/newfstatat, lseek, getdents64, getrandom, prlimit64, set_robust_list''"

text \<open>A line on the terminal (\<open>write!(terminal, ...)\<close>).\<close>

definition put_line :: "bytes \<Rightarrow> 'p system \<Rightarrow> 'p system" where
  "put_line text s = process (text @ [0x0A]) s"

definition mount :: "bytes \<Rightarrow> 'p system \<Rightarrow> 'p system" where
  "mount img s = s\<lparr>skern := set_rootfs img (skern s)\<rparr>"

definition ramdisk_bytes :: "'p system \<Rightarrow> bytes option" where
  "ramdisk_bytes s = map_option snd (ramdisk s)"

section \<open>Commands on the ram disk\<close>

definition cmd_ramdisk :: "'p system \<Rightarrow> 'p system" where
  "cmd_ramdisk s =
     (case ramdisk s of
        Some (addr, img) \<Rightarrow>
          (let s = put_line (str ''ramdisk: addr=0x'' @ hex (unat addr) @ str '', len='' @
                 dec (length img) @ str '' bytes'') s
           in case fs_header img of
                Inr h \<Rightarrow> put_line (str ''rootfs: files='' @ dec (unat (file_count h))) (mount img s)
              | Inl e \<Rightarrow> put_line (str ''rootfs: invalid ('' @ debug_fs_error e @ str '')'') s)
      | None \<Rightarrow> put_line (str ''ramdisk: not loaded'') s)"

definition ls_line :: "FileRecord \<Rightarrow> bytes" where
  "ls_line rec = pad_left 0x20 6 (oct (unat (fr_mode rec))) @ str '' '' @
     pad_left 0x20 8 (dec (length (fr_data rec))) @ str '' '' @ fr_name rec"

definition cmd_ls :: "'p system \<Rightarrow> 'p system" where
  "cmd_ls s =
     (case ramdisk_bytes s of
        Some img \<Rightarrow>
          (let (recs, err) = fs_list img; s = fold (\<lambda>rec. put_line (ls_line rec)) recs s in
           case err of
             None \<Rightarrow> s
           | Some e \<Rightarrow> put_line (str ''ls: fs error: '' @ debug_fs_error e) s)
      | None \<Rightarrow> put_line (str ''ls: ramdisk not loaded'') s)"

definition cmd_stat :: "bytes \<Rightarrow> 'p system \<Rightarrow> 'p system" where
  "cmd_stat name s =
     (case ramdisk_bytes s of
        Some img \<Rightarrow>
          (case fs_open img (trim name) of
             Inr rec \<Rightarrow>
               put_line (str ''name='' @ fr_name rec @ str '' size='' @ dec (length (fr_data rec)) @
                 str '' mode='' @ oct (unat (fr_mode rec))) s
           | Inl e \<Rightarrow> put_line (str ''stat: '' @ debug_fs_error e) s)
      | None \<Rightarrow> put_line (str ''stat: ramdisk not loaded'') s)"

text \<open>The byte of a file that \<open>cat\<close> shows.\<close>

definition cat_byte :: "u8 \<Rightarrow> u8" where
  "cat_byte b = (if b = LF \<or> b = CR \<or> (0x20 \<le> b \<and> b \<le> 0x7E) then b else 0x2E)"

definition cmd_cat :: "bytes \<Rightarrow> 'p system \<Rightarrow> 'p system" where
  "cmd_cat name s =
     (case ramdisk_bytes s of
        Some img \<Rightarrow>
          (case fs_open img (trim name) of
             Inr rec \<Rightarrow> process [0x0A] (fold (\<lambda>b. process [cat_byte b]) (fr_data rec) s)
           | Inl e \<Rightarrow> put_line (str ''cat: '' @ debug_fs_error e) s)
      | None \<Rightarrow> put_line (str ''cat: ramdisk not loaded'') s)"

definition elf_line :: "nat \<Rightarrow> LoadSegment \<Rightarrow> bytes" where
  "elf_line idx seg =
     str ''  ['' @ dec idx @ str ''] vaddr=0x'' @ hex (unat (vaddr seg)) @ str '' mem=0x'' @
     hex (unat (mem_size seg)) @ str '' file_off=0x'' @ hex (unat (file_offset seg)) @
     str '' file_sz=0x'' @ hex (unat (file_size seg)) @ str '' flags=0x'' @ hex (unat (seg_flags seg))"

definition cmd_elf :: "bytes \<Rightarrow> 'p system \<Rightarrow> 'p system" where
  "cmd_elf name s =
     (case ramdisk_bytes s of
        Some img \<Rightarrow>
          (case fs_open img name of
             Inr rec \<Rightarrow>
               (case parse_elf64 (fr_data rec) of
                  Inr elf \<Rightarrow>
                    fold (\<lambda>(idx, seg). put_line (elf_line idx seg)) (enumerate 0 (segments elf))
                      (put_line (str ''elf '' @ name @ str '': entry=0x'' @ hex (unat (entry elf)) @
                         str '', load_segments='' @ dec (length (segments elf))) s)
                | Inl e \<Rightarrow> put_line (str ''elf: parse error: '' @ debug_elf_error e) s)
           | Inl e \<Rightarrow> put_line (str ''elf: '' @ debug_fs_error e) s)
      | None \<Rightarrow> put_line (str ''elf: ramdisk not loaded'') s)"

section \<open>Commands on the system calls\<close>

definition cmd_posix :: "'p system \<Rightarrow> 'p system" where
  "cmd_posix s =
     (let (p, b) = posix_snapshot (skern s) in
      put_line (str ''posix: pid='' @ dec (unat p) @ str '', brk=0x'' @ hex (unat b)) s)"

definition cmd_syscall :: "'p system \<Rightarrow> (unit, 'p system, unit) run" where
  "cmd_syscall s =
     and_then (on_kernel s (dispatch SYS_GETPID 0 0 0 0 0 0 (skern s))) (\<lambda>p s.
     and_then (on_kernel s (dispatch SYS_BRK 0 0 0 0 0 0 (skern s))) (\<lambda>b s.
     and_then (on_kernel s (dispatch SYS_MMAP 0 0x3000 0 0 0 0 (skern s))) (\<lambda>mm s.
     and_then (on_kernel s (dispatch SYS_OPENAT (- 1) 1 0 0 0 0 (skern s))) (\<lambda>fd s.
       Done () (put_line (str ''syscall getpid='' @ sdec p @ str '' brk=0x'' @ hex (unat b) @
         str '' mmap=0x'' @ hex (unat mm) @ str '' openat='' @ sdec fd) s)))))"

definition cmd_busybox :: "'p system \<Rightarrow> 'p system" where
  "cmd_busybox s =
     put_line (str ''missing: execve/fork/wait4/pipe/tty ioctl/procfs'')
       (put_line (str ''syscalls: '' @ supported_syscalls_hint)
          (put_line (str ''busybox status: pre-boot compatibility mode'') s))"

definition cmd_syscap :: "'p system \<Rightarrow> 'p system" where
  "cmd_syscap s = put_line (str ''syscap: '' @ supported_syscalls_hint) s"

section \<open>Running a program\<close>

text \<open>The platform of the native runner, the bound on nested \<open>execve\<close> and the address of the
  interpreter's buffer.\<close>

record 'p host =
  plat :: "'p platform"
  nesting :: nat
  tmp_buf :: u64

text \<open>The interpreter on the terminal and the kernel of the system.\<close>

fun on_console :: "'p system \<Rightarrow> (RunError, console, unit) run \<Rightarrow> (RunError, 'p system, unit) run" where
  "on_console s (Done x con) = Done x (s\<lparr>tty_out := fst con, skern := snd con\<rparr>)"
| "on_console s (Fail e con) = Fail e (s\<lparr>tty_out := fst con, skern := snd con\<rparr>)"
| "on_console s Panic = Panic"
| "on_console s Hang = Hang"

definition interpreted :: "'p host \<Rightarrow> bytes \<Rightarrow> bytes list \<Rightarrow> 'p system \<Rightarrow> (RunError, 'p system, unit) run" where
  "interpreted h img argv s =
     on_console s (run_linux_elf_with_args (nesting h) (tmp_buf h) img argv [] (tty_out s, skern s))"

text \<open>\<open>run name args\<close>, the start of most messages.\<close>

definition run_title :: "bytes \<Rightarrow> bytes \<Rightarrow> bytes" where
  "run_title name args = str ''run '' @ name @ str '' '' @ args"

fun interp_report :: "bytes \<Rightarrow> (RunError, 'p system, unit) run \<Rightarrow> (unit, 'p system, unit) run" where
  "interp_report title (Done _ s) =
     Done () (put_line ([0x0A] @ title @ str '': exited with code '' @ sdec (last_exit_code (skern s)) @
       str '' (interp)'') s)"
| "interp_report title (Fail e s) =
     Done () (serial_text (str ''[LeonOS3] '' @ title @ str '' interpreter failed: '' @
         debug_run_error e @ [0x0A])
       (put_line (title @ str '': failed: '' @ debug_run_error e) s))"
| "interp_report title Panic = Panic"
| "interp_report title Hang = Hang"

fun native_report ::
  "bytes \<Rightarrow> ('p system \<Rightarrow> (unit, 'p system, unit) run) \<Rightarrow> (NativeError, 'p system, unit) run \<Rightarrow>
     (unit, 'p system, unit) run" where
  "native_report title fallback (Done _ s) =
     Done () (put_line ([0x0A] @ title @ str '': exited with code '' @ sdec (last_exit_code (skern s))) s)"
| "native_report title fallback (Fail (FixedVaddrUnsupported v t) s) = fallback s"
| "native_report title fallback (Fail e s) =
     Done () (serial_text (str ''[LeonOS3] '' @ title @ str '' failed: '' @ debug_native_error e @ [0x0A])
       (put_line (title @ str '': failed: '' @ debug_native_error e) s))"
| "native_report title fallback Panic = Panic"
| "native_report title fallback Hang = Hang"

definition cmd_run :: "'p host \<Rightarrow> bytes \<Rightarrow> bytes \<Rightarrow> 'p system \<Rightarrow> (unit, 'p system, unit) run" where
  "cmd_run h name args s =
     (case ramdisk_bytes s of
        None \<Rightarrow> Done () s
      | Some img \<Rightarrow>
          (case fs_open img name of
             Inl e \<Rightarrow> Done () (put_line (str ''run: '' @ debug_fs_error e) s)
           | Inr rec \<Rightarrow>
               (let argv = name # split_whitespace args;
                    s = serial_text (str ''[LeonOS3] native start '' @ name @ str '' '' @ args @ [0x0A]) s
                in native_report (run_title name args)
                     (\<lambda>s. let s = serial_text (str ''[LeonOS3] native fixed-vaddr fallback to interpreter: '' @
                              name @ str '' '' @ args @ [0x0A]) s
                           in interp_report (run_title name args) (interpreted h (fr_data rec) argv s))
                     (run_native_elf_with_args (plat h) (fr_data rec) argv [] s))))"

text \<open>The program and the arguments of \<open>run\<close> and \<open>runelf\<close>.\<close>

definition run_target :: "bytes \<Rightarrow> (bytes \<times> bytes) option" where
  "run_target cmd =
     (case strip_prefix (str ''run '') cmd of
        Some rest \<Rightarrow>
          (let (first, more) = split_ws_once (trim rest);
               name = trim first;
               args = trim (case more of Some m \<Rightarrow> m | None \<Rightarrow> [])
           in if name = [] then None else Some (name, args))
      | None \<Rightarrow> if cmd = str ''runelf'' then Some (str ''hello_world'', []) else None)"

definition elf_target :: "bytes \<Rightarrow> bytes option" where
  "elf_target cmd =
     (case strip_prefix (str ''elf '') cmd of
        Some name \<Rightarrow> Some (trim name)
      | None \<Rightarrow> if cmd = str ''elf'' then Some (str ''hello_world'') else None)"

section \<open>The handler\<close>

text \<open>
  The result says whether the command was handled. The \<open>else\<close> with the message for a missing
  ram disk belongs to \<open>if let Some((name, args)) = run_target\<close>, and \<open>return true\<close> follows
  it: so it is as written here.
\<close>

definition handle_custom_command :: "'p host \<Rightarrow> bytes \<Rightarrow> 'p system \<Rightarrow> (unit, 'p system, bool) run" where
  "handle_custom_command h cmd s =
     (if cmd = str ''ramdisk'' then Done True (cmd_ramdisk s)
      else if cmd = str ''ls'' then Done True (cmd_ls s)
      else
        (case strip_prefix (str ''stat '') cmd of
           Some name \<Rightarrow> Done True (cmd_stat name s)
         | None \<Rightarrow>
        (case strip_prefix (str ''cat '') cmd of
           Some name \<Rightarrow> Done True (cmd_cat name s)
         | None \<Rightarrow>
             if cmd = str ''posix'' then Done True (cmd_posix s)
             else if cmd = str ''syscall'' then and_then (cmd_syscall s) (\<lambda>_. Done True)
             else if cmd = str ''busybox'' then Done True (cmd_busybox s)
             else if cmd = str ''syscap'' then Done True (cmd_syscap s)
             else
        (case elf_target cmd of
           Some name \<Rightarrow> Done True (cmd_elf name s)
         | None \<Rightarrow>
        (case run_target cmd of
           Some (name, args) \<Rightarrow> and_then (cmd_run h name args s) (\<lambda>_. Done True)
         | None \<Rightarrow> Done True (put_line (str ''run: ramdisk not loaded'') s))))))"

section \<open>Start\<close>

text \<open>What the boot loader hands over.\<close>

record boot_info =
  physical_memory_offset :: "u64 option"
  boot_ramdisk :: "(u64 \<times> bytes) option"
  has_framebuffer :: bool

text \<open>One poll of the keyboard by the shell; the keys are those that \<open>read\<close> also polls.\<close>

definition read_key :: "'p system \<Rightarrow> u8 option \<times> 'p system" where
  "read_key s =
     (case stdin_reader (skern s) of
        Some (k # ks) \<Rightarrow> (k, s\<lparr>skern := (skern s)\<lparr>stdin_reader := Some ks\<rparr>\<rparr>)
      | _ \<Rightarrow> (None, s))"

definition boot_msg :: "BootLevel \<Rightarrow> bytes \<Rightarrow> 'p system \<Rightarrow> 'p system" where
  "boot_msg level text s = s\<lparr>tty_out := boot_line level text (tty_out s)\<rparr>"

text \<open>Up to the terminal: the keyboard, the exceptions, the physical memory offset, the ram disk.\<close>

definition boot_devices :: "boot_info \<Rightarrow> u8 option list \<Rightarrow> 'p system \<Rightarrow> 'p system" where
  "boot_devices bi polls s =
     (let s = s\<lparr>skern := set_stdin_reader polls (skern s)\<rparr>;
          s = traps_init s;
          s = (case physical_memory_offset bi of
                 Some off \<Rightarrow>
                   serial_text (str ''[LeonOS3] physical memory offset: 0x'' @ hex (unat off) @ [0x0A])
                     (set_physical_memory_offset off s)
               | None \<Rightarrow> serial_text (str ''[LeonOS3] physical memory offset missing'' @ [0x0A]) s);
          s = serial_text (str ''[LeonOS3] kernel entered'' @ [0x0A]) s
      in (case boot_ramdisk bi of Some rd \<Rightarrow> s\<lparr>ramdisk := Some rd\<rparr> | None \<Rightarrow> s))"

definition boot_rootfs :: "'p system \<Rightarrow> 'p system" where
  "boot_rootfs s =
     (case ramdisk_bytes s of
        Some img \<Rightarrow>
          (let s = boot_msg BootOk (str ''Load ramdisk'') s in
           case fs_header img of
             Inr h \<Rightarrow> put_line (str ''[  OK  ] Mount rootfs ('' @ dec (unat (file_count h)) @ str '' files)'')
                        (mount img s)
           | Inl _ \<Rightarrow> boot_msg BootFail (str ''Mount rootfs failed'') s)
      | None \<Rightarrow> boot_msg BootWarn (str ''Ramdisk not present'') s)"

definition boot_terminal :: "'p system \<Rightarrow> 'p system" where
  "boot_terminal s =
     (let s = serial_text (str ''[LeonOS3] framebuffer present'' @ [0x0A]) s;
          s = process ([0x1B] @ str ''[32mLeonOS 3 booting...'' @ [0x1B] @ str ''[0m'' @ [0x0A]) s;
          s = boot_msg BootInfo (str ''Initialize framebuffer terminal'') s;
          s = boot_msg BootInfo (str ''Initialize POSIX compatibility layer'') s;
          s = boot_msg BootInfo (str ''Initialize Linux syscall dispatcher'') s;
          s = boot_msg BootInfo (str ''Initialize ELF loader'') s;
          s = boot_rootfs s;
          s = boot_msg BootOk (str ''Start Leon shell'') s
      in process (str ''Type '' @ [0x27] @ str ''help'' @ [0x27] @ str '' for commands.'' @ [0x0A, 0x0A]) s)"

text \<open>Without a frame buffer: the text goes to the VGA buffer, and the processor halts.\<close>

definition boot_fallback :: "'p system \<Rightarrow> 'p system" where
  "boot_fallback s =
     (let s = serial_text (str ''[LeonOS3] no framebuffer, using VGA fallback'' @ [0x0A]) s;
          k = skern s
      in s\<lparr>skern := k\<lparr>umem := vga_fallback_print
             (str ''LeonOS 3 booting...'' @ [0x0A] @ str ''HelloWorld (no framebuffer)'') (umem k)\<rparr>\<rparr>)"

text \<open>
  The kernel, for the first \<open>n\<close> polls of its shell. The heap (\<open>Allocator\<close>), clearing the frame
  buffer and the settings of the terminal crate have no part in this state.
\<close>

definition kernel_main ::
  "'p host \<Rightarrow> boot_info \<Rightarrow> u8 option list \<Rightarrow> nat \<Rightarrow> 'p system \<Rightarrow> (unit, 'p system, line_buf) run" where
  "kernel_main h bi polls n s =
     (let s = boot_devices bi polls s in
      if has_framebuffer bi then run_shell read_key (handle_custom_command h) n (boot_terminal s)
      else (let s = boot_fallback s in Hang))"

text \<open>The statics before \<open>kernel_main\<close>.\<close>

definition power_on :: "memory \<Rightarrow> 'p \<Rightarrow> 'p system" where
  "power_on m t =
     \<lparr>tty_out = [], serial_log = [], idt = None, idt_ready = False, skern = boot_kernel m, syscall_ready = False, efer = 0, star = 0,
      lstar = 0, sfmask = 0, phys_off = None, out_installed = False, page_table = t, ramdisk = None\<rparr>"

end
