(* ===== verification/Commands_Props.thy ===== *)
theory Commands_Props
  imports Commands Syscall_Props
begin

text \<open>
  The system as a whole: what every command keeps, from the start of the kernel on, and what
  the commands show.
\<close>

section \<open>The invariant of the system\<close>

text \<open>The image that is mounted when a ram disk is there: one with a valid header.\<close>

definition mounted_image :: "(u64 \<times> bytes) option \<Rightarrow> bytes option" where
  "mounted_image rd =
     (case rd of
        Some (_, img) \<Rightarrow> (case fs_header img of Inr _ \<Rightarrow> Some img | Inl _ \<Rightarrow> None)
      | None \<Rightarrow> None)"

definition sound :: "bytes option \<Rightarrow> kernel \<Rightarrow> bool" where
  "sound R k \<longleftrightarrow> fd_inv k \<and> rootfs k = R \<and> pid k = 3"

interpretation sound: kernel_invariant "sound R" for R
  by unfold_locales (simp_all add: sound_def fd_inv_updates fd_inv_set_fd)

definition path_inv :: "'p platform \<Rightarrow> 'p system \<Rightarrow> bool" where
  "path_inv p s \<longleftrightarrow> (syscall_ready s \<longrightarrow> path_set p s)"

definition sys_ok :: "'p host \<Rightarrow> (u64 \<times> bytes) option \<Rightarrow> 'p system \<Rightarrow> bool" where
  "sys_ok h rd s \<longleftrightarrow>
     ramdisk s = rd \<and> sound (mounted_image rd) (skern s) \<and> \<not> out_installed s \<and> path_inv (plat h) s \<and>
     idt s = Some kernel_idt"

lemma sys_ok_updates [simp]:
  "sys_ok h rd (process bs s) = sys_ok h rd s" "sys_ok h rd (put_line bs s) = sys_ok h rd s"
  "sys_ok h rd (serial_text bs s) = sys_ok h rd s" "sys_ok h rd (boot_msg l bs s) = sys_ok h rd s"
  by (simp_all add: sys_ok_def process_def put_line_def serial_text_def boot_msg_def path_inv_def path_set_def)

lemma sys_ok_kernel: "sys_ok h rd s \<Longrightarrow> sound (mounted_image rd) k \<Longrightarrow> sys_ok h rd (s\<lparr>skern := k\<rparr>)"
  by (simp add: sys_ok_def path_inv_def path_set_def)

lemma sys_ok_console:
  "sys_ok h rd s \<Longrightarrow> sound (mounted_image rd) k \<Longrightarrow> sys_ok h rd (s\<lparr>tty_out := t, skern := k\<rparr>)"
  by (simp add: sys_ok_def path_inv_def path_set_def)

lemma sys_ok_on_kernel:
  "sys_ok h rd s \<Longrightarrow> state_ok (sound (mounted_image rd)) r \<Longrightarrow> state_ok (sys_ok h rd) (on_kernel s r)"
  by (cases r) (auto intro: sys_ok_kernel)

lemma sys_ok_sound: "sys_ok h rd s \<Longrightarrow> sound (mounted_image rd) (skern s)"
  by (simp add: sys_ok_def)

lemma sys_ok_fold: "(\<And>x s. sys_ok h rd (f x s) = sys_ok h rd s) \<Longrightarrow> sys_ok h rd (fold f xs s) = sys_ok h rd s"
  by (induction xs arbitrary: s) simp_all

section \<open>Every command keeps it\<close>

lemma sys_ok_mount:
  assumes "sys_ok h rd s" "mounted_image rd = Some img"
  shows "sys_ok h rd (mount img s)"
  using assms unfolding mount_def
  by (intro sys_ok_kernel) (auto simp: sys_ok_def sound_def fd_inv_set_rootfs, auto simp: set_rootfs_def)

lemma sys_ok_ramdisk: "sys_ok h rd s \<Longrightarrow> sys_ok h rd (cmd_ramdisk s)"
proof -
  assume s: "sys_ok h rd s"
  then have "ramdisk s = rd" by (simp add: sys_ok_def)
  then show ?thesis using s
    by (auto simp: cmd_ramdisk_def mounted_image_def Let_def intro!: sys_ok_mount split: option.split sum.split)
qed

lemma sys_ok_shows:
  "sys_ok h rd (cmd_ls s) = sys_ok h rd s" "sys_ok h rd (cmd_stat n s) = sys_ok h rd s"
  "sys_ok h rd (cmd_cat n s) = sys_ok h rd s" "sys_ok h rd (cmd_elf n s) = sys_ok h rd s"
  "sys_ok h rd (cmd_posix s) = sys_ok h rd s" "sys_ok h rd (cmd_busybox s) = sys_ok h rd s"
  "sys_ok h rd (cmd_syscap s) = sys_ok h rd s"
  by (auto simp: cmd_ls_def cmd_stat_def cmd_cat_def cmd_elf_def cmd_posix_def cmd_busybox_def
      cmd_syscap_def sys_ok_fold case_prod_unfold Let_def split: option.split sum.split)

lemma sys_ok_syscall: "sys_ok h rd s \<Longrightarrow> state_ok (sys_ok h rd) (cmd_syscall s)"
  unfolding cmd_syscall_def
  by (intro run_intro sys_ok_on_kernel sound.I_dispatch) (simp_all add: sys_ok_sound)

section \<open>Running keeps it\<close>

lemma path_inv_hardware: "hardware s' = hardware s \<Longrightarrow> path_inv p s' = path_inv p s"
  by (simp add: path_inv_def path_set_def hardware_def)

lemma path_inv_simps [simp]:
  "path_inv p (say m s) = path_inv p s" "path_inv p (s\<lparr>page_table := t\<rparr>) = path_inv p s"
  by (simp_all add: path_inv_def path_set_def say_def)

lemma path_inv_init: "path_inv p s \<Longrightarrow> state_ok (path_inv p) (init_syscall_path p s)"
  using init_path_set [of s p] by (cases "init_syscall_path p s")
    (auto simp: path_inv_def init_syscall_path_def Let_def split: if_splits)

lemma state_ok_mono: "state_ok P r \<Longrightarrow> (\<And>s. P s \<Longrightarrow> Q s) \<Longrightarrow> state_ok Q r"
  by (cases r) auto

lemma path_inv_stages:
  assumes "path_inv p s"
  shows "state_ok (path_inv p) (native_check img s)"
    "state_ok (path_inv p) (native_image pl img argv envp elf lo n s)"
    "state_ok (path_inv p) (native_entry_point elf lo base mem s)"
  using assms path_inv_hardware
  by (auto intro!: state_ok_mono [OF hardware_stages(1)] state_ok_mono [OF hardware_stages(2)]
      state_ok_mono [OF hardware_stages(3)])

lemma path_inv_open: "path_inv p s \<Longrightarrow> state_ok (path_inv p) (open_pages pl as s)"
  by (induction as arbitrary: s) (auto split: option.split)

lemma path_inv_region: "path_inv p s \<Longrightarrow> state_ok (path_inv p) (ensure_region_executable pl base len s)"
  unfolding ensure_region_executable_def by (intro run_intro path_inv_open) auto

lemma sys_ok_stage:
  assumes "sys_ok h rd s" "state_ok (loading s) r" "state_ok (path_inv (plat h)) r"
  shows "state_ok (sys_ok h rd) r"
  using assms by (cases r) (auto simp: sys_ok_def loading_def)

lemma sys_ok_start:
  assumes "sys_ok h rd s"
  shows "state_ok (sys_ok h rd) (native_start p base mem v sp s)"
proof -
  have "sound (mounted_image rd) (mark_exit_code 0 (poke base mem (skern s)))"
    unfolding mark_exit_code_def by (simp add: sound.I_exit sound.I_poke sys_ok_sound [OF assms])
  then have k: "sound (mounted_image rd) (skern t)" if "skern t = mark_exit_code 0 (poke base mem (skern s))"
    for t :: "'a system" using that by simp
  let ?P = "\<lambda>t. ramdisk t = rd \<and> sound (mounted_image rd) (skern t) \<and> path_inv (plat h) t \<and>
    idt t = Some kernel_idt"
  have run: "state_ok ?P (run_program es t)"
    if "skern t = mark_exit_code 0 (poke base mem (skern s))" "hardware t = hardware (s\<lparr>out_installed := True\<rparr>)"
    for es and t :: "'a system"
    using sys_ok_def [of h rd s] assms path_inv_hardware [OF that(2), of "plat h"] that(2)
    by (intro state_ok_mono [OF sound.run_program_ok [OF k [OF that(1)]]])
      (auto simp: hardware_def path_inv_def path_set_def)
  show ?thesis
    unfolding native_start_def Let_def
    by (rule state_ok_never_fails [where P = ?P, OF never_fails_program run])
      (auto simp: sys_ok_def say_def hardware_def path_inv_def path_set_def)
qed

lemma sys_ok_native:
  assumes "sys_ok h rd s"
  shows "state_ok (sys_ok h rd) (run_native_elf_with_args (plat h) img argv envp s)"
proof -
  have say: "sys_ok h rd (say m s) = sys_ok h rd s" for m and s :: "'a system"
    by (simp add: sys_ok_def) (simp add: say_def)
  have stages: "state_ok (sys_ok h rd) (init_syscall_path (plat h) s)"
    "state_ok (sys_ok h rd) (native_check img s)"
    "state_ok (sys_ok h rd) (native_image (plat h) img argv envp elf lo n s)"
    "state_ok (sys_ok h rd) (native_entry_point elf lo base mem s)"
    "state_ok (sys_ok h rd) (ensure_region_executable (plat h) base len s)"
    if "sys_ok h rd s" for elf lo n base mem len and s :: "'a system"
  proof -
    have p: "path_inv (plat h) s" using that by (simp add: sys_ok_def)
    show "state_ok (sys_ok h rd) (init_syscall_path (plat h) s)"
      by (rule sys_ok_stage [OF that loading_stages(1) path_inv_init]) (simp_all add: p)
    show "state_ok (sys_ok h rd) (native_check img s)"
      by (rule sys_ok_stage [OF that loading_stages(2) path_inv_stages(1)]) (simp_all add: p)
    show "state_ok (sys_ok h rd) (native_image (plat h) img argv envp elf lo n s)"
      by (rule sys_ok_stage [OF that loading_stages(3) path_inv_stages(2)]) (simp_all add: p)
    show "state_ok (sys_ok h rd) (native_entry_point elf lo base mem s)"
      by (rule sys_ok_stage [OF that loading_stages(4) path_inv_stages(3)]) (simp_all add: p)
    show "state_ok (sys_ok h rd) (ensure_region_executable (plat h) base len s)"
      by (rule sys_ok_stage [OF that loading_stages(5) path_inv_region]) (simp_all add: p)
  qed
  show ?thesis
    unfolding run_native_elf_with_args_def Let_def case_prod_unfold
    by (intro state_ok_and_then stages sys_ok_start) (simp_all add: say assms)
qed

lemma sys_ok_interp:
  assumes "sys_ok h rd s"
  shows "state_ok (sys_ok h rd) (interpreted h img argv s)"
proof -
  let ?r = "run_linux_elf_with_args (nesting h) (tmp_buf h) img argv [] (tty_out s, skern s)"
  have "state_ok (\<lambda>c. sound (mounted_image rd) (snd c)) ?r"
    by (rule sound.I_run_elf) (simp add: sys_ok_sound [OF assms])
  then show ?thesis
    unfolding interpreted_def using assms by (cases ?r) (auto intro: sys_ok_console)
qed

lemma sys_ok_run:
  assumes "sys_ok h rd s"
  shows "state_ok (sys_ok h rd) (cmd_run h name args s)"
proof -
  have ir: "state_ok (sys_ok h rd) (interp_report t r)" if "state_ok (sys_ok h rd) r" for t r
    using that by (cases r) auto
  have nr: "state_ok (sys_ok h rd) (native_report t f r)"
    if "state_ok (sys_ok h rd) r" "\<And>s. sys_ok h rd s \<Longrightarrow> state_ok (sys_ok h rd) (f s)" for t f r
  proof (cases r)
    case (Fail e s)
    with that show ?thesis by (cases e) auto
  qed (use that in auto)
  show ?thesis
    unfolding cmd_run_def Let_def
    by (auto intro!: nr ir sys_ok_native sys_ok_interp simp: assms split: option.split sum.split)
qed

lemma sys_ok_run_command: "sys_ok h rd s \<Longrightarrow> state_ok (sys_ok h rd) (and_then (cmd_run h name args s) (\<lambda>_. Done b))"
  by (rule state_ok_and_then [OF sys_ok_run]) simp_all

lemma sys_ok_syscall_command: "sys_ok h rd s \<Longrightarrow> state_ok (sys_ok h rd) (and_then (cmd_syscall s) (\<lambda>_. Done b))"
  by (rule state_ok_and_then [OF sys_ok_syscall]) simp_all

text \<open>Whatever the branch of the handler.\<close>

lemma state_ok_any_branch:
  "state_ok P x \<Longrightarrow> state_ok P y \<Longrightarrow> state_ok P (if c then x else y)"
  "state_ok P x \<Longrightarrow> (\<And>a. state_ok P (f a)) \<Longrightarrow> state_ok P (case v of None \<Rightarrow> x | Some a \<Rightarrow> f a)"
  "(\<And>a b. state_ok P (g a b)) \<Longrightarrow> state_ok P (case w of (a, b) \<Rightarrow> g a b)"
  by (simp_all split: option.split prod.split)

lemma state_ok_Done: "P s \<Longrightarrow> state_ok P (Done x s)"
  by simp

lemma sys_ok_command:
  assumes "sys_ok h rd s"
  shows "state_ok (sys_ok h rd) (handle_custom_command h cmd s)"
  unfolding handle_custom_command_def
  by (intro state_ok_any_branch state_ok_Done sys_ok_run_command sys_ok_syscall_command sys_ok_ramdisk assms)
    (simp_all only: sys_ok_shows sys_ok_updates assms)

section \<open>The shell loop\<close>

text \<open>The buffer of the line editor holds a line of printable characters.\<close>

definition editing :: "line_buf \<Rightarrow> bool" where
  "editing b \<longleftrightarrow> (\<exists>l. holds b l \<and> (\<forall>c \<in> set l. printable c))"

lemma editing_empty: "editing empty_line" "editing b \<Longrightarrow> editing (b\<lparr>line_len := 0\<rparr>)"
  using holds_empty by (fastforce simp: editing_def)+

lemma shell_key_ok:
  assumes "editing b" "P t"
    and proc: "\<And>bs t. P t \<Longrightarrow> P (process bs t)"
    and handler: "\<And>cmd t. P t \<Longrightarrow> state_ok P (h cmd t)"
  shows "state_ok P (shell_key h k b t) \<and> (\<forall>b' t'. shell_key h k b t = Done b' t' \<longrightarrow> editing b')"
proof -
  obtain l where l: "holds b l" "\<forall>c \<in> set l. printable c" using assms(1) by (auto simp: editing_def)
  show ?thesis
  proof (cases "ends_line k")
    case False
    from shell_key_edit [OF l(1) False, of h t] edit_printable [OF l(2), of k] assms(2) proc
    show ?thesis by (auto simp: editing_def)
  next
    case True
    have c: "state_ok P (exec_command h input t)" if "P t" for input t
      unfolding exec_command_def Let_def
      by (intro state_ok_any_branch state_ok_Done state_ok_and_then handler proc that state_ok.simps)
        simp_all
    have "shell_key h k b t = and_then (exec_command h l (process [0x0A] t))
        (\<lambda>_ t. Done (b\<lparr>line_len := 0\<rparr>) (process prompt t))"
      using l(1) printable_utf8 [OF l(2)] True by (simp add: shell_key_def ends_line_def holds_def)
    moreover have "state_ok P (exec_command h l (process [0x0A] t))"
      by (rule c) (rule proc, rule assms(2))
    ultimately show ?thesis
      using editing_empty(2) [OF assms(1)] proc
      by (cases "exec_command h l (process [0x0A] t)") auto
  qed
qed

lemma shell_loop_ok:
  assumes proc: "\<And>bs t. P t \<Longrightarrow> P (process bs t)"
    and handler: "\<And>cmd t. P t \<Longrightarrow> state_ok P (h cmd t)"
    and input: "\<And>t. P t \<Longrightarrow> P (snd (rd t))"
  shows "editing b \<Longrightarrow> P t \<Longrightarrow> shell_loop rd h n b t = Done b' t' \<Longrightarrow> editing b' \<and> P t'"
proof (induction n arbitrary: b t)
  case (Suc n)
  obtain k t1 where r: "rd t = (k, t1)" by fastforce
  with input [OF Suc.prems(2)] have t1: "P t1" by simp
  show ?case
  proof (cases k)
    case None
    with Suc.IH [OF Suc.prems(1) t1] Suc.prems(3) r show ?thesis by simp
  next
    case (Some c)
    with Suc.prems(3) r obtain b2 t2 where
      "shell_key h c b t1 = Done b2 t2" "shell_loop rd h n b2 t2 = Done b' t'"
      by (cases "shell_key h c b t1") auto
    moreover have "state_ok P (shell_key h c b t1) \<and>
        (\<forall>b' t'. shell_key h c b t1 = Done b' t' \<longrightarrow> editing b')"
      by (rule shell_key_ok [where P = P, OF Suc.prems(1) t1 proc handler])
    ultimately show ?thesis using Suc.IH [of b2 t2] by auto
  qed
qed simp

section \<open>The start\<close>

lemma sys_ok_read_key: "sys_ok h rd s \<Longrightarrow> sys_ok h rd (snd (read_key s))"
proof -
  have "sound R (k\<lparr>stdin_reader := p\<rparr>) = sound R k" for R k p
    by (simp add: sound_def fd_inv_def)
  note this [simp]
  show "sys_ok h rd s \<Longrightarrow> sys_ok h rd (snd (read_key s))"
    by (auto simp: read_key_def sys_ok_sound intro!: sys_ok_kernel split: option.split list.split)
qed

text \<open>Before the ram disk is mounted.\<close>

definition starting :: "(u64 \<times> bytes) option \<Rightarrow> 'p system \<Rightarrow> bool" where
  "starting rd s \<longleftrightarrow> ramdisk s = rd \<and> sound None (skern s) \<and> \<not> out_installed s \<and> \<not> syscall_ready s \<and>
     idt s = Some kernel_idt"

lemma starting_updates [simp]:
  "starting rd (process bs s) = starting rd s" "starting rd (put_line bs s) = starting rd s"
  "starting rd (serial_text bs s) = starting rd s" "starting rd (boot_msg l bs s) = starting rd s"
  by (simp_all add: starting_def process_def put_line_def serial_text_def boot_msg_def)

lemma starting_mounted:
  assumes "starting rd s"
  shows "mounted_image rd = None \<Longrightarrow> sys_ok h rd s"
    "mounted_image rd = Some img \<Longrightarrow> sys_ok h rd (mount img s)"
  using assms by (auto simp: starting_def sys_ok_def path_inv_def mount_def sound_def fd_inv_set_rootfs,
      simp_all add: set_rootfs_def)

lemma boot_devices_starting: "starting (boot_ramdisk bi) (boot_devices bi polls (power_on m t))"
  by (auto simp: boot_devices_def power_on_def traps_init_def starting_def sound_def serial_text_def
      set_physical_memory_offset_def set_stdin_reader_def fd_inv_updates fd_inv_boot Let_def
      split: option.split)
    (simp_all add: boot_kernel_def)

lemma boot_rootfs_ok:
  assumes "starting rd s"
  shows "sys_ok h rd (boot_rootfs s)"
proof -
  have rd: "ramdisk s = rd" using assms by (simp add: starting_def)
  show ?thesis
  proof (cases rd)
    case None
    with assms rd starting_mounted(1) [OF assms, of h] show ?thesis
      by (simp add: boot_rootfs_def ramdisk_bytes_def mounted_image_def)
  next
    case (Some d)
    obtain addr img where d: "d = (addr, img)" by fastforce
    have l: "starting rd (boot_msg l bs s)" for l bs using assms by simp
    show ?thesis
    proof (cases "fs_header img")
      case (Inl e)
      then show ?thesis using rd Some d starting_mounted(1) [OF assms, of h]
        by (simp add: boot_rootfs_def ramdisk_bytes_def mounted_image_def Let_def)
    next
      case (Inr hdr)
      then show ?thesis using rd Some d starting_mounted(2) [OF l, of img h]
        by (simp add: boot_rootfs_def ramdisk_bytes_def mounted_image_def Let_def)
    qed
  qed
qed

lemma boot_terminal_ok: "starting rd s \<Longrightarrow> sys_ok h rd (boot_terminal s)"
  by (simp add: boot_terminal_def Let_def boot_rootfs_ok)

text \<open>A host without native programs.\<close>

definition demo_host :: "(u64 \<Rightarrow> u64 option) host" where
  "demo_host = \<lparr>plat = demo_platform [], nesting = 1, tmp_buf = 0x9000\<rparr>"

lemma reached_ok:
  assumes "kernel_main h bi polls n (power_on m t) = Done b s"
  shows "editing b \<and> sys_ok h (boot_ramdisk bi) s"
proof -
  let ?s = "boot_devices bi polls (power_on m t)"
  have "has_framebuffer bi" and
    r: "shell_loop read_key (handle_custom_command h) n empty_line (process prompt (boot_terminal ?s)) = Done b s"
    using assms by (auto simp: kernel_main_def run_shell_def Let_def split: if_splits)
  have ok: "sys_ok h (boot_ramdisk bi) (process prompt (boot_terminal ?s))"
    using boot_terminal_ok [OF boot_devices_starting] by simp
  show ?thesis
    by (rule shell_loop_ok [where P = "sys_ok h (boot_ramdisk bi)", OF _ sys_ok_command sys_ok_read_key
          editing_empty(1) ok r]) simp
qed

text \<open>C1: the invariant of the whole system, from power on, whatever is typed, whatever
  programs are run and however they end: at every turn of the shell's loop the line editor
  holds a line of printable characters, the ram disk is the one the boot loader handed over
  and its image is the mounted file system exactly if its header is valid, the descriptor
  table is well formed, the process id is the kernel's, the trap handlers are loaded, no terminal writer is left installed,
  and if the system call path was ever set up its registers are the ones the entry needs.\<close>

theorem system_invariant:
  assumes "kernel_main h bi polls n (power_on m t) = Done b s"
  shows "editing b \<and> sys_ok h (boot_ramdisk bi) s"
  by (rule reached_ok [OF assms])

theorem system_invariant_witness:
  "\<exists>s. kernel_main demo_host \<lparr>physical_memory_offset = None, boot_ramdisk = Some (0x1000, []), has_framebuffer = True\<rparr>
      [Some 0x61] 1 (power_on (\<lambda>_. 0) demo_table) =
        Done (empty_line\<lparr>line := (line empty_line)[0 := 0x61], line_len := 1\<rparr>) s \<and>
     editing (empty_line\<lparr>line := (line empty_line)[0 := 0x61], line_len := 1\<rparr>) \<and>
     sys_ok demo_host (Some (0x1000, [])) s"
proof -
  let ?bi = "\<lparr>physical_memory_offset = None, boot_ramdisk = Some (0x1000, []), has_framebuffer = True\<rparr>"
  let ?b = "empty_line\<lparr>line := (line empty_line)[0 := 0x61], line_len := 1\<rparr>"
  define s0 where "s0 = process prompt (boot_terminal (boot_devices ?bi [Some 0x61] (power_on (\<lambda>_. 0) demo_table)))"
  have h: "fs_header [] = Inl TooSmall" by (simp add: fs_header_def HEADER_SIZE_def)
  have "stdin_reader (skern s0) = Some [Some 0x61]"
    by (simp add: s0_def boot_terminal_def boot_rootfs_def boot_devices_def power_on_def traps_init_def boot_msg_def
        process_def serial_text_def ramdisk_bytes_def set_stdin_reader_def h Let_def)
  then obtain s1 where "read_key s0 = (Some 0x61, s1)" by (simp add: read_key_def)
  then have "kernel_main demo_host ?bi [Some 0x61] 1 (power_on (\<lambda>_. 0) demo_table) = Done ?b (process [0x61] s1)"
    by (simp add: kernel_main_def run_shell_def s0_def shell_key_def empty_line_def)
  with system_invariant [OF this] show ?thesis by auto
qed

end
