(* ===== verification/Hello.thy ===== *)
theory Hello
  imports Guest_Stack Interp_Isa
begin

text \<open>
  A program, interpreted instruction by instruction: an ELF executable that writes a message
  and exits, built here byte by byte for every message and every exit code, and what
  \<open>run_linux_elf_with_args\<close> makes of it.
\<close>

section \<open>The program\<close>

text \<open>
  \<open>mov eax, 1; mov edi, 1; mov esi, 0x400028; mov edx, n; syscall;
  mov eax, 60; mov edi, c; syscall\<close>, six bytes of \<open>nop\<close>, and the message.
\<close>

definition hello_code :: "bytes \<Rightarrow> u32 \<Rightarrow> bytes" where
  "hello_code msg c =
     [0xB8] @ to_le 4 (1 :: u32) @ [0xBF] @ to_le 4 (1 :: u32) @ [0xBE] @ to_le 4 (0x400028 :: u32) @
     [0xBA] @ to_le 4 (of_nat (length msg) :: u32) @ [0x0F, 0x05] @
     [0xB8] @ to_le 4 (60 :: u32) @ [0xBF] @ to_le 4 c @ [0x0F, 0x05] @ replicate 6 0x90 @ msg"

definition hello_header :: "bytes \<Rightarrow> Elf64Phdr" where
  "hello_header msg = \<lparr>p_type = PT_LOAD, p_flags = 5, p_offset = 120, p_vaddr = 0x400000, p_paddr = 0x400000,
     p_filesz = of_nat (length msg + 40), p_memsz = of_nat (length msg + 40), p_align = 0x1000\<rparr>"

definition hello_elf :: "bytes \<Rightarrow> u32 \<Rightarrow> bytes" where
  "hello_elf msg c = encode_elf 2 0x400000 [hello_header msg] (hello_code msg c)"

lemma length_hello_code [simp]: "length (hello_code msg c) = length msg + 40"
  by (simp add: hello_code_def)

section \<open>Its instructions\<close>

text \<open>The machine has the bytes \<open>p\<close> at the start of its memory and is at the one of index
  \<open>off\<close>.\<close>

definition at_byte :: "bytes \<Rightarrow> nat \<Rightarrow> machine \<Rightarrow> bool" where
  "at_byte p off s \<longleftrightarrow> take (length p) (gmem s) = p \<and> off + 8 \<le> length p \<and> length p < 0x80000000 \<and>
     rip s = 0x400000 + of_nat off"

lemma prefix_slice: "take (length p) m = p \<Longrightarrow> i + n \<le> length p \<Longrightarrow> sub_slice i n m = take n (drop i p)"
proof -
  assume p: "take (length p) m = p" and i: "i + n \<le> length p"
  have "take n (drop i p) = take n (drop i (take (length p) m))" by (simp only: p)
  also have "\<dots> = take n (drop i m)" using i by (simp add: drop_take min_def)
  finally show "sub_slice i n m = take n (drop i p)" by (simp add: sub_slice_def)
qed

lemma at_byte_addr:
  assumes "at_byte p off s" "d \<le> 8"
  shows "unat (rip s + of_nat d) = 0x400000 + off + d" "unat (rip s + of_nat d - 0x400000) = off + d"
    "0x400000 \<le> rip s + of_nat d" "off + d \<le> length (gmem s)"
proof -
  have "length (take (length p) (gmem s)) = length p" "off + d \<le> length p" "length p < 0x80000000"
    using assms by (simp_all add: at_byte_def)
  then show l: "off + d \<le> length (gmem s)" by simp
  have r: "rip s + of_nat d = of_nat (0x400000 + off + d)" using assms(1) by (simp add: at_byte_def)
  show u: "unat (rip s + of_nat d) = 0x400000 + off + d"
    unfolding r using \<open>off + d \<le> length p\<close> \<open>length p < 0x80000000\<close> by (intro unat_of_nat_u64) linarith
  show b: "0x400000 \<le> rip s + of_nat d" unfolding word_le_nat_alt u by simp
  show "unat (rip s + of_nat d - 0x400000) = off + d" using u unat_diff_base [OF b] by simp
qed

lemma at_byte_fetch:
  assumes "at_byte p off s"
  shows "read_bytes 0x400000 (gmem s) (rip s) = Inr (take 8 (drop off p))"
proof -
  note a = at_byte_addr [OF assms, of 0, simplified] and b = at_byte_addr(4) [OF assms, of 8, simplified]
  have "sub_slice off 8 (gmem s) = take 8 (drop off p)"
    using assms by (intro prefix_slice) (auto simp: at_byte_def)
  moreover have "put_slice (replicate 8 0) 0 (take 8 (drop off p)) = take 8 (drop off p)"
    using assms by (auto simp: put_slice_def at_byte_def)
  ultimately show ?thesis
    using a b by (simp add: read_bytes_def va_to_index_def Let_def)
qed

lemma at_byte_imm:
  assumes "at_byte p off s" "take 4 (drop (off + 1) p) = to_le 4 (v :: u32)"
  shows "imm_u32 0x400000 1 s = Done v s"
proof -
  note a = at_byte_addr [OF assms(1), of 1, simplified] and b = at_byte_addr(4) [OF assms(1), of 5, simplified]
  have u: "unat (rip s) = 0x400000 + off" using at_byte_addr(1) [OF assms(1), of 0] by simp
  have "length p < 0x80000000" "off + 8 \<le> length p" using assms(1) by (auto simp: at_byte_def)
  moreover have "sub_slice (off + 1) 4 (gmem s) = to_le 4 v"
    unfolding assms(2) [symmetric] using assms(1) by (intro prefix_slice) (auto simp: at_byte_def)
  ultimately show ?thesis
    using a b u by (simp add: imm_u32_def read_u32_def span_index_def va_to_index_def
        checked_add_u64_def checked_add_usize_def Let_def)
qed

text \<open>The register that \<open>mov r32, imm32\<close> of an opcode loads.\<close>

definition load_reg :: "u8 \<Rightarrow> u64 \<Rightarrow> machine \<Rightarrow> machine" where
  "load_reg op v s = (if op = 0xB8 then s\<lparr>rax := v\<rparr> else if op = 0xBA then s\<lparr>rdx := v\<rparr>
     else if op = 0xBE then s\<lparr>rsi := v\<rparr> else s\<lparr>rdi := v\<rparr>)"

lemma plain_mov:
  assumes "b ! 0 = op" "op \<in> {0xB8, 0xBA, 0xBE, 0xBF}"
  shows "exec_plain base b s =
    Some (and_then (imm_u32 base 1 s) (\<lambda>v s. adv 5 (load_reg op (ucast v) s)))"
proof -
  have "exec_stack_ops base b s = None" "exec_alu base b s = None" "exec_moves b s = None"
    "exec_load base b s = None" "exec_lea b s = None" "exec_moves2 base b s = None"
    "exec_zero b s = None" "exec_tests base b s = None"
    using assms(2)
    by (elim insertE emptyE; simp add: exec_stack_ops_def exec_alu_def exec_moves_def exec_load_def
        exec_lea_def exec_moves2_def exec_zero_def exec_tests_def Let_def assms(1) split del: if_split)+
  moreover have "exec_imm base b s = Some (and_then (imm_u32 base 1 s) (\<lambda>v s. adv 5 (load_reg op (ucast v) s)))"
    using assms(2) by (elim insertE emptyE; simp add: exec_imm_def load_reg_def Let_def assms(1))
  ultimately show ?thesis by (simp add: exec_plain_def)
qed

lemma run_mov:
  assumes "at_byte p off s" "p ! off = op" "op \<in> {0xB8, 0xBA, 0xBE, 0xBF}"
    "take 4 (drop (off + 1) p) = to_le 4 (v :: u32)"
  shows "exec_one nested 0x400000 tmp s =
    Done False ((load_reg op (ucast v) s)\<lparr>rip := 0x400000 + of_nat (off + 5)\<rparr>)"
proof -
  let ?b = "take 8 (drop off p)"
  have b: "?b ! 0 = op" using assms(1,2) by (simp add: at_byte_def)
  have u: "unat (rip s) = 0x400000 + off" "off < 0x80000000"
    using at_byte_addr(1) [OF assms(1), of 0] assms(1) by (auto simp: at_byte_def)
  have r: "rip s + 5 = 0x400000 + of_nat (off + 5)" using assms(1) by (simp add: at_byte_def)
  have adv: "adv 5 (load_reg op w s) = Done False ((load_reg op w s)\<lparr>rip := 0x400000 + of_nat (off + 5)\<rparr>)" for w
    unfolding adv_def using u assms(3) r by (auto simp: load_reg_def checked_add_u64_def)
  show ?thesis
    unfolding exec_one_fetched [OF at_byte_fetch [OF assms(1)]]
    by (simp only: plain_mov [OF b assms(3)] at_byte_imm [OF assms(1,4)] and_then.simps or_else.simps
        option.case adv)
qed

lemma run_syscall:
  assumes "at_byte p off s" "p ! off = 0x0F" "p ! (off + 1) = 0x05"
  shows "exec_one nested 0x400000 tmp s =
    and_then (handle_syscall nested 0x400000 tmp s) (\<lambda>ex s.
      or_panic (checked_add_u64 (rip s) 2) (\<lambda>r. Done ex (s\<lparr>rip := r\<rparr>)))"
proof -
  let ?b = "take 8 (drop off p)"
  have b: "?b ! 0 = 0x0F" "?b ! 1 = 0x05" using assms by (simp_all add: at_byte_def)
  show ?thesis
    unfolding exec_one_fetched [OF at_byte_fetch [OF assms(1)]]
    using b
    by (simp add: exec_plain_def exec_stack_ops_def exec_alu_def exec_moves_def exec_load_def exec_lea_def
        exec_moves2_def exec_zero_def exec_tests_def exec_imm_def exec_lea_rip_def exec_syscall_def Let_def
        del: One_nat_def)
qed

section \<open>Its run\<close>

lemma ucast_ucast_same: "ucast (ucast (w :: u32) :: u64) = w"
  by (rule bit_word_eqI) (simp add: bit_simps)

lemma unat_widened: "unat (ucast (w :: u32) :: u64) = unat w"
proof -
  have "uint (ucast w :: u64) = uint w" by (rule uint_up_ucast) (simp add: is_up)
  then show ?thesis unfolding unat_eq_nat_uint by (rule arg_cong)
qed

lemma at_byte_next:
  assumes "at_byte p off s" "gmem s' = gmem s" "rip s' = 0x400000 + of_nat off'" "off' + 8 \<le> length p"
  shows "at_byte p off' s'"
  using assms by (simp add: at_byte_def)

lemma run_steps_next:
  "step s = Done False s1 \<Longrightarrow> 0 < n \<Longrightarrow> run_steps step n s = run_steps step (n - 1) s1"
  "step s = Done True s1 \<Longrightarrow> 0 < n \<Longrightarrow> run_steps step n s = Done () s1"
  by (cases n; simp)+

lemma hello_bytes:
  "hello_code msg c ! 0 = 0xB8" "take 4 (drop 1 (hello_code msg c)) = to_le 4 (1 :: u32)"
  "hello_code msg c ! 5 = 0xBF" "take 4 (drop 6 (hello_code msg c)) = to_le 4 (1 :: u32)"
  "hello_code msg c ! 10 = 0xBE" "take 4 (drop 11 (hello_code msg c)) = to_le 4 (0x400028 :: u32)"
  "hello_code msg c ! 15 = 0xBA" "take 4 (drop 16 (hello_code msg c)) = to_le 4 (of_nat (length msg) :: u32)"
  "hello_code msg c ! 20 = 0x0F" "hello_code msg c ! 21 = 0x05"
  "hello_code msg c ! 22 = 0xB8" "take 4 (drop 23 (hello_code msg c)) = to_le 4 (60 :: u32)"
  "hello_code msg c ! 27 = 0xBF" "take 4 (drop 28 (hello_code msg c)) = to_le 4 c"
  "hello_code msg c ! 32 = 0x0F" "hello_code msg c ! 33 = 0x05" "drop 40 (hello_code msg c) = msg"
  by (simp_all add: hello_code_def nth_append)

text \<open>The registers that the system calls use.\<close>

lemma hello_to_write:
  assumes "at_byte (hello_code msg c) 0 s" "8 \<le> n"
  shows "\<exists>s'. run_steps (exec_one nested 0x400000 tmp) n s = run_steps (exec_one nested 0x400000 tmp) (n - 4) s' \<and>
    at_byte (hello_code msg c) 20 s' \<and> rax s' = 1 \<and> rdi s' = 1 \<and> rsi s' = 0x400028 \<and>
    rdx s' = ucast (of_nat (length msg) :: u32) \<and> screen s' = screen s \<and> kern s' = kern s \<and> gmem s' = gmem s"
proof -
  let ?p = "hello_code msg c" and ?e = "exec_one nested 0x400000 tmp"
  define s1 where "s1 = (load_reg 0xB8 (ucast (1 :: u32)) s)\<lparr>rip := 0x400000 + of_nat 5\<rparr>"
  define s2 where "s2 = (load_reg 0xBF (ucast (1 :: u32)) s1)\<lparr>rip := 0x400000 + of_nat 10\<rparr>"
  define s3 where "s3 = (load_reg 0xBE (ucast (0x400028 :: u32)) s2)\<lparr>rip := 0x400000 + of_nat 15\<rparr>"
  define s4 where "s4 = (load_reg 0xBA (ucast (of_nat (length msg) :: u32)) s3)\<lparr>rip := 0x400000 + of_nat 20\<rparr>"
  have e1: "?e s = Done False s1"
    using run_mov [OF assms(1), where op = "0xB8" and v = "1" and nested = nested and tmp = tmp] hello_bytes [of msg c] by (simp add: s1_def)
  have a1: "at_byte ?p 5 s1" by (rule at_byte_next [OF assms(1)]) (simp_all add: s1_def load_reg_def)
  have e2: "?e s1 = Done False s2"
    using run_mov [OF a1, where op = "0xBF" and v = "1" and nested = nested and tmp = tmp] hello_bytes [of msg c] by (simp add: s2_def)
  have a2: "at_byte ?p 10 s2" by (rule at_byte_next [OF a1]) (simp_all add: s2_def load_reg_def)
  have e3: "?e s2 = Done False s3"
    using run_mov [OF a2, where op = "0xBE" and v = "0x400028" and nested = nested and tmp = tmp] hello_bytes [of msg c] by (simp add: s3_def)
  have a3: "at_byte ?p 15 s3" by (rule at_byte_next [OF a2]) (simp_all add: s3_def load_reg_def)
  have e4: "?e s3 = Done False s4"
    using run_mov [OF a3, where op = "0xBA" and v = "of_nat (length msg)" and nested = nested and tmp = tmp] hello_bytes [of msg c] by (simp add: s4_def)
  have a4: "at_byte ?p 20 s4" by (rule at_byte_next [OF a3]) (simp_all add: s4_def load_reg_def)
  have "run_steps ?e n s = run_steps ?e (n - 4) s4"
    using assms(2) run_steps_next(1) [where step = ?e, OF e1, of n] run_steps_next(1) [where step = ?e, OF e2, of "n - 1"]
      run_steps_next(1) [where step = ?e, OF e3, of "n - 2"] run_steps_next(1) [where step = ?e, OF e4, of "n - 3"]
    by (simp add: eval_nat_numeral)
  with a4 show ?thesis
    by (intro exI [of _ s4]) (simp add: s1_def s2_def s3_def s4_def load_reg_def)
qed

lemma hello_writes:
  assumes "at_byte (hello_code msg c) 20 s" "rax s = 1" "rdi s = 1" "rsi s = 0x400028"
    "rdx s = ucast (of_nat (length msg) :: u32)" "length msg + 40 < length (gmem s)"
  shows "\<exists>s'. exec_one nested 0x400000 tmp s = Done False s' \<and> at_byte (hello_code msg c) 22 s' \<and>
    screen s' = screen s @ msg \<and> kern s' = kern s"
proof -
  let ?p = "hello_code msg c"
  have p: "take (length ?p) (gmem s) = ?p" "length msg < 0x80000000" "rip s = 0x400014"
    using assms(1) by (simp_all add: at_byte_def)
  then have len: "unat (rdx s) = length msg"
    by (simp add: assms(5) unat_widened unat_of_nat)
  have "sub_slice 40 (length msg) (gmem s) = msg"
    using prefix_slice [OF p(1), of 40 "length msg"] hello_bytes [of msg c] by simp
  then have w: "handle_syscall nested 0x400000 tmp s =
      ret_rax False (posix_write 1 (rsi s) (rdx s)) (s\<lparr>screen := screen s @ msg\<rparr>)"
    using assms(2-6) len p(2)
    by (simp add: handle_syscall_def guest_write_def va_to_index_def checked_add_usize_def dispatch_def
        sys_nrs Let_def)
  define s' where "s' = s\<lparr>screen := screen s @ msg, rax := posix_write 1 (rsi s) (rdx s), rip := 0x400000 + of_nat 22\<rparr>"
  have "exec_one nested 0x400000 tmp s = Done False s'"
    using run_syscall [OF assms(1), of nested tmp] hello_bytes [of msg c] p(3)
    by (simp add: w ret_rax_def s'_def checked_add_u64_def)
  moreover have "at_byte ?p 22 s'" by (rule at_byte_next [OF assms(1)]) (simp_all add: s'_def)
  ultimately show ?thesis by (intro exI [of _ s']) (simp add: s'_def)
qed

lemma hello_exits:
  assumes "at_byte (hello_code msg c) 22 s" "3 \<le> n"
  shows "\<exists>s'. run_steps (exec_one nested 0x400000 tmp) n s = Done () s' \<and>
    screen s' = screen s \<and> kern s' = mark_exit_code c (kern s)"
proof -
  let ?p = "hello_code msg c" and ?e = "exec_one nested 0x400000 tmp"
  define s1 where "s1 = (load_reg 0xB8 (ucast (60 :: u32)) s)\<lparr>rip := 0x400000 + of_nat 27\<rparr>"
  define s2 where "s2 = (load_reg 0xBF (ucast c) s1)\<lparr>rip := 0x400000 + of_nat 32\<rparr>"
  define s3 where "s3 = s2\<lparr>kern := mark_exit_code c (kern s2), rax := 0, rip := 0x400000 + of_nat 34\<rparr>"
  have e1: "?e s = Done False s1"
    using run_mov [OF assms(1), where op = "0xB8" and v = "60" and nested = nested and tmp = tmp]
      hello_bytes [of msg c] by (simp add: s1_def)
  have a1: "at_byte ?p 27 s1" by (rule at_byte_next [OF assms(1)]) (simp_all add: s1_def load_reg_def)
  have e2: "?e s1 = Done False s2"
    using run_mov [OF a1, where op = "0xBF" and v = c and nested = nested and tmp = tmp]
      hello_bytes [of msg c] by (simp add: s2_def)
  have a2: "at_byte ?p 32 s2" by (rule at_byte_next [OF a1]) (simp_all add: s2_def load_reg_def)
  have r: "rax s2 = 60" "rdi s2 = ucast c" "rip s2 = 0x400020"
    by (simp_all add: s2_def s1_def load_reg_def)
  have "handle_syscall nested 0x400000 tmp s2 =
      ret_rax True 0 (s2\<lparr>kern := mark_exit_code c (kern s2)\<rparr>)"
    using r by (simp add: handle_syscall_def dispatch_def sys_nrs mark_exit_code_def ucast_ucast_same Let_def)
  then have e3: "?e s2 = Done True s3"
    using run_syscall [OF a2, of nested tmp] hello_bytes [of msg c] r(3)
    by (simp add: ret_rax_def s3_def checked_add_u64_def)
  have "run_steps ?e n s = Done () s3"
    using assms(2) run_steps_next(1) [where step = ?e, OF e1, of n] run_steps_next(1) [where step = ?e, OF e2, of "n - 1"]
      run_steps_next(2) [where step = ?e, OF e3, of "n - 2"] by (simp add: numeral_2_eq_2)
  then show ?thesis
    by (intro exI [of _ s3]) (simp add: s3_def s2_def s1_def load_reg_def)
qed

section \<open>Its loading\<close>

lemma hello_parse:
  assumes "length msg < 0x1000000"
  shows "parse_elf64 (hello_elf msg c) =
    Inr \<lparr>entry = 0x400000, e_type = 2, segments = [load_segment (hello_header msg)]\<rparr>"
  using parse_encode [of "[hello_header msg]" "hello_code msg c" 2 "0x400000"] assms
  by (simp add: hello_elf_def hello_header_def)

lemma hello_payload: "sub_slice 120 (length msg + 40) (hello_elf msg c) = hello_code msg c"
  by (simp add: hello_elf_def encode_elf_def sub_slice_def str_def)

lemma length_hello_elf: "length (hello_elf msg c) = length msg + 160"
  by (simp add: hello_elf_def encode_elf_def str_def)

text \<open>The memory of the program before the stack is built.\<close>

lemma hello_copied:
  assumes "length msg < 0x1000000"
  shows "copy_segments (hello_elf msg c) 0x400000 [load_segment (hello_header msg)]
      (replicate (length msg + 40 + STACK_SIZE) 0) =
    Done () (hello_code msg c @ replicate STACK_SIZE 0)"
proof -
  have n: "unat (of_nat (length msg + 40) :: u64) = length msg + 40"
    using assms by (intro unat_of_nat_u64) linarith
  have "put_slice (replicate (length msg + 40 + STACK_SIZE) 0) 0 (hello_code msg c) =
      hello_code msg c @ replicate STACK_SIZE 0"
    by (simp add: put_slice_def)
  then show ?thesis
    using assms hello_payload [of msg c] length_hello_elf [of msg c]
    by (simp add: load_segment_def hello_header_def n saturating_add_usize_def Let_def
        del: of_nat_add of_nat_Suc)
qed

lemma hello_range:
  assumes "length msg < 0x100000"
  shows "vaddr_range [load_segment (hello_header msg)] = (0x400000, 0x400000 + of_nat (length msg + 40))"
    "\<not> (0x400000 + of_nat (length msg + 40) :: u64) \<le> 0x400000"
    "unat (0x400000 + of_nat (length msg + 40) - 0x400000 :: u64) = length msg + 40"
proof -
  have n: "unat (of_nat (length msg + 40) :: u64) = length msg + 40"
    using assms by (intro unat_of_nat_u64) linarith
  have u: "unat (0x400000 + of_nat (length msg + 40) :: u64) = 0x400000 + (length msg + 40)"
  proof -
    have "(0x400000 + of_nat (length msg + 40) :: u64) = of_nat (0x400000 + (length msg + 40))" by simp
    then show ?thesis using assms by (simp only:) (intro unat_of_nat_u64, linarith)
  qed
  show "\<not> (0x400000 + of_nat (length msg + 40) :: u64) \<le> 0x400000"
    unfolding word_le_nat_alt u by simp
  show "unat (0x400000 + of_nat (length msg + 40) - 0x400000 :: u64) = length msg + 40"
    unfolding add_diff_cancel_left' by (rule n)
  show "vaddr_range [load_segment (hello_header msg)] = (0x400000, 0x400000 + of_nat (length msg + 40))"
    using assms n by (simp add: vaddr_range_def load_segment_def hello_header_def max_def
        min.absorb2 saturating_add_u64_def del: of_nat_add of_nat_Suc)
qed

lemma hello_stack_top:
  assumes "n < 0x200000"
  shows "\<exists>top. unat top = 0x400000 + n + 131056 \<and>
    Option.bind (checked_add_u64 0x400000 (of_nat (n + 131072))) (\<lambda>t. checked_sub_u64 t 0x10) = Some top"
proof -
  define top :: u64 where "top = of_nat (0x400000 + n + 131056)"
  have st: "unat top = 0x400000 + n + 131056"
    unfolding top_def using assms by (intro unat_of_nat_u64) linarith
  have m: "unat (of_nat (n + 131072) :: u64) = n + 131072"
    using assms by (intro unat_of_nat_u64) linarith
  have t: "0x400000 + of_nat (n + 131072) = top + 0x10" by (simp add: top_def)
  have "unat (top + 0x10) = unat top + 0x10"
    using st assms by (simp add: unat_word_ariths)
  then have "checked_sub_u64 (top + 0x10) 0x10 = Some top"
    by (simp add: checked_sub_u64_def word_le_nat_alt)
  moreover have "checked_add_u64 0x400000 (of_nat (n + 131072)) = Some (0x400000 + of_nat (n + 131072))"
    using m assms by (simp add: checked_add_u64_def del: of_nat_add of_nat_Suc)
  ultimately show ?thesis using st unfolding t by (intro exI [of _ top]) (simp add: t)
qed

text \<open>
  For every message of less than a megabyte, every exit code, and argument and environment
  strings that fit the stack, the interpreter ends, the screen shows what it showed and then
  exactly the message, and the kernel is as it was but for the exit code.
\<close>

lemma hello_run:
  assumes "length msg < 0x100000" "stack_room argv envp \<le> 131056"
  shows "run_linux_elf_with_args (Suc d) tmp (hello_elf msg c) argv envp (scr, k) =
    Done () (scr @ msg, mark_exit_code c k)"
proof -
  let ?n = "length msg + 40"
  let ?mem = "hello_code msg c @ replicate STACK_SIZE 0"
  let ?nested = "run_linux_elf_with_args d tmp"
  have len: "length ?mem = ?n + 131072" by (simp add: STACK_SIZE_def)
  obtain stack_top where st: "unat stack_top = 0x400000 + ?n + 131056"
    and tos: "Option.bind (checked_add_u64 0x400000 (of_nat (length ?mem))) (\<lambda>t. checked_sub_u64 t 0x10) = Some stack_top"
    using hello_stack_top [of ?n] assms(1) len by fastforce
  obtain sp mem where b: "build_initial_stack 0x400000 stack_top argv envp ?mem = Done sp mem"
      "take ?n mem = take ?n ?mem" "length mem = length ?mem"
    using build_stack_above [of "0x400000" ?n argv envp stack_top ?mem] assms st len by auto
  let ?s = "start_cpu sp 0x400000 mem (scr, k)"
  have "at_byte (hello_code msg c) 0 ?s"
    using b(2) assms(1) by (simp add: at_byte_def start_cpu_def)
  from hello_to_write [OF this, of MAX_STEPS ?nested tmp] obtain s1 where
    s1: "run_steps (exec_one ?nested 0x400000 tmp) MAX_STEPS ?s =
        run_steps (exec_one ?nested 0x400000 tmp) (MAX_STEPS - 4) s1"
    and a1: "at_byte (hello_code msg c) 20 s1" "rax s1 = 1" "rdi s1 = 1" "rsi s1 = 0x400028"
      "rdx s1 = ucast (of_nat (length msg) :: u32)"
    and v1: "screen s1 = scr" "kern s1 = k" "gmem s1 = mem"
    by (auto simp: MAX_STEPS_def start_cpu_def)
  have "length msg + 40 < length (gmem s1)" using v1(3) b(3) len by simp
  from hello_writes [OF a1 this, of ?nested tmp] obtain s2 where
    s2: "exec_one ?nested 0x400000 tmp s1 = Done False s2" "at_byte (hello_code msg c) 22 s2"
      "screen s2 = scr @ msg" "kern s2 = k"
    using v1 by auto
  from hello_exits [OF s2(2), of "MAX_STEPS - 5" ?nested tmp] obtain s3 where
    s3: "run_steps (exec_one ?nested 0x400000 tmp) (MAX_STEPS - 5) s2 = Done () s3"
      "screen s3 = scr @ msg" "kern s3 = mark_exit_code c k"
    using s2(3,4) by (auto simp: MAX_STEPS_def)
  have "run_steps (exec_one ?nested 0x400000 tmp) MAX_STEPS ?s = Done () s3"
    using s1 s3(1) run_steps_next(1) [where step = "exec_one ?nested 0x400000 tmp", OF s2(1), of "MAX_STEPS - 4"] by (simp add: MAX_STEPS_def)
  moreover have "checked_add_usize ?n STACK_SIZE = Some (?n + STACK_SIZE)"
    using assms(1) by (simp add: checked_add_usize_def STACK_SIZE_def)
  ultimately show ?thesis
    using assms(1) hello_range [OF assms(1)] hello_parse [of msg c] hello_copied [of msg c] tos b(1) s3
    by (simp add: load_and_run_def MAX_INTERP_MEM_def Let_def del: copy_segments.simps)
qed

end
