(* ===== verification/Native_Progress.thy ===== *)
theory Native_Progress
  imports Native_Run
begin

text \<open>
  When a program is started: the conditions on its file, on the memory it is given and on the
  page tables under which every stage of \<open>run_native_elf_with_args\<close> succeeds.
\<close>

section \<open>Stages that succeed\<close>

text \<open>What the stages before the last do not touch.\<close>

definition paging :: "'p system \<Rightarrow> 'p \<times> u64 option" where
  "paging s = (page_table s, phys_off s)"

lemma paging_updates [simp]:
  "paging (say m s) = paging s" "paging (s\<lparr>efer := v\<rparr>) = paging s" "paging (s\<lparr>star := v\<rparr>) = paging s"
  "paging (s\<lparr>lstar := v\<rparr>) = paging s" "paging (s\<lparr>sfmask := v\<rparr>) = paging s"
  "paging (s\<lparr>syscall_ready := b\<rparr>) = paging s" "paging (s\<lparr>serial_log := lg\<rparr>) = paging s"
  "paging (serial_text m s) = paging s"
  by (simp_all add: paging_def say_def serial_text_def)

lemma init_runs:
  "canonical p (syscall_entry p) \<Longrightarrow> \<exists>s'. init_syscall_path p s = Done () s' \<and> paging s' = paging s"
  by (cases "syscall_ready s") (auto simp: init_syscall_path_def Let_def)

text \<open>An image that the runner takes: its segments' address range and the buffer they fill.\<close>

definition loadable :: "bytes \<Rightarrow> ElfImage \<Rightarrow> u64 \<Rightarrow> nat \<Rightarrow> bytes \<Rightarrow> bool" where
  "loadable img elf lo n buf \<longleftrightarrow>
     parse_elf64 img = Inr elf \<and> segments elf \<noteq> [] \<and> length (segments elf) \<le> 16 \<and> e_type elf \<noteq> 2 \<and>
     fst (vaddr_range (segments elf)) = lo \<and> lo < snd (vaddr_range (segments elf)) \<and>
     unat (snd (vaddr_range (segments elf)) - lo) = n \<and> n \<le> MAX_NATIVE_MEM \<and>
     copy_segments img lo (segments elf) (replicate (n + NATIVE_STACK_SIZE) 0) = Done () buf \<and>
     lo \<le> entry elf \<and> unat (entry elf - lo) < n"

lemma check_runs:
  "loadable img elf lo n buf \<Longrightarrow> \<exists>s'. native_check img s = Done (elf, lo, n) s' \<and> paging s' = paging s"
  by (cases "vaddr_range (segments elf)") (auto simp: native_check_def loadable_def Let_def)

lemma buffer_only_Done: "buffer_only r = Done () buf \<Longrightarrow> \<exists>lg. r = Done () (buf, lg)"
  by (cases r) auto

lemma copy_segments_length:
  "copy_segments img lo segs mem = Done u mem' \<Longrightarrow> length mem' = length mem"
proof (induction segs arbitrary: mem)
  case (Cons seg segs)
  have "length (put_slice mem i (sub_slice j n img)) = length mem" if "i + n \<le> length mem" for i j n
    using that by (simp add: put_slice_def sub_slice_def)
  with Cons show ?case by (auto simp: Let_def split: if_splits)
qed simp

text \<open>The room for the image below the end of the address space.\<close>

definition roomy :: "'p platform \<Rightarrow> nat \<Rightarrow> u64 \<Rightarrow> bool" where
  "roomy p n base \<longleftrightarrow>
     image_addr p (n + NATIVE_STACK_SIZE) = Some base \<and> unat base + n + NATIVE_STACK_SIZE < usize_bound"

lemma stack_top_runs:
  assumes "length buf = n" "32 \<le> n" "unat base + n < usize_bound"
  shows "\<exists>tos. Option.bind (checked_add_u64 base (of_nat (length buf))) (\<lambda>t. checked_sub_u64 t 0x10) = Some tos \<and>
    unat tos = unat base + n - 16"
proof -
  have l: "unat (of_nat n :: u64) = n" using assms(3) by (intro unat_of_nat_u64) linarith
  then have a: "checked_add_u64 base (of_nat n) = Some (base + of_nat n)" "unat (base + of_nat n) = unat base + n"
    using assms(3) by (simp_all add: checked_add_u64_def unat_word_ariths)
  have le: "(0x10 :: u64) \<le> base + of_nat n" using a(2) assms(2) by (simp add: word_le_nat_alt)
  then have "unat (base + of_nat n - 0x10) = unat base + n - 16" using a(2) by (simp add: unat_sub)
  then show ?thesis using assms(1) a(1) le by (simp add: checked_sub_u64_def)
qed

lemma image_runs:
  assumes "loadable img elf lo n buf" "roomy p n base" "stack_room argv envp \<le> NATIVE_STACK_SIZE - 16"
  shows "\<exists>mem sp s'. native_image p img argv envp elf lo n s = Done (base, mem, sp) s' \<and>
    length mem = n + NATIVE_STACK_SIZE \<and> paging s' = paging s"
proof -
  let ?tot = "n + NATIVE_STACK_SIZE"
  have n: "n \<le> MAX_NATIVE_MEM" and cp: "copy_segments img lo (segments elf) (replicate ?tot 0) = Done () buf"
    using assms(1) by (simp_all add: loadable_def)
  have len: "length buf = ?tot" using copy_segments_length [OF cp] by simp
  have tot: "checked_add_usize n NATIVE_STACK_SIZE = Some ?tot"
    using n by (simp add: checked_add_usize_def MAX_NATIVE_MEM_def NATIVE_STACK_SIZE_def)
  have copied: "\<exists>lg'. native_copy_segments img lo 0 (segments elf) (replicate ?tot 0, lg) = Done () (buf, lg')" for lg
    using native_copy_eq [of img lo 0 "segments elf" "replicate ?tot 0" lg] cp
    by (intro buffer_only_Done) simp
  have small: "length buf < u32_bound" "32 \<le> ?tot" "unat base + ?tot < usize_bound"
    using n len assms(2) by (simp_all add: MAX_NATIVE_MEM_def NATIVE_STACK_SIZE_def roomy_def)
  obtain tos where tos: "Option.bind (checked_add_u64 base (of_nat (length buf))) (\<lambda>t. checked_sub_u64 t 0x10) = Some tos"
      "unat tos = unat base + ?tot - 16"
    using stack_top_runs [OF len small(2,3)] by blast
  have "unat base + stack_room argv envp \<le> unat tos" "unat tos \<le> unat base + length buf"
    using tos(2) assms(3) len by (simp_all add: NATIVE_STACK_SIZE_def)
  then obtain sp mem where st: "build_initial_stack base tos argv envp buf = Done sp mem"
    using build_stack_room small(1) by blast
  have "length mem = length buf"
    using build_stack_done [OF st small(1)] tos(2) len by (auto simp: NATIVE_STACK_SIZE_def)
  moreover from copied obtain lg' where "native_copy_segments img lo 0 (segments elf)
      (replicate ?tot 0, serial_log (say (str ''step: copy segments begin'')
        (say (str ''step: alloc image memory done'') (say (str ''step: alloc image memory begin'') s)))) =
      Done () (buf, lg')" by blast
  ultimately show ?thesis
    using assms(2) tot tos(1) st len
    by (auto simp: native_image_def roomy_def native_stack_eq Let_def)
qed

lemma entry_runs:
  assumes "loadable img elf lo n buf" "length mem = n + NATIVE_STACK_SIZE"
    "unat base + n + NATIVE_STACK_SIZE < usize_bound"
  shows "\<exists>e s'. native_entry_point elf lo base mem s = Done e s' \<and> paging s' = paging s"
proof -
  let ?off = "entry elf - lo"
  have off: "lo \<le> entry elf" "unat ?off < n" using assms(1) by (simp_all add: loadable_def)
  have u: "unat (base + ?off) = unat base + unat ?off"
    using off(2) assms(3) by (simp add: unat_word_ariths)
  then have b: "base \<le> base + ?off" by (simp add: word_le_nat_alt)
  have "native_va_to_index base mem (base + ?off) = Inr (unat ?off)"
    using b off(2) assms(2) by (simp add: native_va_to_index_def)
  then show ?thesis
    using off assms(3) by (auto simp: native_entry_point_def checked_sub_u64_def checked_add_u64_def Let_def)
qed

section \<open>Opening pages\<close>

text \<open>Page tables whose mapped pages can be changed.\<close>

definition updatable :: "'p platform \<Rightarrow> bool" where
  "updatable p \<longleftrightarrow> (\<forall>t a f. translate p t a \<noteq> None \<longrightarrow> update_flags p t a f \<noteq> None)"

lemma open_pages_runs:
  assumes "mapper_ok p" "updatable p"
  shows "\<forall>a \<in> set as. page_of a = a \<and> translate p (page_table s) a \<noteq> None \<Longrightarrow>
    \<exists>s'. open_pages p as s = Done () s'"
proof (induction as arbitrary: s)
  case (Cons a as)
  then obtain f where f: "translate p (page_table s) a = Some f" "page_of a = a" by auto
  show ?case
  proof (cases "f AND NO_EXECUTE = 0")
    case True
    with Cons f show ?thesis by simp
  next
    case False
    obtain t where t: "update_flags p (page_table s) a (f AND NOT NO_EXECUTE) = Some t"
      using assms(2) f(1) by (fastforce simp: updatable_def)
    then have "\<forall>b \<in> set as. page_of b = b \<and> translate p t b \<noteq> None"
      using assms(1) Cons.prems f(2) by (auto simp: mapper_ok_def)
    with Cons.IH [of "s\<lparr>page_table := t\<rparr>"] f t False show ?thesis by simp
  qed
qed simp

lemma region_runs:
  assumes "mapper_ok p" "updatable p" "len \<noteq> 0" "unat base + len < usize_bound"
    "phys_off s = Some off" "canonical p off" "canonical p base" "canonical p (base + of_nat len - 1)"
    "\<forall>x. unat (x - base) < len \<longrightarrow> translate p (page_table s) (page_of x) \<noteq> None"
  shows "\<exists>s'. ensure_region_executable p base len s = Done () s'"
proof -
  let ?z = "base + of_nat len - 1"
  have l: "unat (of_nat len :: u64) = len" using assms(4) by (intro unat_of_nat_u64) linarith
  then have u: "unat (base + of_nat len) = unat base + len" using assms(4) by (simp add: unat_word_ariths)
  have add: "checked_add_u64 base (of_nat len) = Some (base + of_nat len)"
    using l assms(4) by (simp add: checked_add_u64_def)
  have "checked_sub_u64 (base + of_nat len) 1 = Some ?z"
    using u assms(3) by (simp add: checked_sub_u64_def word_le_nat_alt)
  with add have z: "Option.bind (checked_add_u64 base (of_nat len)) (\<lambda>v. checked_sub_u64 v 1) = Some ?z" by simp
  have len: "len < usize_bound" using assms(4) by linarith
  note region = region_addresses [OF assms(3) z len]
  have "page_of a = a \<and> translate p (page_table s) a \<noteq> None"
    if "a \<in> set (pages_between (page_of base) (page_of ?z))" for a
  proof -
    have a: "page_of a = a" "page_of base \<le> a" "a \<le> page_of ?z"
      using that by (simp_all add: pages_between_iff [OF region(1)])
    then obtain x where "base \<le> x" "x \<le> ?z" "page_of x = a"
      using region_pages [OF region(1) a(1)] by blast
    with region(2) assms(9) a(1) show ?thesis by blast
  qed
  then obtain s' where "open_pages p (pages_between (page_of base) (page_of ?z)) s = Done () s'"
    using open_pages_runs [OF assms(1,2)] by blast
  then show ?thesis using assms(3,5-8) z by (auto simp: ensure_region_executable_def)
qed

section \<open>Starting\<close>

text \<open>A platform with room for an image of \<open>n\<close> bytes and its stack at \<open>base\<close>, in mapped pages.\<close>

definition has_room :: "'p platform \<Rightarrow> 'p system \<Rightarrow> nat \<Rightarrow> u64 \<Rightarrow> bool" where
  "has_room p s n base \<longleftrightarrow>
     mapper_ok p \<and> updatable p \<and> roomy p n base \<and> canonical p (syscall_entry p) \<and>
     (\<exists>off. phys_off s = Some off \<and> canonical p off) \<and> canonical p base \<and>
     canonical p (base + of_nat (n + NATIVE_STACK_SIZE) - 1) \<and>
     (\<forall>x. unat (x - base) < n + NATIVE_STACK_SIZE \<longrightarrow> translate p (page_table s) (page_of x) \<noteq> None)"

lemma native_starts:
  assumes "loadable img elf lo n buf" "has_room p s n base" "stack_room argv envp \<le> NATIVE_STACK_SIZE - 16"
  shows "\<exists>mem e sp s'. run_native_elf_with_args p img argv envp s = native_start p base mem e sp s'"
proof -
  let ?tot = "n + NATIVE_STACK_SIZE"
  let ?s = "say (str ''step: init syscall path begin'') (say (str ''step: enter runner'') s)"
  have room: "roomy p n base" "unat base + n + NATIVE_STACK_SIZE < usize_bound"
    using assms(2) by (simp_all add: has_room_def roomy_def)
  obtain s1 where s1: "init_syscall_path p ?s = Done () s1" "paging s1 = paging s"
    using init_runs [of p ?s] assms(2) by (auto simp: has_room_def)
  obtain s2 where s2: "native_check img (say (str ''step: init syscall path done'') s1) = Done (elf, lo, n) s2"
      "paging s2 = paging s"
    using check_runs [OF assms(1), of "say (str ''step: init syscall path done'') s1"] s1 by auto
  obtain mem sp s3 where s3: "native_image p img argv envp elf lo n s2 = Done (base, mem, sp) s3"
      "length mem = ?tot" "paging s3 = paging s"
    using image_runs [OF assms(1) room(1) assms(3), of s2] s2 by auto
  obtain e s4 where s4: "native_entry_point elf lo base mem s3 = Done e s4" "paging s4 = paging s"
    using entry_runs [OF assms(1) s3(2) room(2), of s3] s3 by auto
  let ?s4 = "say (str ''step: make native pages executable begin'') s4"
  have pg: "page_table ?s4 = page_table s" "phys_off ?s4 = phys_off s"
    using s4(2) by (simp_all add: paging_def say_def)
  have "\<exists>s5. ensure_region_executable p base ?tot ?s4 = Done () s5"
    using assms(2) room(2) pg by (auto simp: has_room_def NATIVE_STACK_SIZE_def intro!: region_runs)
  then obtain s5 where "ensure_region_executable p base (length mem) ?s4 = Done () s5"
    unfolding s3(2) by blast
  with s1(1) s2(1) s3(1) s4(1) show ?thesis
    by (auto simp: run_native_elf_with_args_def Let_def)
qed

text \<open>A program that stores to memory for a while and then exits.\<close>

definition exits :: "event list \<Rightarrow> bool" where
  "exits es \<longleftrightarrow> (\<exists>ws nr a0 a1 a2 a3 a4 rest. es = map (\<lambda>(a, bs). Store a bs) ws @ Call nr a0 a1 a2 a3 a4 # rest \<and>
     (nr = 60 \<or> nr = 231))"

lemma run_program_stores:
  "\<exists>k. run_program (map (\<lambda>(a, bs). Store a bs) ws @ es) s = run_program es (s\<lparr>skern := k\<rparr>)"
proof (induction ws arbitrary: s)
  case Nil
  show ?case by (intro exI [of _ "skern s"]) simp
next
  case (Cons w ws)
  show ?case using Cons [of "s\<lparr>skern := poke (fst w) (snd w) (skern s)\<rparr>"]
    by (cases w) auto
qed

lemma exits_returns: "exits es \<Longrightarrow> \<exists>s'. run_program es s = Done () s'"
proof -
  assume "exits es"
  then obtain ws nr a0 a1 a2 a3 a4 rest where
    es: "es = map (\<lambda>(a, bs). Store a bs) ws @ Call nr a0 a1 a2 a3 a4 # rest" "nr = 60 \<or> nr = 231"
    by (auto simp: exits_def)
  from run_program_stores [of ws "Call nr a0 a1 a2 a3 a4 # rest" s] es show ?thesis by auto
qed

lemma and_then_returns:
  "\<exists>s'. r = Done () s' \<Longrightarrow> (\<And>s. \<exists>s'. f () s = Done () s') \<Longrightarrow> \<exists>s'. and_then r f = Done () s'"
  by fastforce

lemma start_returns:
  assumes "\<And>e sp s. exits (program p e sp s)"
  shows "\<exists>s'. native_start p base mem e sp s = Done () s'"
  unfolding native_start_def Let_def
  by (rule and_then_returns [OF exits_returns [OF assms]]) simp

lemma native_returns:
  assumes "loadable img elf lo n buf" "has_room p s n base" "stack_room argv envp \<le> NATIVE_STACK_SIZE - 16"
    "\<And>e sp s. exits (program p e sp s)"
  shows "\<exists>s'. run_native_elf_with_args p img argv envp s = Done () s'"
  using native_starts [OF assms(1-3)] start_returns [OF assms(4)] by metis

text \<open>An image of two bytes at address 0, and the conditions on it.\<close>

definition tiny_header :: Elf64Phdr where
  "tiny_header = \<lparr>p_type = PT_LOAD, p_flags = 5, p_offset = 120, p_vaddr = 0, p_paddr = 0,
     p_filesz = 2, p_memsz = 2, p_align = 0x1000\<rparr>"

definition tiny_elf :: bytes where
  "tiny_elf = encode_elf 3 0 [tiny_header] [0x0F, 0x05]"

lemma tiny_loadable:
  "loadable tiny_elf \<lparr>entry = 0, e_type = 3, segments = [load_segment tiny_header]\<rparr> 0 2
     ([0x0F, 0x05] @ replicate NATIVE_STACK_SIZE 0)"
proof -
  let ?elf = "\<lparr>entry = 0, e_type = 3, segments = [load_segment tiny_header]\<rparr>"
  have p: "parse_elf64 tiny_elf = Inr ?elf"
    using parse_encode [of "[tiny_header]" "[0x0F, 0x05]" 3 0] by (simp add: tiny_elf_def tiny_header_def)
  have r: "vaddr_range (segments ?elf) = (0, 2)"
    by (simp add: vaddr_range_def load_segment_def tiny_header_def max_def saturating_add_u64_def)
  have slice: "sub_slice 120 2 tiny_elf = [0x0F, 0x05]" "length tiny_elf = 122"
    by (simp_all add: tiny_elf_def encode_elf_def sub_slice_def str_def)
  have "put_slice (replicate (2 + NATIVE_STACK_SIZE) 0) 0 [0x0F, 0x05] =
      [0x0F, 0x05] @ replicate NATIVE_STACK_SIZE (0 :: u8)"
    by (simp add: put_slice_def)
  then have "copy_segments tiny_elf 0 (segments ?elf) (replicate (2 + NATIVE_STACK_SIZE) 0) =
      Done () ([0x0F, 0x05] @ replicate NATIVE_STACK_SIZE 0)"
    using slice by (simp add: load_segment_def tiny_header_def saturating_add_usize_def)
  with p r show ?thesis by (simp add: loadable_def MAX_NATIVE_MEM_def)
qed

lemma demo_room:
  assumes "page_table s = demo_table" "phys_off s = Some 0x10000000000"
  shows "has_room (demo_platform es) s 2 0x200800"
proof -
  have "translate (demo_platform es) demo_table (page_of x) \<noteq> None"
    if x: "unat (x - 0x200800) < 2 + NATIVE_STACK_SIZE" for x
  proof -
    have "unat (0x200800 + (x - 0x200800)) \<le> 0x200800 + unat (x - 0x200800)"
      unfolding unat_word_ariths(1) by (rule order_trans [OF mod_less_eq_dividend]) simp
    then have "unat x \<le> 0x200800 + unat (x - 0x200800)" by simp
    then have "unat x < 0x1000000" using x by (simp add: NATIVE_STACK_SIZE_def)
    then have "page_of x < 0x1000000" using page_of_le [of x] by (simp add: word_less_nat_alt word_le_nat_alt)
    then show ?thesis by (simp add: demo_platform_def demo_table_def)
  qed
  then show ?thesis
    using demo_mapper [of es] assms
    by (simp add: has_room_def updatable_def roomy_def)
      (simp add: demo_platform_def NATIVE_STACK_SIZE_def)
qed

section \<open>Properties\<close>





end
