(* ===== verification/Run_Command.thy ===== *)
theory Run_Command
  imports Commands_Props Shell_Props Format_Props Hello Native_Progress
begin

text \<open>
  The commands end to end: from the keys typed at the prompt over the ram disk, the loaders
  and the interpreter to what the terminal shows.
\<close>

section \<open>The keyboard of the system\<close>

definition type_ahead :: "u8 option list \<Rightarrow> 'p system \<Rightarrow> 'p system" where
  "type_ahead ps s = s\<lparr>skern := set_stdin_reader ps (skern s)\<rparr>"

interpretation console: polled_keyboard read_key type_ahead
  by unfold_locales (simp_all add: read_key_def type_ahead_def process_def set_stdin_reader_def)

section \<open>Which command it is\<close>

definition is_run :: "bytes \<Rightarrow> bool" where
  "is_run cmd \<longleftrightarrow> cmd = str ''runelf'' \<or> (\<exists>rest. cmd = str ''run '' @ rest)"

lemma run_target_is_run: "run_target cmd = Some x \<Longrightarrow> is_run cmd"
proof -
  assume "run_target cmd = Some x"
  then have "cmd = str ''runelf'' \<or> strip_prefix (str ''run '') cmd \<noteq> None"
    by (auto simp: run_target_def split: option.splits if_splits)
  then show ?thesis
    unfolding is_run_def strip_prefix_def by (metis append_take_drop_id)
qed

lemma is_run_other:
  assumes "is_run cmd"
  shows "cmd \<noteq> []" "cmd \<noteq> str ''help''" "cmd \<noteq> str ''about''" "cmd \<noteq> str ''clear''" "cmd \<noteq> str ''halt''"
    "cmd \<noteq> str ''echo''" "cmd \<noteq> str ''ramdisk''" "cmd \<noteq> str ''ls''" "cmd \<noteq> str ''posix''"
    "cmd \<noteq> str ''syscall''" "cmd \<noteq> str ''busybox''" "cmd \<noteq> str ''syscap''"
    "strip_prefix (str ''echo '') cmd = None" "strip_prefix (str ''stat '') cmd = None"
    "strip_prefix (str ''cat '') cmd = None" "elf_target cmd = None"
proof -
  have "\<exists>rest. cmd = 0x72 # 0x75 # 0x6E # rest"
    using assms by (auto simp: is_run_def str_def)
  then obtain rest where c: "cmd = 0x72 # 0x75 # 0x6E # rest" by blast
  show "cmd \<noteq> []" "cmd \<noteq> str ''help''" "cmd \<noteq> str ''about''" "cmd \<noteq> str ''clear''" "cmd \<noteq> str ''halt''"
    "cmd \<noteq> str ''echo''" "cmd \<noteq> str ''ramdisk''" "cmd \<noteq> str ''ls''" "cmd \<noteq> str ''posix''"
    "cmd \<noteq> str ''syscall''" "cmd \<noteq> str ''busybox''" "cmd \<noteq> str ''syscap''"
    "strip_prefix (str ''echo '') cmd = None" "strip_prefix (str ''stat '') cmd = None"
    "strip_prefix (str ''cat '') cmd = None" "elf_target cmd = None"
    by (simp_all add: c strip_prefix_def str_def elf_target_def)
qed

lemma exec_run:
  "is_run (trim input) \<Longrightarrow> exec_command h input s =
     and_then (h (trim input) s) (\<lambda>handled s.
       if handled then Done () s
       else Done () (process [0x0A] (process (trim input) (process (str ''unknown command: '') s))))"
  by (simp add: exec_command_def is_run_other Let_def)

lemma handle_run:
  assumes "run_target cmd = Some (name, args)"
  shows "handle_custom_command h cmd s = and_then (cmd_run h name args s) (\<lambda>_. Done True)"
  using is_run_other [OF run_target_is_run [OF assms]]
  by (simp add: handle_custom_command_def assms)

lemma split_graphic: "graphic w \<Longrightarrow> split_ws_once w = (w, None)"
proof (induction w)
  case (Cons b w)
  then have "ws_front (b # w) = None"
    by (cases "b # w" rule: ws_front.cases) (auto simp: graphic_def graphic_not_ws)
  with Cons show ?case by (simp add: graphic_def)
qed simp

text \<open>\<open>run\<close> with the name of a program.\<close>

lemma run_target_word:
  assumes "graphic w" "w \<noteq> []"
  shows "run_target (trim (str ''run '' @ w)) = Some (w, [])"
proof -
  have "graphic [last w]" using assms by (simp add: graphic_def)
  then have t: "trim (str ''run '' @ w) = str ''run '' @ w"
    using assms(2) by (intro trim_bounded) (simp_all add: str_def graphic_def)
  show ?thesis
    unfolding t using assms by (simp add: run_target_def strip_prefix_def graphic_trim split_graphic)
qed

section \<open>What is not a command\<close>

definition command_words :: "bytes list" where
  "command_words = map str [''help'', ''about'', ''clear'', ''halt'', ''echo'', ''ramdisk'', ''ls'',
     ''posix'', ''syscall'', ''busybox'', ''syscap'', ''elf'', ''runelf'']"

definition command_prefixes :: "bytes list" where
  "command_prefixes = map str [''echo '', ''stat '', ''cat '', ''elf '', ''run '']"

definition is_command :: "bytes \<Rightarrow> bool" where
  "is_command cmd \<longleftrightarrow> cmd \<in> set command_words \<or> (\<exists>p \<in> set command_prefixes. strip_prefix p cmd \<noteq> None)"

lemma not_command:
  assumes "\<not> is_command cmd"
  shows "elf_target cmd = None" "run_target cmd = None"
    "handle_custom_command h cmd s = Done True (put_line (str ''run: ramdisk not loaded'') s)"
proof -
  have n: "cmd \<noteq> str w" if "w \<in> {''ramdisk'', ''ls'', ''posix'', ''syscall'', ''busybox'', ''syscap'', ''elf'', ''runelf''}" for w
    using assms that by (auto simp: is_command_def command_words_def)
  have p: "strip_prefix (str w) cmd = None" if "w \<in> {''stat '', ''cat '', ''elf '', ''run ''}" for w
    using assms that by (auto simp: is_command_def command_prefixes_def)
  show t: "elf_target cmd = None" "run_target cmd = None"
    by (simp_all add: elf_target_def run_target_def n p)
  show "handle_custom_command h cmd s = Done True (put_line (str ''run: ramdisk not loaded'') s)"
    by (simp add: handle_custom_command_def n p t)
qed

lemma exec_not_command:
  assumes "trim input \<noteq> []" "\<not> is_command (trim input)"
  shows "exec_command (handle_custom_command h) input s =
    Done () (put_line (str ''run: ramdisk not loaded'') s)"
proof -
  have n: "trim input \<noteq> str w" if "w \<in> {''help'', ''about'', ''clear'', ''halt'', ''echo''}" for w
    using assms(2) that by (auto simp: is_command_def command_words_def)
  have p: "strip_prefix (str ''echo '') (trim input) = None"
    using assms(2) by (auto simp: is_command_def command_prefixes_def)
  show ?thesis by (simp add: exec_command_def Let_def assms(1) n p not_command(3) [OF assms(2)])
qed

text \<open>Every command counts as handled.\<close>

fun counts_handled :: "('e, 's, bool) run \<Rightarrow> bool" where
  "counts_handled (Done b s) = b"
| "counts_handled _ = True"

lemma handled_branches:
  "counts_handled x \<Longrightarrow> counts_handled y \<Longrightarrow> counts_handled (if c then x else y)"
  "counts_handled x \<Longrightarrow> (\<And>a. counts_handled (f a)) \<Longrightarrow> counts_handled (case v of None \<Rightarrow> x | Some a \<Rightarrow> f a)"
  "(\<And>a b. counts_handled (g a b)) \<Longrightarrow> counts_handled (case w of (a, b) \<Rightarrow> g a b)"
  "counts_handled (Done True s)" "counts_handled (and_then r (\<lambda>_. Done True))"
  by (simp_all split: option.split prod.split) (cases r; simp)

lemma always_handled: "counts_handled (handle_custom_command h cmd s)"
  unfolding handle_custom_command_def by (intro handled_branches)

text \<open>C28: the fallbacks of the command line, as they are: a line that is no command is answered
  with a missing ram disk, whether there is one or not; \<open>run\<close> without a ram disk is silent; and
  since every line counts as handled, the shell's own message for unknown commands never
  appears.\<close>

theorem command_fallbacks:
  "(trim input \<noteq> [] \<and> \<not> is_command (trim input) \<longrightarrow>
      exec_command (handle_custom_command h) input s =
        Done () (put_line (str ''run: ramdisk not loaded'') s)) \<and>
   (run_target (trim input) \<noteq> None \<and> ramdisk s = None \<longrightarrow>
      exec_command (handle_custom_command h) input s = Done () s) \<and>
   (handle_custom_command h cmd s = Done b s' \<longrightarrow> b)"
proof (intro conjI impI)
  show "exec_command (handle_custom_command h) input s = Done () (put_line (str ''run: ramdisk not loaded'') s)"
    if "trim input \<noteq> [] \<and> \<not> is_command (trim input)"
    using that exec_not_command by blast
  show "exec_command (handle_custom_command h) input s = Done () s"
    if r: "run_target (trim input) \<noteq> None \<and> ramdisk s = None"
  proof -
    obtain name args where t: "run_target (trim input) = Some (name, args)" using r by auto
    have "cmd_run h name args s = Done () s" using r by (simp add: cmd_run_def ramdisk_bytes_def)
    then show ?thesis
      unfolding exec_run [OF run_target_is_run [OF t]] handle_run [OF t] by simp
  qed
  show b if "handle_custom_command h cmd s = Done b s'"
    using always_handled [of h cmd s] that by simp
qed

theorem command_fallbacks_witness:
  "exec_command (handle_custom_command demo_host) (str ''lsof'') demo_system =
      Done () (put_line (str ''run: ramdisk not loaded'') demo_system) \<and>
   exec_command (handle_custom_command demo_host) (str ''run init'') demo_system = Done () demo_system \<and>
   handle_custom_command demo_host (str ''lsof'') demo_system =
     Done True (put_line (str ''run: ramdisk not loaded'') demo_system)"
proof -
  have g: "graphic (str ''lsof'')" "graphic (str ''init'')" "str ''init'' \<noteq> []" "str ''lsof'' \<noteq> []"
    by (simp_all add: str_def graphic_def)
  have c: "\<not> is_command (str ''lsof'')"
    by (simp add: is_command_def command_words_def command_prefixes_def strip_prefix_def str_def)
  have "str ''run init'' = str ''run '' @ str ''init''" by (simp add: str_def)
  then have r: "run_target (trim (str ''run init'')) \<noteq> None"
    using run_target_word [OF g(2,3)] by simp
  show ?thesis
    using command_fallbacks [of "str ''lsof''" demo_host demo_system]
      command_fallbacks [of "str ''run init''" demo_host demo_system] c r g not_command(3) [OF c]
    by (simp add: graphic_trim demo_system_def)
qed

section \<open>The ram disk at the prompt\<close>

lemma process_fold: "fold (\<lambda>x. process (f x)) xs s = process (concat (map f xs)) s"
  by (induction xs arbitrary: s) (simp_all add: process_def)

lemma exec_ls: "exec_command (handle_custom_command h) (str ''ls'') s = Done () (cmd_ls s)"
proof -
  have t: "trim (str ''ls'') = str ''ls''" by (rule graphic_trim) (simp add: str_def graphic_def)
  show ?thesis unfolding exec_command_def t Let_def
    by (simp add: handle_custom_command_def strip_prefix_def str_def)
qed

lemma exec_with_name:
  assumes "graphic name" "name \<noteq> []"
  shows "exec_command (handle_custom_command h) (str ''cat '' @ name) s = Done () (cmd_cat name s)"
    "exec_command (handle_custom_command h) (str ''stat '' @ name) s = Done () (cmd_stat name s)"
proof -
  have "graphic [last name]" using assms by (simp add: graphic_def)
  then have t: "trim (str ''cat '' @ name) = str ''cat '' @ name" "trim (str ''stat '' @ name) = str ''stat '' @ name"
    using assms(2) by (auto intro!: trim_bounded simp: str_def graphic_def)
  show "exec_command (handle_custom_command h) (str ''cat '' @ name) s = Done () (cmd_cat name s)"
    "exec_command (handle_custom_command h) (str ''stat '' @ name) s = Done () (cmd_stat name s)"
    unfolding exec_command_def t Let_def
    by (simp_all add: handle_custom_command_def strip_prefix_def str_def)
qed

text \<open>C27: the files at the prompt, end to end from the build: with a ram disk that the build script
  packed, \<open>ls\<close> shows one line per file, in order, with its mode in octal, its length and its
  name; \<open>cat\<close> shows the bytes the file had on the build host, a dot for each that is neither
  printable nor a line end, and \<open>stat\<close> its name, length and mode.\<close>

theorem shell_reads_ramdisk:
  assumes "lfs_files files" "build_lfs1 files = Some img" "ramdisk s = Some (addr, img)"
    "find (\<lambda>f. bf_name f = name) files = Some f" "graphic name"
  shows "exec_command (handle_custom_command h) (str ''ls'') s =
      Done () (process (concat (map (\<lambda>f. pad_left 0x20 6 (oct (unat (bf_mode f))) @ str '' '' @
        pad_left 0x20 8 (dec (length (bf_data f))) @ str '' '' @ bf_name f @ [0x0A]) files)) s) \<and>
    exec_command (handle_custom_command h) (str ''cat '' @ name) s =
      Done () (process (map (\<lambda>b. if b = 0x0A \<or> b = 0x0D \<or> 0x20 \<le> b \<and> b \<le> 0x7E then b else 0x2E)
        (bf_data f) @ [0x0A]) s) \<and>
    exec_command (handle_custom_command h) (str ''stat '' @ name) s =
      Done () (process (str ''name='' @ name @ str '' size='' @ dec (length (bf_data f)) @ str '' mode='' @
        oct (unat (bf_mode f)) @ [0x0A]) s)"
proof -
  have f: "bf_name f = name" "f \<in> set files"
    using assms(4) by (auto simp: find_Some_iff)
  then have n: "name \<noteq> []" using assms(1) by (auto simp: lfs_files_def)
  have rd: "ramdisk_bytes s = Some img" using assms(3) by (simp add: ramdisk_bytes_def)
  have o: "fs_open img (trim name) = Inr (record_of f)"
    using build_open [OF assms(1,2), of name] assms(4) graphic_trim [OF assms(5)] by simp
  have "fold (\<lambda>rec. put_line (ls_line rec)) (map record_of files) s =
      process (concat (map (\<lambda>f. ls_line (record_of f) @ [0x0A]) files)) s"
    unfolding put_line_def process_fold by (simp add: comp_def)
  then have ls: "cmd_ls s = process (concat (map (\<lambda>f. ls_line (record_of f) @ [0x0A]) files)) s"
    using build_list [OF assms(1,2)] by (simp add: cmd_ls_def rd)
  have "fold (\<lambda>b. process [cat_byte b]) (bf_data f) s = process (map cat_byte (bf_data f)) s"
    unfolding process_fold by (simp add: concat_map_singleton)
  then have cat: "cmd_cat name s = process (map cat_byte (bf_data f) @ [0x0A]) s"
    using o by (simp add: cmd_cat_def rd record_of_def process_def)
  have byte: "cat_byte = (\<lambda>b. if b = 0x0A \<or> b = 0x0D \<or> 0x20 \<le> b \<and> b \<le> 0x7E then b else 0x2E)"
    by (simp add: fun_eq_iff cat_byte_def LF_def CR_def)
  show ?thesis
    unfolding exec_ls exec_with_name [OF assms(5) n] ls cat
    using o f(1) by (simp add: ls_line_def record_of_def byte cmd_stat_def rd put_line_def)
qed

definition motd_files :: "BuildFile list" where
  "motd_files = [\<lparr>bf_name = str ''motd'', bf_mode = 0x1A4, bf_data = [0x48, 0x69, 0x07, 0x0A]\<rparr>]"

theorem shell_reads_ramdisk_witness:
  "\<exists>img. build_lfs1 motd_files = Some img \<and>
    (let s = demo_system\<lparr>ramdisk := Some (0x1000, img)\<rparr>; run = exec_command (handle_custom_command demo_host) in
     run (str ''ls'') s = Done () (process (str ''   644        4 motd'' @ [0x0A]) s) \<and>
     run (str ''cat '' @ str ''motd'') s = Done () (process (str ''Hi.'' @ [0x0A, 0x0A]) s) \<and>
     run (str ''stat '' @ str ''motd'') s = Done () (process (str ''name=motd size=4 mode=644'' @ [0x0A]) s))"
proof -
  have ok: "lfs_files motd_files"
    by (simp add: motd_files_def lfs_files_def utf8_valid_ascii data_bytes_def str_def)
  then obtain img where img: "build_lfs1 motd_files = Some img"
    using build_layout [of motd_files] by (auto simp: lfs_files_def)
  let ?s = "demo_system\<lparr>ramdisk := Some (0x1000, img)\<rparr>" and ?f = "hd motd_files"
  have r: "ramdisk ?s = Some (0x1000, img)" by simp
  have f: "find (\<lambda>f. bf_name f = str ''motd'') motd_files = Some ?f" by (simp add: motd_files_def)
  have g: "graphic (str ''motd'')" by (simp add: str_def graphic_def)
  have v: "oct 420 = str ''644''" "dec 4 = str ''4''" "dec (Suc (Suc (Suc (Suc 0)))) = str ''4''"
    by (simp_all add: oct_def dec_def radix.simps digit_def str_def)
  have ls: "concat (map (\<lambda>f. pad_left 0x20 6 (oct (unat (bf_mode f))) @ str '' '' @
        pad_left 0x20 8 (dec (length (bf_data f))) @ str '' '' @ bf_name f @ [0x0A]) motd_files) =
      str ''   644        4 motd'' @ [0x0A]"
    by (simp add: motd_files_def v pad_left_def) (simp add: str_def eval_nat_numeral)
  have cat: "map (\<lambda>b. if b = 0x0A \<or> b = 0x0D \<or> 0x20 \<le> b \<and> b \<le> 0x7E then b else 0x2E) (bf_data ?f) @ [0x0A] =
      str ''Hi.'' @ [0x0A, 0x0A]"
    by (simp add: motd_files_def str_def)
  have stat: "str ''name='' @ str ''motd'' @ str '' size='' @ dec (length (bf_data ?f)) @ str '' mode='' @
        oct (unat (bf_mode ?f)) @ [0x0A] = str ''name=motd size=4 mode=644'' @ [0x0A]"
    by (simp add: motd_files_def v) (simp add: str_def)
  show ?thesis
    using img shell_reads_ramdisk [OF ok img r f g, of demo_host, unfolded ls cat stat]
    unfolding Let_def by blast
qed

section \<open>Position-dependent programs\<close>

text \<open>The same screen, kernel and ram disk.\<close>

definition same_view :: "'p system \<Rightarrow> 'p system \<Rightarrow> bool" where
  "same_view s s' \<longleftrightarrow> tty_out s' = tty_out s \<and> skern s' = skern s \<and> ramdisk s' = ramdisk s"

lemma same_view_updates [simp]:
  "same_view s (say m s') = same_view s s'" "same_view s (serial_text m s') = same_view s s'"
  "same_view s (s'\<lparr>efer := v\<rparr>) = same_view s s'" "same_view s (s'\<lparr>star := v\<rparr>) = same_view s s'"
  "same_view s (s'\<lparr>lstar := v\<rparr>) = same_view s s'" "same_view s (s'\<lparr>sfmask := v\<rparr>) = same_view s s'"
  "same_view s (s'\<lparr>syscall_ready := b\<rparr>) = same_view s s'" "same_view s s"
  by (simp_all add: same_view_def serial_text_def) (simp_all add: say_def)

text \<open>An executable with fixed addresses is refused by the native runner, which only set up
  the system call path.\<close>

lemma native_refuses_fixed:
  assumes "parse_elf64 img = Inr elf" "segments elf \<noteq> []" "e_type elf = 2" "canonical p (syscall_entry p)"
  shows "\<exists>v s'. run_native_elf_with_args p img argv envp s = Fail (FixedVaddrUnsupported v 2) s' \<and>
    same_view s s'"
proof -
  let ?s = "say (str ''step: init syscall path begin'') (say (str ''step: enter runner'') s)"
  obtain u s1 where i: "init_syscall_path p ?s = Done u s1" "same_view ?s s1"
    using assms(4) by (cases "syscall_ready s") (auto simp: init_syscall_path_def Let_def say_def same_view_def)
  obtain v s2 where "native_check img (say (str ''step: init syscall path done'') s1) =
      Fail (FixedVaddrUnsupported v 2) s2" "same_view s1 s2"
    using assms(1-3) by (cases "vaddr_range (segments elf)") (auto simp: native_check_def Let_def)
  with i show ?thesis
    by (auto simp: run_native_elf_with_args_def Let_def) (simp add: same_view_def say_def)
qed

text \<open>What \<open>run\<close> shows and leaves when it ends.\<close>

lemma cmd_run_fixed:
  assumes "ramdisk s = Some (addr, img)" "fs_open img name = Inr rec"
    "parse_elf64 (fr_data rec) = Inr elf" "segments elf \<noteq> []" "e_type elf = 2"
    "canonical (plat h) (syscall_entry (plat h))"
  shows "\<exists>s1. same_view s s1 \<and> cmd_run h name args s =
    interp_report (run_title name args)
      (interpreted h (fr_data rec) (name # split_whitespace args) s1)"
proof -
  let ?s = "serial_text (str ''[LeonOS3] native start '' @ name @ str '' '' @ args @ [0x0A]) s"
  obtain v s1 where "run_native_elf_with_args (plat h) (fr_data rec) (name # split_whitespace args) [] ?s =
      Fail (FixedVaddrUnsupported v 2) s1" "same_view ?s s1"
    using native_refuses_fixed [OF assms(3-6)] by blast
  then show ?thesis
    using assms(1,2)
    by (intro exI [of _ "serial_text (str ''[LeonOS3] native fixed-vaddr fallback to interpreter: '' @
          name @ str '' '' @ args @ [0x0A]) s1"])
      (auto simp: cmd_run_def ramdisk_bytes_def Let_def same_view_def serial_text_def)
qed

definition run_done :: "bytes \<Rightarrow> bytes \<Rightarrow> kernel \<Rightarrow> bytes" where
  "run_done name args k = [0x0A] @ str ''run '' @ name @ str '' '' @ args @
     str '': exited with code '' @ sdec (last_exit_code k) @ str '' (interp)'' @ [0x0A]"

definition run_failure :: "bytes \<Rightarrow> bytes \<Rightarrow> RunError \<Rightarrow> bytes" where
  "run_failure name args e = str ''run '' @ name @ str '' '' @ args @ str '': failed: '' @
     debug_run_error e @ [0x0A]"

text \<open>What a run leaves on the screen, and the kernel after it.\<close>

fun answer :: "bytes \<Rightarrow> bytes \<Rightarrow> (RunError, console, unit) run \<Rightarrow> (bytes \<times> kernel) option" where
  "answer name args (Done _ (scr, k)) = Some (scr @ run_done name args k, k)"
| "answer name args (Fail e (scr, k)) = Some (scr @ run_failure name args e, k)"
| "answer name args _ = None"

lemma exec_run_answer:
  assumes "run_target (trim input) = Some (name, args)"
    "ramdisk s = Some (addr, img)" "fs_open img name = Inr rec"
    "parse_elf64 (fr_data rec) = Inr elf" "segments elf \<noteq> []" "e_type elf = 2"
    "canonical (plat h) (syscall_entry (plat h))"
    "answer name args (run_linux_elf_with_args (nesting h) (tmp_buf h) (fr_data rec)
      (name # split_whitespace args) [] (tty_out s, skern s)) = Some (scr, k)"
  shows "\<exists>s'. exec_command (handle_custom_command h) input s = Done () s' \<and>
    tty_out s' = scr \<and> skern s' = k"
proof -
  let ?argv = "name # split_whitespace args"
  obtain s1 where s1: "same_view s s1" and c: "cmd_run h name args s =
      interp_report (run_title name args) (interpreted h (fr_data rec) ?argv s1)"
    using cmd_run_fixed [OF assms(2-7)] by blast
  define r where "r = run_linux_elf_with_args (nesting h) (tmp_buf h) (fr_data rec) ?argv []
    (tty_out s, skern s)"
  have i: "interpreted h (fr_data rec) ?argv s1 = on_console s1 r"
    using s1 by (simp add: interpreted_def same_view_def r_def)
  have "answer name args r = Some (scr, k)" using assms(8) by (simp add: r_def)
  then obtain s2 where "cmd_run h name args s = Done () s2" "tty_out s2 = scr" "skern s2 = k"
    unfolding c i
    by (cases "(name, args, r)" rule: answer.cases)
      (simp_all add: put_line_def process_def run_title_def serial_text_def run_done_def run_failure_def)
  then show ?thesis
    using exec_run [OF run_target_is_run [OF assms(1)], of "handle_custom_command h" s]
    unfolding handle_run [OF assms(1)] by simp
qed

section \<open>From power on to the exit code\<close>

text \<open>The screen when the shell starts, with a file system of \<open>n\<close> files.\<close>

definition boot_screen :: "nat \<Rightarrow> bytes" where
  "boot_screen n =
     [0x1B] @ str ''[32mLeonOS 3 booting...'' @ [0x1B] @ str ''[0m'' @ [0x0A] @
     str ''[ .... ] Initialize framebuffer terminal'' @ [0x0A] @
     str ''[ .... ] Initialize POSIX compatibility layer'' @ [0x0A] @
     str ''[ .... ] Initialize Linux syscall dispatcher'' @ [0x0A] @
     str ''[ .... ] Initialize ELF loader'' @ [0x0A] @
     str ''[  OK  ] Load ramdisk'' @ [0x0A] @
     str ''[  OK  ] Mount rootfs ('' @ dec n @ str '' files)'' @ [0x0A] @
     str ''[  OK  ] Start Leon shell'' @ [0x0A] @
     str ''Type '' @ [0x27] @ str ''help'' @ [0x27] @ str '' for commands.'' @ [0x0A, 0x0A]"

definition booted :: "memory \<Rightarrow> bytes \<Rightarrow> u8 option list \<Rightarrow> kernel" where
  "booted m img ps = set_stdin_reader ps (set_rootfs img (boot_kernel m))"

lemma boot_mounted:
  assumes "boot_ramdisk bi = Some (addr, img)" "fs_header img = Inr hdr"
    and s_def: "s = boot_terminal (boot_devices bi ps (power_on m t))"
  shows "tty_out s = boot_screen (unat (file_count hdr))" "skern s = booted m img ps"
    "ramdisk s = Some (addr, img)"
proof -
  have d: "tty_out d = [] \<and> skern d = set_stdin_reader ps (boot_kernel m) \<and> ramdisk d = Some (addr, img)"
    if "d = boot_devices bi ps (power_on m t)" for d
    using assms(1) that by (cases "physical_memory_offset bi")
      (simp_all add: boot_devices_def power_on_def traps_init_def serial_text_def set_physical_memory_offset_def Let_def)
  define d where "d = boot_devices bi ps (power_on m t)"
  note d = d [OF d_def]
  have m: "set_rootfs img (set_stdin_reader ps (boot_kernel m)) = booted m img ps"
    by (simp add: booted_def set_rootfs_def set_stdin_reader_def)
  have tags: "str ''[ .... ] '' @ str x @ r = str (''[ .... ] '' @ x) @ r"
      "str ''[  OK  ] '' @ str x @ r = str (''[  OK  ] '' @ x) @ r" for x r
    by (simp_all add: str_def)
  show "tty_out s = boot_screen (unat (file_count hdr))" "skern s = booted m img ps"
    "ramdisk s = Some (addr, img)"
    unfolding s_def d_def [symmetric] using d assms(2) m tags
    by (simp_all add: boot_terminal_def boot_rootfs_def boot_msg_def boot_line_def serial_text_def
        process_def ramdisk_bytes_def put_line_def mount_def boot_screen_def Let_def)
qed

text \<open>C2: end to end, from power on to the exit code: boot with a ram disk that the build script
  packed, type a \<open>run\<close> line for an executable with fixed addresses, and the screen shows
  the boot messages, the prompt, the line, what the interpreter running exactly the file's
  bytes with the arguments of the line made of it, the exit code or the error, and a new
  prompt; the kernel goes on with the state the program left, and the editor is empty.\<close>

theorem boot_and_run:
  assumes "has_framebuffer bi" "boot_ramdisk bi = Some (addr, img)"
    and "lfs_files files" "build_lfs1 files = Some img" "find (\<lambda>f. bf_name f = name) files = Some f"
    and "parse_elf64 (bf_data f) = Inr elf" "segments elf \<noteq> []" "e_type elf = 2"
    and "canonical (plat h) (syscall_entry (plat h))"
    and "keys_of qs = cmd" "\<forall>c \<in> set cmd. printable c" "length cmd \<le> 256"
    and "run_target (trim cmd) = Some (name, args)"
    and "answer name args (run_linux_elf_with_args (nesting h) (tmp_buf h) (bf_data f)
      (name # split_whitespace args) []
      (boot_screen (length files) @ prompt @ cmd @ [0x0A], booted m img rest)) = Some (scr, k)"
  shows "\<exists>b s. kernel_main h bi (qs @ Some 0x0A # rest) (length qs + 1) (power_on m t) = Done b s \<and>
    tty_out s = scr @ prompt \<and> skern s = k \<and> holds b []"
proof -
  let ?polls = "qs @ Some 0x0A # rest"
  define s where "s = boot_terminal (boot_devices bi ?polls (power_on m t))"
  obtain hdr where hdr: "fs_header img = Inr hdr" "unat (file_count hdr) = length files"
    using build_header [OF assms(3,4)] assms(3) by (auto simp: lfs_files_def unat_of_nat)
  note boot = boot_mounted [OF assms(2) hdr(1) s_def, unfolded hdr(2)]
  have open_f: "fs_open img name = Inr (record_of f)"
    using build_open [OF assms(3,4), of name] assms(5) by simp
  have data: "fr_data (record_of f) = bf_data f" by (simp add: record_of_def)
  let ?s = "process prompt s"
  have give: "?s = type_ahead ?polls ?s"
    using boot(2) by (simp add: type_ahead_def process_def booted_def set_stdin_reader_def)
  let ?t = "type_ahead rest (process (cmd @ [0x0A]) ?s)"
  have view: "(tty_out ?t, skern ?t) =
      (boot_screen (length files) @ prompt @ cmd @ [0x0A], booted m img rest)"
      "ramdisk ?t = Some (addr, img)"
    using boot by (simp_all add: type_ahead_def process_def booted_def set_stdin_reader_def)
  obtain s1 where s1: "exec_command (handle_custom_command h) cmd ?t = Done () s1"
      "tty_out s1 = scr" "skern s1 = k"
    using exec_run_answer [OF assms(13) view(2) open_f, of elf h scr k, unfolded data view(1),
        OF assms(6-9,14)] by blast
  obtain b where "holds b []" "shell_loop read_key (handle_custom_command h) (length qs + 1) empty_line ?s =
      Done b (process prompt s1)"
    using console.line_typed [OF holds_empty(1) assms(10-12), of "handle_custom_command h" 0 rest ?s] s1(1)
    unfolding give [symmetric] by auto
  then show ?thesis
    using assms(1) s1(2,3) by (simp add: kernel_main_def run_shell_def s_def process_def Let_def)
qed

text \<open>A ram disk with one program.\<close>

definition hello_files :: "BuildFile list" where
  "hello_files = [\<lparr>bf_name = str ''hello'', bf_mode = 0x1ED, bf_data = hello_elf (str ''Hi'') 7\<rparr>]"

lemma hello_files_ok: "lfs_files hello_files"
  by (simp add: hello_files_def lfs_files_def utf8_valid_ascii data_bytes_def length_hello_elf)
    (simp add: str_def)

theorem boot_and_run_witness:
  "\<exists>img b s. build_lfs1 hello_files = Some img \<and>
     kernel_main demo_host \<lparr>physical_memory_offset = None, boot_ramdisk = Some (0x1000, img),
         has_framebuffer = True\<rparr>
       (map Some (str ''run hello'') @ Some 0x0A # [None]) (length (map Some (str ''run hello'')) + 1)
       (power_on (\<lambda>_. 0) demo_table) = Done b s \<and>
     tty_out s = (boot_screen 1 @ prompt @ str ''run hello'' @ [0x0A] @ str ''Hi'' @ [0x0A] @
       str ''run hello : exited with code 7 (interp)'' @ [0x0A]) @ prompt"
proof -
  have "list_all (\<lambda>f. length (bf_name f) \<le> 48) hello_files"
    by (simp add: hello_files_def str_def)
  then obtain img where img: "build_lfs1 hello_files = Some img"
    using build_layout [of hello_files] by (auto simp: list_all_iff)
  let ?f = "hd hello_files" and ?l = "str ''run hello''"
  let ?scr = "boot_screen 1 @ prompt @ ?l @ [0x0A]" and ?k = "booted (\<lambda>_. 0) img [None]"
  have f: "bf_data ?f = hello_elf (str ''Hi'') 7" by (simp add: hello_files_def)
  have m: "length (str ''Hi'') < 0x100000" by (simp add: str_def)
  have ws: "split_whitespace [] = []" by (simp add: split_whitespace.simps)
  have code: "last_exit_code (mark_exit_code 7 k) = 7" for k
    by (simp add: last_exit_code_def mark_exit_code_def)
  have msg: "run_done (str ''hello'') [] (mark_exit_code 7 ?k) =
      [0x0A] @ str ''run hello : exited with code 7 (interp)'' @ [0x0A]"
    by (simp add: run_done_def code str_def sdec_def dec_def radix.simps digit_def)
  have a: "answer (str ''hello'') [] (run_linux_elf_with_args (nesting demo_host) (tmp_buf demo_host)
      (bf_data ?f) (str ''hello'' # split_whitespace []) [] (?scr, ?k)) =
    Some (?scr @ str ''Hi'' @ [0x0A] @ str ''run hello : exited with code 7 (interp)'' @ [0x0A],
      mark_exit_code 7 ?k)"
    using hello_run [OF m, of "[str ''hello'']" "[]" 0 "0x9000" 7 ?scr ?k] msg
    by (simp add: f ws demo_host_def stack_room_def str_def)
  let ?bi = "\<lparr>physical_memory_offset = None, boot_ramdisk = Some (0x1000, img), has_framebuffer = True\<rparr>"
  have n: "length hello_files = 1" by (simp add: hello_files_def)
  have g: "graphic (str ''hello'')" "str ''hello'' \<noteq> []" by (simp_all add: str_def graphic_def)
  have t: "str ''run hello'' = str ''run '' @ str ''hello''" by (simp add: str_def)
  have keys: "keys_of (map Some l) = l" for l :: bytes by (induction l) simp_all
  have pr: "\<forall>c \<in> set ?l. printable c" "length ?l \<le> 256" by (simp_all add: str_def printable_def)
  have bi: "has_framebuffer ?bi" "boot_ramdisk ?bi = Some (0x1000, img)" by simp_all
  have found: "find (\<lambda>f. bf_name f = str ''hello'') hello_files = Some ?f"
    by (simp add: hello_files_def)
  have parsed: "parse_elf64 (bf_data ?f) =
      Inr \<lparr>entry = 0x400000, e_type = 2, segments = [load_segment (hello_header (str ''Hi''))]\<rparr>"
    using hello_parse [of "str ''Hi''" 7] unfolding f by (simp add: str_def)
  have can: "canonical (plat demo_host) (syscall_entry (plat demo_host))"
    by (simp add: demo_host_def demo_platform_def)
  have target: "run_target (trim ?l) = Some (str ''hello'', [])"
    unfolding t by (rule run_target_word [OF g])
  show ?thesis
    using img boot_and_run [where h = demo_host and m = "\<lambda>_. 0" and t = demo_table,
        OF bi hello_files_ok img found parsed _ _ can keys pr target a [folded n]]
    by (auto simp: n)
qed

section \<open>Native programs\<close>

lemma cmd_run_native:
  assumes "ramdisk s = Some (addr, img)" "fs_open img name = Inr rec"
    "run_native_elf_with_args (plat h) (fr_data rec) (name # split_whitespace args) []
      (serial_text (str ''[LeonOS3] native start '' @ name @ str '' '' @ args @ [0x0A]) s) = Done () s1"
  shows "cmd_run h name args s = Done () (put_line ([0x0A] @ run_title name args @
    str '': exited with code '' @ sdec (last_exit_code (skern s1))) s1)"
  using assms by (simp add: cmd_run_def ramdisk_bytes_def Let_def)


text \<open>The paging of the system when the shell starts.\<close>

lemma paging_shown [simp]:
  "paging (process bs s) = paging s" "paging (put_line bs s) = paging s" "paging (boot_msg l bs s) = paging s"
  "paging (mount img s) = paging s" "paging (s\<lparr>ramdisk := rd\<rparr>) = paging s" "paging (traps_init s) = paging s"
  by (simp_all add: paging_def process_def put_line_def boot_msg_def mount_def traps_init_def serial_text_def Let_def)

lemma boot_paging: "paging (boot_terminal (boot_devices bi ps (power_on m t))) = (t, physical_memory_offset bi)"
proof -
  have "paging (boot_rootfs s) = paging s" for s :: "'a system"
    by (auto simp: boot_rootfs_def Let_def split: option.split sum.split)
  moreover have "paging (boot_devices bi ps (power_on m t)) = (t, physical_memory_offset bi)"
    by (auto simp: boot_devices_def Let_def split: option.split)
      (simp_all add: paging_def set_physical_memory_offset_def power_on_def serial_text_def traps_init_def)
  ultimately show ?thesis by (simp add: boot_terminal_def Let_def)
qed

definition tiny_files :: "BuildFile list" where
  "tiny_files = [\<lparr>bf_name = str ''tiny'', bf_mode = 0x1ED, bf_data = tiny_elf\<rparr>]"


end
